(* ===== verification/Prelude.thy ===== *)
theory Prelude
  imports Complex_Main "HOL-Library.AList"
begin

text \<open>
  Shared vocabulary of the development: Python exceptions as values, results of code that
  may raise, insertion-ordered dictionaries, sequences of statements that stop at the first
  exception, and the generic facts the component theories share.  The collections declared
  here are filled by the components: \<open>py_eval\<close> holds the equations that run the model on a
  concrete input, \<open>frame\<close> the facts that an operation leaves a part of the state alone.
\<close>

named_theorems py_eval "equations that evaluate the model on concrete inputs"
named_theorems frame "parts of the state an operation leaves unchanged"

section \<open>Exceptions and fallible results\<close>

text \<open>
  One constructor per exception class the sources raise or rely on; the payload is what the
  message is built from.  \<open>NotModelled\<close> marks inputs outside the model (for example a number
  spelled as a JSON string, which \<open>float()\<close> would parse); no theorem speaks about it.
\<close>

datatype write_error =
    NotBoolean string
  | NotInteger string
  | OutsideRange string int
  | ReadOnly string
  | NoWriteHandler string

datatype exn =
    KeyError string
  | TypeError
  | AttributeError
  | ValueError string
  | OverflowError
  | ZeroDivisionError
  | ProcessWriteError write_error
  | RuntimeError string
  | OSError
  | IndexError
  | NoSuchIdException
  | NotModelled

type_synonym 'a result = "exn + 'a"

definition bindE :: "'a result \<Rightarrow> ('a \<Rightarrow> 'b result) \<Rightarrow> 'b result" where
  "bindE m f = (case m of Inl e \<Rightarrow> Inl e | Inr x \<Rightarrow> f x)"

lemma bindE_simps [simp]:
  "bindE (Inl e) f = Inl e"
  "bindE (Inr x) f = f x"
  by (simp_all add: bindE_def)

lemma bindE_eq_Inr: "bindE m f = Inr y \<longleftrightarrow> (\<exists>x. m = Inr x \<and> f x = Inr y)"
  by (cases m) simp_all

lemma bindE_eq_Inl: "bindE m f = Inl e \<longleftrightarrow> m = Inl e \<or> (\<exists>x. m = Inr x \<and> f x = Inl e)"
  by (cases m) auto

lemma bindE_cong [fundef_cong]:
  "m = m' \<Longrightarrow> (\<And>x. m' = Inr x \<Longrightarrow> f x = f' x) \<Longrightarrow> bindE m f = bindE m' f'"
  by (cases m') simp_all

text \<open>A list comprehension whose element expression may raise: the first exception wins.\<close>

fun mapE :: "('a \<Rightarrow> 'b result) \<Rightarrow> 'a list \<Rightarrow> 'b list result" where
  "mapE f [] = Inr []"
| "mapE f (x # xs) = bindE (f x) (\<lambda>y. bindE (mapE f xs) (\<lambda>ys. Inr (y # ys)))"

lemma mapE_eq_Inr: "mapE f xs = Inr ys \<longleftrightarrow> list_all2 (\<lambda>x y. f x = Inr y) xs ys"
proof (induction xs arbitrary: ys)
  case Nil
  then show ?case by auto
next
  case (Cons x xs)
  then show ?case by (cases ys) (auto simp: bindE_eq_Inr)
qed

lemma mapE_eq_Inl: "mapE f xs = Inl e \<Longrightarrow> \<exists>x\<in>set xs. f x = Inl e"
  by (induction xs) (auto simp: bindE_eq_Inl)

lemma mapE_cong [fundef_cong]:
  "xs = ys \<Longrightarrow> (\<And>x. x \<in> set ys \<Longrightarrow> f x = g x) \<Longrightarrow> mapE f xs = mapE g ys"
  by (induction ys arbitrary: xs) auto

lemma mapE_total: "(\<And>x. x \<in> set xs \<Longrightarrow> f x = Inr (g x)) \<Longrightarrow> mapE f xs = Inr (map g xs)"
  by (induction xs) simp_all

section \<open>Statements that may raise\<close>

text \<open>
  A block of statements over a mutable object: each statement returns the object and the
  exception it raised, if any.  Mutations made before an exception stay visible.
\<close>

type_synonym 's stmt = "'s \<Rightarrow> 's \<times> exn option"

fun run_stmts :: "'s stmt list \<Rightarrow> 's stmt" where
  "run_stmts [] s = (s, None)"
| "run_stmts (c # cs) s = (case c s of (s', None) \<Rightarrow> run_stmts cs s' | (s', Some e) \<Rightarrow> (s', Some e))"

lemma run_stmts_append:
  "run_stmts (cs @ ds) s =
     (case run_stmts cs s of (s', None) \<Rightarrow> run_stmts ds s' | (s', Some e) \<Rightarrow> (s', Some e))"
  by (induction cs arbitrary: s) (auto split: prod.splits option.splits)

lemma run_stmts_inv:
  assumes "\<And>c s. c \<in> set cs \<Longrightarrow> P s \<Longrightarrow> P (fst (c s))" and "P s"
  shows "P (fst (run_stmts cs s))"
  using assms
proof (induction cs arbitrary: s)
  case Nil
  then show ?case by simp
next
  case (Cons c cs)
  obtain s' r where step: "c s = (s', r)" by (cases "c s")
  from Cons.prems(1) [of c s] Cons.prems(2) step have "P s'" by simp
  with Cons step show ?case by (auto split: option.splits)
qed

lemma run_stmts_ok: "snd (c s) = None \<Longrightarrow> run_stmts (c # cs) s = run_stmts cs (fst (c s))"
  by (cases "c s") simp

lemma run_stmts_raise: "snd (c s) = Some e \<Longrightarrow> run_stmts (c # cs) s = c s"
  by (cases "c s") simp

declare run_stmts.simps(2) [simp del]

section \<open>Insertion-ordered dictionaries\<close>

text \<open>
  A Python dict is the association list of its items in insertion order; assigning to a
  present key replaces the value in place (\<open>AList.update\<close>).  A dict comprehension assigns
  the pairs from left to right.
\<close>

definition dict_of :: "('k \<times> 'v) list \<Rightarrow> ('k \<times> 'v) list" where
  "dict_of kvs = fold (\<lambda>(k, v) d. AList.update k v d) kvs []"

lemma fold_update_fst_set:
  "fst ` set (fold (\<lambda>(k, v) d. AList.update k v d) kvs d) = fst ` set kvs \<union> fst ` set d"
proof (induction kvs arbitrary: d)
  case Nil
  then show ?case by simp
next
  case (Cons kv kvs)
  have "fst ` set (AList.update (fst kv) (snd kv) d) = insert (fst kv) (fst ` set d)"
    using dom_update [of "fst kv" "snd kv" d] by (simp add: dom_map_of_conv_image_fst)
  with Cons show ?case by (cases kv) auto
qed

lemma fold_update_distinct:
  "distinct (map fst d) \<Longrightarrow> distinct (map fst (fold (\<lambda>(k, v) d. AList.update k v d) kvs d))"
  by (induction kvs arbitrary: d) (auto simp: distinct_update)

lemma update_fresh: "k \<notin> fst ` set d \<Longrightarrow> AList.update k v d = d @ [(k, v)]"
  by (induction d) auto

lemma fold_update_fresh:
  "distinct (map fst (d @ kvs)) \<Longrightarrow> fold (\<lambda>(k, v) d. AList.update k v d) kvs d = d @ kvs"
proof (induction kvs arbitrary: d)
  case Nil
  then show ?case by simp
next
  case (Cons kv kvs)
  obtain k v where kv: "kv = (k, v)" by (cases kv)
  with Cons.prems have "AList.update k v d = d @ [kv]"
    by (intro update_fresh [THEN trans]) auto
  with Cons kv show ?case by simp
qed

lemma dict_of_distinct: "distinct (map fst (dict_of kvs))"
  unfolding dict_of_def by (rule fold_update_distinct) simp

lemma dict_of_keys: "fst ` set (dict_of kvs) = fst ` set kvs"
  unfolding dict_of_def using fold_update_fst_set [of kvs "[]"] by simp

lemma dict_of_fresh: "distinct (map fst kvs) \<Longrightarrow> dict_of kvs = kvs"
  unfolding dict_of_def using fold_update_fresh [of "[]" kvs] by simp

text \<open>\<open>len(d)\<close> equals the number of pairs assigned exactly when no key was assigned twice.\<close>

lemma dict_of_length: "length (dict_of kvs) = length kvs \<longleftrightarrow> distinct (map fst kvs)"
proof
  assume len: "length (dict_of kvs) = length kvs"
  have "card (set (map fst kvs)) = card (set (map fst (dict_of kvs)))"
    using dict_of_keys [of kvs] by simp
  also have "\<dots> = length (dict_of kvs)"
    using distinct_card [OF dict_of_distinct [of kvs]] by simp
  finally show "distinct (map fst kvs)"
    using len by (intro card_distinct) simp
next
  assume "distinct (map fst kvs)"
  then show "length (dict_of kvs) = length kvs" by (simp add: dict_of_fresh)
qed

lemma map_of_index:
  assumes "distinct (map f xs)"
  shows "map_of (map (\<lambda>x. (f x, x)) xs) k = Some y \<longleftrightarrow> y \<in> set xs \<and> f y = k"
proof -
  have "distinct (map fst (map (\<lambda>x. (f x, x)) xs))" using assms by (simp add: comp_def)
  from map_of_eq_Some_iff [OF this] show ?thesis by auto
qed

lemma map_of_distinct_iff:
  "distinct (map fst d) \<Longrightarrow> map_of d k = Some v \<longleftrightarrow> (k, v) \<in> set d"
  by (auto dest: map_of_SomeD)

definition isOK :: "'a result \<Rightarrow> bool" where
  "isOK r = (case r of Inr _ \<Rightarrow> True | Inl _ \<Rightarrow> False)"

lemma isOK_simps [simp]: "isOK (Inr x)" "\<not> isOK (Inl e)"
  by (simp_all add: isOK_def)

lemma isOK_iff: "isOK r \<longleftrightarrow> (\<exists>x. r = Inr x)"
  by (cases r) simp_all

lemma isOK_bindE [simp]: "isOK (bindE m f) \<longleftrightarrow> isOK m \<and> isOK (f (projr m))"
  by (cases m) simp_all

lemma isOK_mapE: "isOK (mapE f xs) \<longleftrightarrow> (\<forall>x \<in> set xs. isOK (f x))"
  by (induction xs) simp_all

section \<open>Producing items one by one\<close>

fun mapS :: "('a \<Rightarrow> 's \<Rightarrow> 'b \<times> 's) \<Rightarrow> 'a list \<Rightarrow> 's \<Rightarrow> 'b list \<times> 's" where
  "mapS f [] s = ([], s)"
| "mapS f (a # as) s = (let (b, s1) = f a s; (bs, s2) = mapS f as s1 in (b # bs, s2))"

text \<open>
  What a source of numbered items promises: each item carries the successor of the counter,
  which it advances.  Runs are then numbered consecutively, without gaps or repetitions.
\<close>

locale numbering =
  fixes produce :: "'a \<Rightarrow> 's \<Rightarrow> 'e \<times> 's" and counter :: "'s \<Rightarrow> int" and label_of :: "'e \<Rightarrow> int"
  assumes label_next: "label_of (fst (produce a s)) = counter s + 1"
    and counter_next: "counter (snd (produce a s)) = counter s + 1"
begin

lemma run_labels:
  "map label_of (fst (mapS produce as s)) = map (\<lambda>i. counter s + 1 + int i) [0..<length as]"
proof (induction as arbitrary: s)
  case Nil
  then show ?case by simp
next
  case (Cons a as)
  have "map label_of (fst (mapS produce (a # as) s)) =
      (counter s + 1) # map (\<lambda>i. counter s + 1 + 1 + int i) [0..<length as]"
    using Cons.IH [of "snd (produce a s)"] label_next [of a s] counter_next [of a s]
    by (simp add: Let_def case_prod_unfold)
  also have "\<dots> = map (\<lambda>i. counter s + 1 + int i) [0..<length (a # as)]"
    by (simp add: upt_conv_Cons map_Suc_upt [symmetric] del: upt_Suc)
  finally show ?case .
qed

lemma run_distinct: "distinct (map label_of (fst (mapS produce as s)))"
  unfolding run_labels by (simp add: distinct_map inj_on_def)

end

section \<open>Machines with an invariant\<close>

text \<open>
  A component whose every operation keeps an invariant: the contract is one step, the
  consequence is about whole runs.
\<close>

locale machine =
  fixes step :: "'s \<Rightarrow> 'o \<Rightarrow> 's" and inv :: "'s \<Rightarrow> bool"
  assumes step_inv: "inv s \<Longrightarrow> inv (step s a)"
begin

lemma run_inv: "inv s \<Longrightarrow> inv (foldl step s as)"
  by (induction as arbitrary: s) (auto intro: step_inv)

lemma run_prefix_inv: "inv s \<Longrightarrow> inv (foldl step s (take n as))"
  by (rule run_inv)

lemma run_measure:
  fixes f :: "'s \<Rightarrow> 'm::preorder"
  assumes "inv s" and mono: "\<And>s a. inv s \<Longrightarrow> f s \<le> f (step s a)"
  shows "f s \<le> f (foldl step s as)"
  using assms(1)
proof (induction as arbitrary: s)
  case Nil
  then show ?case by simp
next
  case (Cons a as)
  have "f s \<le> f (step s a)" by (rule mono [OF Cons.prems])
  also have "\<dots> \<le> f (foldl step (step s a) as)" by (rule Cons.IH [OF step_inv [OF Cons.prems]])
  finally show ?case by simp
qed

end

section \<open>Targets of validated writes\<close>

text \<open>
  What a client that checks all its values first and then writes them one by one relies on:
  an accepted write succeeds, keeps the invariant, accepts the same writes afterwards, and is
  an update of the client's view.
\<close>

definition as_stmt :: "('s \<Rightarrow> 's \<times> 'r result) \<Rightarrow> 's stmt" where
  "as_stmt f s = (case f s of (s', Inl e) \<Rightarrow> (s', Some e) | (s', Inr _) \<Rightarrow> (s', None))"

locale write_target =
  fixes inv :: "'s \<Rightarrow> bool" and accepts :: "'s \<Rightarrow> 'k \<Rightarrow> 'v \<Rightarrow> bool"
    and put :: "'s \<Rightarrow> 'k \<Rightarrow> 'v \<Rightarrow> 's \<times> 'r result"
    and view :: "'s \<Rightarrow> 'm" and upd :: "'m \<Rightarrow> 'k \<Rightarrow> 'v \<Rightarrow> 'm"
  assumes write_succeeds: "inv s \<Longrightarrow> accepts s k v \<Longrightarrow> isOK (snd (put s k v))"
    and write_keeps: "inv s \<Longrightarrow> inv (fst (put s k v))"
    and write_stable: "inv s \<Longrightarrow> accepts (fst (put s k v)) k' v' = accepts s k' v'"
    and write_updates: "inv s \<Longrightarrow> accepts s k v \<Longrightarrow> view (fst (put s k v)) = upd (view s) k v"
begin

definition write_each :: "('k \<times> 'v) list \<Rightarrow> 's stmt" where
  "write_each kvs = run_stmts (map (\<lambda>(k, v). as_stmt (\<lambda>s. put s k v)) kvs)"

lemma as_stmt_write:
  "inv s \<Longrightarrow> accepts s k v \<Longrightarrow> as_stmt (\<lambda>s. put s k v) s = (fst (put s k v), None)"
  using write_succeeds [of s k v] by (cases "put s k v"; cases "snd (put s k v)") (simp_all add: as_stmt_def)

lemma write_each_succeeds:
  assumes "inv s" "\<And>k v. (k, v) \<in> set kvs \<Longrightarrow> accepts s k v"
  shows "\<exists>s'. write_each kvs s = (s', None) \<and> inv s' \<and> view s' = fold (\<lambda>(k, v) m. upd m k v) kvs (view s)"
  using assms
proof (induction kvs arbitrary: s)
  case Nil
  then show ?case by (simp add: write_each_def)
next
  case (Cons kv kvs)
  obtain k v where kv: "kv = (k, v)" by (cases kv)
  let ?s = "fst (put s k v)"
  have acc: "accepts s k v" and inv: "inv ?s"
    using Cons.prems kv write_keeps by auto
  have "accepts ?s k' v'" if "(k', v') \<in> set kvs" for k' v'
    using that Cons.prems write_stable by auto
  from Cons.IH [OF inv this] obtain s' where
    "write_each kvs ?s = (s', None)" "inv s'" "view s' = fold (\<lambda>(k, v) m. upd m k v) kvs (view ?s)"
    by blast
  then show ?case
    using as_stmt_write [OF Cons.prems(1) acc] write_updates [OF Cons.prems(1) acc] kv
    by (simp add: write_each_def run_stmts.simps(2))
qed

end

section \<open>Indexes\<close>

text \<open>The contract of a lookup in a well-formed index: it finds exactly the items it holds.\<close>

locale register_index =
  fixes wf :: "'i \<Rightarrow> bool" and lookup :: "'i \<Rightarrow> 'k \<Rightarrow> 'v result"
    and items :: "'i \<Rightarrow> 'v set" and key_of :: "'v \<Rightarrow> 'k"
  assumes lookup_iff: "wf m \<Longrightarrow> lookup m k = Inr v \<longleftrightarrow> v \<in> items m \<and> key_of v = k"
begin

lemma lookup_self: "wf m \<Longrightarrow> v \<in> items m \<Longrightarrow> lookup m (key_of v) = Inr v"
  by (simp add: lookup_iff)

lemma lookup_total: "wf m \<Longrightarrow> isOK (lookup m k) \<longleftrightarrow> k \<in> key_of ` items m"
  by (auto simp: isOK_iff lookup_iff)

lemma key_inj: "wf m \<Longrightarrow> inj_on key_of (items m)"
  by (rule inj_onI) (metis lookup_self Inr_inject)

lemma lookup_fails: "wf m \<Longrightarrow> k \<notin> key_of ` items m \<Longrightarrow> \<exists>e. lookup m k = Inl e"
  using lookup_total [of m k] by (cases "lookup m k") auto

end

section \<open>Bounded registries\<close>

text \<open>
  A registry that refuses members beyond its limit: the server promises it, the connection
  handlers rely on it.
\<close>

locale registry =
  fixes add :: "'k \<Rightarrow> 's \<Rightarrow> 's \<times> bool" and remove :: "'k \<Rightarrow> 's \<Rightarrow> 's"
    and members :: "'s \<Rightarrow> 'k set" and limit :: "'s \<Rightarrow> nat"
  assumes add_iff: "snd (add k s) \<longleftrightarrow> card (members s) < limit s"
    and add_members: "members (fst (add k s)) = (if snd (add k s) then insert k (members s) else members s)"
    and add_limit: "limit (fst (add k s)) = limit s"
    and remove_members: "members (remove k s) = members s - {k}"
    and remove_limit: "limit (remove k s) = limit s"
begin

definition bounded :: "'s \<Rightarrow> bool" where
  "bounded s \<longleftrightarrow> finite (members s) \<and> card (members s) \<le> limit s"

lemma add_bounded: "bounded s \<Longrightarrow> bounded (fst (add k s))"
  using add_iff [of k s] by (auto simp: bounded_def add_members add_limit card_insert_if)

lemma remove_bounded: "bounded s \<Longrightarrow> bounded (remove k s)"
  using card_Diff1_le [of "members s" k] by (auto simp: bounded_def remove_members remove_limit)

lemma remove_add: "k \<notin> members s \<Longrightarrow> members (remove k (fst (add k s))) = members s"
  by (simp add: remove_members add_members)

text \<open>A member that leaves makes room for exactly one more.\<close>

lemma remove_makes_room: "bounded s \<Longrightarrow> k \<in> members s \<Longrightarrow> snd (add k' (remove k s))"
  using card_Diff1_less [of "members s" k]
  by (simp add: bounded_def add_iff remove_members remove_limit)

lemma others_unaffected:
  "members (fst (add k s)) - {k} = members s - {k}" "members (remove k s) - {k} = members s - {k}"
  by (auto simp: add_members remove_members)

end

end
