(* ===== verification/Float64.thy ===== *)
theory Float64
  imports Prelude "HOL-Library.Log_Nat"
begin

text \<open>
  Python floats.  A finite float is the rational number it stands for; every arithmetic
  operation of the sources is the exact operation followed by \<open>fl\<close>, the IEEE 754 binary64
  rounding (to nearest, ties to even, gradual underflow).  Overflow to infinity is left out
  here: \<open>Float_Ops\<close> has it, for the operations of the process model that may overflow.
  \<open>round_half_even\<close> is Python's \<open>round(x)\<close>.
\<close>

section \<open>Rounding to an integer\<close>

definition round_half_even :: "rat \<Rightarrow> int" where
  "round_half_even x =
     (let f = \<lfloor>x\<rfloor>; r = x - of_int f
      in if r < 1/2 then f else if 1/2 < r then f + 1 else if even f then f else f + 1)"

lemma round_half_even_bounds: "\<lfloor>x\<rfloor> \<le> round_half_even x" "round_half_even x \<le> \<lfloor>x\<rfloor> + 1"
  by (auto simp: round_half_even_def Let_def)

lemma round_half_even_of_int [simp]: "round_half_even (of_int n) = n"
  by (simp add: round_half_even_def)

lemma round_half_even_numeral [simp]:
  "round_half_even 0 = 0" "round_half_even 1 = 1" "round_half_even (numeral w) = numeral w"
  using round_half_even_of_int [of 0] round_half_even_of_int [of 1]
    round_half_even_of_int [of "numeral w"] by simp_all

lemma round_half_even_mono: "x \<le> y \<Longrightarrow> round_half_even x \<le> round_half_even y"
proof -
  assume le: "x \<le> y"
  then have fl: "\<lfloor>x\<rfloor> \<le> \<lfloor>y\<rfloor>" by (rule floor_mono)
  show ?thesis
  proof (cases "\<lfloor>x\<rfloor> = \<lfloor>y\<rfloor>")
    case True
    with le show ?thesis by (auto simp: round_half_even_def Let_def)
  next
    case False
    with fl show ?thesis
      using round_half_even_bounds(2) [of x] round_half_even_bounds(1) [of y] by linarith
  qed
qed

lemma round_half_even_minus: "round_half_even (- x) = - round_half_even x"
proof (cases "x = of_int \<lfloor>x\<rfloor>")
  case True
  then have "round_half_even (- x) = round_half_even (of_int (- \<lfloor>x\<rfloor>))" by simp
  also have "\<dots> = - round_half_even (of_int \<lfloor>x\<rfloor>)" by (simp only: round_half_even_of_int)
  finally show ?thesis using True by simp
next
  case False
  define f where "f = \<lfloor>x\<rfloor>"
  have f: "of_int f < x" "x < of_int f + 1"
    using False floor_correct [of x] by (auto simp: f_def less_le)
  have neg: "\<lfloor>- x\<rfloor> = - f - 1"
    using f by (intro floor_unique) auto
  show ?thesis
    unfolding round_half_even_def Let_def neg f_def [symmetric] by auto
qed

lemma round_half_even_error: "\<bar>x - of_int (round_half_even x)\<bar> \<le> 1/2"
proof -
  have "of_int \<lfloor>x\<rfloor> \<le> x" "x < of_int \<lfloor>x\<rfloor> + 1" by linarith+
  then show ?thesis by (auto simp: round_half_even_def Let_def abs_le_iff)
qed

section \<open>The exponent of a positive rational\<close>

definition ilog2 :: "rat \<Rightarrow> int" where
  "ilog2 x =
     (let (p, q) = quotient_of x; e = bitlen p - bitlen q
      in if x < 2 powi e then e - 1 else e)"

lemma powi_mono: "i \<le> j \<Longrightarrow> (2::rat) powi i \<le> 2 powi j"
  by (rule power_int_increasing) simp_all

lemma powi_strict_mono: "i < j \<Longrightarrow> (2::rat) powi i < 2 powi j"
  by (rule power_int_strict_increasing) simp_all

lemma powi_less_iff: "(2::rat) powi i < 2 powi j \<longleftrightarrow> i < j"
  by (meson leD linorder_not_le powi_mono powi_strict_mono)

lemma powi_pos [simp]: "0 < (2::rat) powi i"
  by (rule zero_less_power_int) simp

lemma powi_add: "(2::rat) powi (i + j) = 2 powi i * 2 powi j"
  by (rule power_int_add) simp

lemma bitlen_powi:
  assumes "0 < p"
  shows "2 powi (bitlen p - 1) \<le> (of_int p :: rat)" "(of_int p :: rat) < 2 powi bitlen p"
proof -
  have b: "2 ^ nat (bitlen p - 1) \<le> p" "p < 2 ^ nat (bitlen p)"
    using bitlen_bounds [OF assms] by auto
  have "0 \<le> log 2 (real_of_int p)" using assms by simp
  then have "0 \<le> \<lfloor>log 2 (real_of_int p)\<rfloor>" by simp
  moreover have "bitlen p = 1 + \<lfloor>log 2 (real_of_int p)\<rfloor>"
    using assms by (simp add: bitlen_def floorlog_def)
  ultimately have pos: "0 < bitlen p" by linarith
  have "(of_int (2 ^ nat (bitlen p - 1)) :: rat) \<le> of_int p" using b(1) by (simp only: of_int_le_iff)
  then show "2 powi (bitlen p - 1) \<le> (of_int p :: rat)"
    using pos by (simp add: power_int_def)
  have "(of_int p :: rat) < of_int (2 ^ nat (bitlen p))" using b(2) by (simp only: of_int_less_iff)
  then show "(of_int p :: rat) < 2 powi bitlen p"
    using pos by (simp add: power_int_def)
qed

lemma ilog2_bounds:
  assumes "0 < x"
  shows "2 powi ilog2 x \<le> x" "x < 2 powi (ilog2 x + 1)"
proof -
  obtain p q where pq: "quotient_of x = (p, q)" by (cases "quotient_of x")
  have q: "0 < q" using quotient_of_denom_pos [OF pq] .
  have x: "x = of_int p / of_int q" using quotient_of_div [OF pq] .
  have p: "0 < p" using assms q by (simp add: x zero_less_divide_iff)
  define e where "e = bitlen p - bitlen q"
  have lo: "2 powi (e - 1) < x"
  proof -
    have "(2::rat) powi (e - 1) * of_int q < 2 powi (e - 1) * 2 powi bitlen q"
      using bitlen_powi(2) [OF q] by (intro mult_strict_left_mono) simp_all
    also have "\<dots> = 2 powi (bitlen p - 1)" by (simp add: powi_add [symmetric] e_def)
    also have "\<dots> \<le> of_int p" by (rule bitlen_powi(1) [OF p])
    finally show ?thesis using q by (simp add: x pos_less_divide_eq)
  qed
  have hi: "x < 2 powi (e + 1)"
  proof -
    have "(of_int p :: rat) < 2 powi bitlen p" by (rule bitlen_powi(2) [OF p])
    also have "\<dots> = 2 powi (e + 1) * 2 powi (bitlen q - 1)" by (simp add: powi_add [symmetric] e_def)
    also have "\<dots> \<le> 2 powi (e + 1) * of_int q"
      using bitlen_powi(1) [OF q] by (intro mult_left_mono) (simp_all add: less_imp_le)
    finally show ?thesis using q by (simp add: x pos_divide_less_eq)
  qed
  have def: "ilog2 x = (if x < 2 powi e then e - 1 else e)"
    by (simp add: ilog2_def pq e_def)
  show "2 powi ilog2 x \<le> x" "x < 2 powi (ilog2 x + 1)"
    using lo hi by (auto simp: def)
qed

lemma ilog2_mono: "0 < x \<Longrightarrow> x \<le> y \<Longrightarrow> ilog2 x \<le> ilog2 y"
proof -
  assume "0 < x" "x \<le> y"
  then have "2 powi ilog2 x < (2::rat) powi (ilog2 y + 1)"
    using ilog2_bounds(1) [of x] ilog2_bounds(2) [of y] by linarith
  then show ?thesis by (simp add: powi_less_iff)
qed

lemma ilog2_less: "0 < x \<Longrightarrow> x < 2 powi e \<Longrightarrow> ilog2 x < e"
  using ilog2_bounds(1) [of x] powi_less_iff [of "ilog2 x" e] by linarith

section \<open>Rounding to binary64\<close>

text \<open>
  A finite binary64 number is \<open>m * 2 ^ e\<close> with \<open>\<bar>m\<bar> \<le> 2 ^ 53\<close> and \<open>e \<ge> -1074\<close>.
  \<open>fl\<close> rounds to the nearest multiple of the unit in the last place of its argument.
\<close>

definition ulp_exp :: "rat \<Rightarrow> int" where
  "ulp_exp x = max (ilog2 \<bar>x\<bar> - 52) (- 1074)"

definition fl :: "rat \<Rightarrow> rat" where
  "fl x = (if x = 0 then 0
           else of_int (round_half_even (x / 2 powi ulp_exp x)) * 2 powi ulp_exp x)"

definition is_f64 :: "rat \<Rightarrow> bool" where
  "is_f64 x \<longleftrightarrow> (\<exists>m e. x = of_int m * 2 powi e \<and> \<bar>m\<bar> \<le> 2 ^ 53 \<and> - 1074 \<le> e)"

lemma fl_0 [simp]: "fl 0 = 0"
  by (simp add: fl_def)

lemma ulp_exp_minus [simp]: "ulp_exp (- x) = ulp_exp x"
  by (simp add: ulp_exp_def)

lemma fl_minus: "fl (- x) = - fl x"
  by (simp add: fl_def round_half_even_minus)

lemma scaled_bound: "x \<noteq> 0 \<Longrightarrow> \<bar>x\<bar> / 2 powi ulp_exp x < 2 ^ 53"
proof -
  assume "x \<noteq> 0"
  then have "\<bar>x\<bar> < 2 powi (ilog2 \<bar>x\<bar> + 1)" by (intro ilog2_bounds(2)) simp
  also have "\<dots> \<le> 2 powi (53 + ulp_exp x)" by (intro powi_mono) (simp add: ulp_exp_def)
  also have "\<dots> = 2 ^ 53 * 2 powi ulp_exp x" by (simp add: powi_add)
  finally show ?thesis by (simp add: pos_divide_less_eq)
qed

lemma is_f64_fl: "is_f64 (fl x)"
proof (cases "x = 0")
  case True
  have "(0::rat) = of_int 0 * 2 powi 0" by simp
  then show ?thesis unfolding is_f64_def True fl_0 by (intro exI [of _ 0]) simp
next
  case False
  define y where "y = x / 2 powi ulp_exp x"
  have "\<bar>y\<bar> < 2 ^ 53" using scaled_bound [OF False] by (simp add: y_def abs_divide)
  then have "y \<le> of_int (2 ^ 53)" "of_int (- (2 ^ 53)) \<le> y" by (simp_all add: abs_less_iff)
  then have "round_half_even y \<le> 2 ^ 53" "- (2 ^ 53) \<le> round_half_even y"
    using round_half_even_mono round_half_even_of_int by metis+
  then show ?thesis
    unfolding is_f64_def fl_def y_def [symmetric] using False
    by (intro exI [of _ "round_half_even y"] exI [of _ "ulp_exp x"])
      (simp add: abs_le_iff ulp_exp_def)
qed

lemma fl_multiple:
  assumes x: "x = of_int m * 2 powi e" and e: "ulp_exp x \<le> e"
  shows "fl x = x"
proof (cases "x = 0")
  case False
  define k where "k = nat (e - ulp_exp x)"
  have "x / 2 powi ulp_exp x = of_int m * 2 powi (e - ulp_exp x)"
    by (simp add: x power_int_diff)
  also have "\<dots> = of_int (m * 2 ^ k)" using e by (simp add: k_def power_int_def)
  finally have scaled: "x / 2 powi ulp_exp x = of_int (m * 2 ^ k)" .
  have "round_half_even (x / 2 powi ulp_exp x) = m * 2 ^ k"
    unfolding scaled by (rule round_half_even_of_int)
  then have "fl x = x / 2 powi ulp_exp x * 2 powi ulp_exp x"
    using False by (simp add: fl_def scaled)
  then show ?thesis by simp
qed simp

lemma fl_exact: "is_f64 x \<Longrightarrow> fl x = x"
proof -
  assume "is_f64 x"
  then obtain m e where x: "x = of_int m * 2 powi e" and m: "\<bar>m\<bar> \<le> 2 ^ 53" and e: "- 1074 \<le> e"
    by (auto simp: is_f64_def)
  show ?thesis
  proof (cases "x = 0")
    case False
    show ?thesis
    proof (cases "\<bar>m\<bar> = 2 ^ 53")
      case True
      then have "\<bar>x\<bar> = 2 powi (53 + e)" by (simp add: x abs_mult powi_add flip: of_int_abs)
      then have "ilog2 \<bar>x\<bar> < 53 + e + 1" by (intro ilog2_less) (simp_all add: powi_less_iff)
      then have "ulp_exp x \<le> e + 1" using e by (simp add: ulp_exp_def)
      moreover have "x = of_int (sgn m * 2 ^ 52) * 2 powi (e + 1)"
        using True by (simp add: x powi_add sgn_if abs_if split: if_splits)
      ultimately show ?thesis by (intro fl_multiple)
    next
      case small: False
      have "\<bar>x\<bar> = of_int \<bar>m\<bar> * 2 powi e" by (simp add: x abs_mult)
      also have "\<dots> < 2 ^ 53 * 2 powi e"
        using small m by (intro mult_strict_right_mono) (simp_all add: less_le flip: of_int_abs, linarith?)
      also have "\<dots> = 2 powi (53 + e)" by (simp add: powi_add)
      finally have "ilog2 \<bar>x\<bar> < 53 + e" using False by (intro ilog2_less) simp_all
      then show ?thesis using e by (intro fl_multiple [OF x]) (auto simp: ulp_exp_def)
    qed
  qed simp
qed

lemma fl_nonneg: "0 \<le> x \<Longrightarrow> 0 \<le> fl x"
proof -
  assume "0 \<le> x"
  then have "0 \<le> round_half_even (x / 2 powi ulp_exp x)"
    using round_half_even_mono [of 0 "x / 2 powi ulp_exp x"] by (simp add: less_imp_le)
  then show ?thesis by (simp add: fl_def less_imp_le)
qed

lemma fl_mono_pos:
  assumes "0 < x" "x \<le> y"
  shows "fl x \<le> fl y"
proof -
  have "ulp_exp x \<le> ulp_exp y" using ilog2_mono [OF assms] assms by (simp add: ulp_exp_def)
  then consider (same) "ulp_exp x = ulp_exp y" | (above) "ulp_exp x < ulp_exp y" by linarith
  then show ?thesis
  proof cases
    case same
    have "x / 2 powi ulp_exp y \<le> y / 2 powi ulp_exp y"
      using assms by (intro divide_right_mono) (simp_all add: less_imp_le)
    with same assms show ?thesis by (simp add: fl_def round_half_even_mono less_imp_le)
  next
    case above
    then have uy: "ulp_exp y = ilog2 y - 52" using assms by (simp add: ulp_exp_def) linarith
    have "x / 2 powi ulp_exp x \<le> of_int (2 ^ 53)" using scaled_bound [of x] assms by simp
    then have "round_half_even (x / 2 powi ulp_exp x) \<le> 2 ^ 53"
      using round_half_even_mono round_half_even_of_int by metis
    then have "of_int (round_half_even (x / 2 powi ulp_exp x)) \<le> (of_int (2 ^ 53) :: rat)"
      by (simp only: of_int_le_iff)
    then have "fl x \<le> 2 ^ 53 * 2 powi ulp_exp x"
      using assms by (simp add: fl_def mult_right_mono less_imp_le)
    also have "\<dots> = 2 powi (53 + ulp_exp x)" by (simp add: powi_add)
    also have "\<dots> \<le> 2 powi (52 + ulp_exp y)" using above by (intro powi_mono) simp
    also have "\<dots> = 2 ^ 52 * 2 powi ulp_exp y" by (simp add: powi_add)
    also have "\<dots> \<le> fl y"
    proof -
      have "2 powi (52 + ulp_exp y) \<le> y" using ilog2_bounds(1) [of y] assms uy by simp
      then have "of_int (2 ^ 52) \<le> y / 2 powi ulp_exp y"
        by (simp add: pos_le_divide_eq powi_add)
      then have "2 ^ 52 \<le> round_half_even (y / 2 powi ulp_exp y)"
        using round_half_even_mono round_half_even_of_int by metis
      then have "(of_int (2 ^ 52) :: rat) \<le> of_int (round_half_even (y / 2 powi ulp_exp y))"
        by (simp only: of_int_le_iff)
      then show ?thesis using assms by (simp add: fl_def mult_right_mono less_imp_le)
    qed
    finally show ?thesis .
  qed
qed

lemma fl_mono: "x \<le> y \<Longrightarrow> fl x \<le> fl y"
proof -
  assume le: "x \<le> y"
  consider "0 < x" | "x \<le> 0" "0 \<le> y" | "y < 0" by linarith
  then show ?thesis
  proof cases
    case 1
    with le show ?thesis by (rule fl_mono_pos [rotated])
  next
    case 2
    have "0 \<le> fl (- x)" "0 \<le> fl y" using 2 by (simp_all add: fl_nonneg)
    then show ?thesis by (simp add: fl_minus)
  next
    case 3
    with le have "fl (- y) \<le> fl (- x)" by (intro fl_mono_pos) simp_all
    then show ?thesis by (simp add: fl_minus)
  qed
qed

lemma is_f64_of_int: "\<bar>n\<bar> \<le> 2 ^ 53 \<Longrightarrow> is_f64 (of_int n)"
  unfolding is_f64_def by (intro exI [of _ n] exI [of _ 0]) simp

lemma is_f64_minus: "is_f64 x \<Longrightarrow> is_f64 (- x)"
proof -
  assume "is_f64 x"
  then obtain m e where "x = of_int m * 2 powi e" "\<bar>m\<bar> \<le> 2 ^ 53" "- 1074 \<le> e"
    unfolding is_f64_def by blast
  then show ?thesis
    unfolding is_f64_def by (intro exI [of _ "- m"] exI [of _ e]) simp
qed

lemma ilog2_powi [simp]: "ilog2 (2 powi e) = e"
proof -
  have "ilog2 (2 powi e) < e + 1" by (rule ilog2_less) (simp_all add: powi_less_iff)
  moreover have "(2::rat) powi e < 2 powi (ilog2 (2 powi e) + 1)" by (rule ilog2_bounds(2)) simp
  then have "e < ilog2 (2 powi e) + 1" by (simp add: powi_less_iff)
  ultimately show ?thesis by linarith
qed

lemma fl_powi: "- 1074 \<le> e \<Longrightarrow> fl (2 powi e) = 2 powi e"
  by (rule fl_multiple [of _ 1 e]) (simp_all add: ulp_exp_def abs_of_pos)

text \<open>Subtraction of two floats never underflows to zero.\<close>

lemma f64_multiple: "is_f64 x \<Longrightarrow> \<exists>n. x = of_int n * 2 powi (- 1074)"
proof -
  assume "is_f64 x"
  then obtain m e where x: "x = of_int m * 2 powi e" and e: "- 1074 \<le> e"
    by (auto simp: is_f64_def)
  have "2 powi e = (2::rat) ^ nat (e + 1074) * 2 powi (- 1074)"
    using e powi_add [of "e + 1074" "- 1074"] by (simp add: power_int_def)
  then have "x = of_int (m * 2 ^ nat (e + 1074)) * 2 powi (- 1074)" by (simp add: x)
  then show ?thesis by blast
qed

lemma fl_diff_pos:
  assumes "is_f64 x" "is_f64 y" "y < x"
  shows "0 < fl (x - y)"
proof -
  obtain m n where mn: "x = of_int m * 2 powi (- 1074)" "y = of_int n * 2 powi (- 1074)"
    using f64_multiple assms(1,2) by metis
  have "n < m" using assms(3) by (simp add: mn mult_less_cancel_right)
  have "(2::rat) powi (- 1074) = of_int 1 * 2 powi (- 1074)" by simp
  also have "\<dots> \<le> of_int (m - n) * 2 powi (- 1074)"
    using \<open>n < m\<close> by (intro mult_right_mono) (simp_all only: of_int_le_iff, simp_all add: less_imp_le)
  also have "\<dots> = x - y" by (simp add: mn left_diff_distrib)
  finally have "fl (2 powi (- 1074)) \<le> fl (x - y)" by (rule fl_mono)
  moreover have "fl (2 powi (- 1074)) = 2 powi (- 1074)"
    by (rule fl_powi) simp
  ultimately show ?thesis using powi_pos [of "- 1074"] by linarith
qed

lemma f64_pred: "is_f64 x \<Longrightarrow> 1 \<le> x \<Longrightarrow> x \<le> 2 ^ 53 \<Longrightarrow> is_f64 (x - 1)"
proof -
  assume f: "is_f64 x" and x: "1 \<le> x" "x \<le> 2 ^ 53"
  from f obtain m e where me: "x = of_int m * 2 powi e" "\<bar>m\<bar> \<le> 2 ^ 53" "- 1074 \<le> e"
    unfolding is_f64_def by blast
  show ?thesis
  proof (cases "0 \<le> e")
    case True
    then have int: "x = of_int (m * 2 ^ nat e)" by (simp add: me(1) power_int_def)
    define n where "n = m * 2 ^ nat e"
    have "(of_int n :: rat) \<le> of_int (2 ^ 53)" "(of_int 1 :: rat) \<le> of_int n"
      using x int by (simp_all add: n_def)
    then have "\<bar>n - 1\<bar> \<le> 2 ^ 53" by (simp only: of_int_le_iff)
    then have "is_f64 (of_int (n - 1))" by (rule is_f64_of_int)
    then show ?thesis using int by (simp add: n_def)
  next
    case False
    define k where "k = (2::int) ^ nat (- e)"
    have "(1::rat) = of_int k * 2 powi e"
      using False by (simp add: k_def power_int_def field_simps)
    then have eq: "x - 1 = of_int (m - k) * 2 powi e" by (simp add: me(1) algebra_simps)
    have "0 \<le> of_int (m - k) * (2::rat) powi e" using x eq by simp
    then have "k \<le> m" using powi_pos [of e] by (auto simp: zero_le_mult_iff)
    moreover have "0 \<le> k" by (simp add: k_def)
    ultimately have "\<bar>m - k\<bar> \<le> 2 ^ 53" using me(2) by linarith
    with eq me(3) show ?thesis unfolding is_f64_def by blast
  qed
qed

section \<open>The interface the process model relies on\<close>

text \<open>
  What a client of float arithmetic uses of rounding: it is monotone, it returns
  representable numbers, and it leaves representable numbers alone.
\<close>

locale rounding =
  fixes rnd :: "rat \<Rightarrow> rat" and repr :: "rat \<Rightarrow> bool"
  assumes rnd_mono: "x \<le> y \<Longrightarrow> rnd x \<le> rnd y"
    and rnd_repr: "repr (rnd x)"
    and rnd_exact: "repr x \<Longrightarrow> rnd x = x"
    and repr_0: "repr 0"
    and repr_1: "repr 1"
begin

lemma rnd_ge: "repr b \<Longrightarrow> b \<le> x \<Longrightarrow> b \<le> rnd x"
  using rnd_mono [of b x] rnd_exact [of b] by simp

lemma rnd_le: "repr b \<Longrightarrow> x \<le> b \<Longrightarrow> rnd x \<le> b"
  using rnd_mono [of x b] rnd_exact [of b] by simp

lemma rnd_nonneg: "0 \<le> x \<Longrightarrow> 0 \<le> rnd x"
  by (rule rnd_ge [OF repr_0])

lemma rnd_nonpos: "x \<le> 0 \<Longrightarrow> rnd x \<le> 0"
  by (rule rnd_le [OF repr_0])

lemma rnd_fraction:
  assumes "0 \<le> x" "x \<le> b" "0 < b"
  shows "0 \<le> rnd (x / b)" "rnd (x / b) \<le> 1"
  using assms by (auto intro!: rnd_nonneg rnd_le [OF repr_1])

lemma rnd_scaled:
  assumes "repr m" "0 \<le> m" "0 \<le> f" "f \<le> 1"
  shows "0 \<le> rnd (m * f)" "rnd (m * f) \<le> m"
  using assms by (auto intro!: rnd_nonneg rnd_le mult_left_le)

lemma rnd_countdown:
  assumes "repr r" "0 \<le> r" "0 \<le> s"
  shows "0 \<le> max 0 (rnd (r - s))" "max 0 (rnd (r - s)) \<le> r" "repr (max 0 (rnd (r - s)))"
  using assms rnd_le [of r "r - s"] rnd_repr repr_0 by (auto simp: max_def)

lemma rnd_clamp:
  assumes "repr b" "0 \<le> b"
  shows "0 \<le> min b (max 0 (rnd x))" "min b (max 0 (rnd x)) \<le> b" "repr (min b (max 0 (rnd x)))"
  using assms rnd_repr repr_0 by (auto simp: max_def min_def)

end

interpretation f64: rounding fl is_f64
proof unfold_locales
  show "is_f64 0" "is_f64 1" using is_f64_of_int [of 0] is_f64_of_int [of 1] by simp_all
qed (auto intro: fl_mono is_f64_fl fl_exact)

section \<open>Float operations of the sources\<close>

text \<open>
  \<open>x // y\<close> on floats, for \<open>0 \<le> x\<close> and \<open>0 < y\<close>, as the interpreter computes it: the exact
  remainder is subtracted, the quotient is rounded, and its floor is corrected.
\<close>

definition float_floordiv :: "rat \<Rightarrow> rat \<Rightarrow> int" where
  "float_floordiv x y =
     (let r = x - y * of_int \<lfloor>x / y\<rfloor>; d = fl (fl (x - r) / y)
      in if 1/2 < fl (d - of_int \<lfloor>d\<rfloor>) then \<lfloor>d\<rfloor> + 1 else \<lfloor>d\<rfloor>)"

lemma round_half_even_nonneg: "0 \<le> x \<Longrightarrow> 0 \<le> round_half_even x"
  using round_half_even_mono [of 0 x] by simp

lemma round_half_even_le: "x \<le> of_int n \<Longrightarrow> round_half_even x \<le> n"
  using round_half_even_mono [of x "of_int n"] by simp

end
