(* ===== verification/PyValue.thy ===== *)
theory PyValue
  imports Float64 "HOL-Library.List_Lexorder" "HOL-Library.Char_ord"
begin

text \<open>
  The dynamic values the sources handle: what \<open>json.load\<close> returns and what a caller may pass.
  The built-in conversions \<open>int()\<close>, \<open>float()\<close>, \<open>bool()\<close> and \<open>str()\<close>, subscription, \<open>.get\<close>
  and numeric comparison are functions with the exceptions they raise.  Text is a list of
  ASCII characters; \<open>NotModelled\<close> stands for conversions between text and floats or
  containers, which no path of a validated document takes.
\<close>

section \<open>Floats with their special values\<close>

datatype pyfloat = Fin rat | PInf | NInf | NaN

instantiation pyfloat :: ord
begin

fun less_eq_pyfloat :: "pyfloat \<Rightarrow> pyfloat \<Rightarrow> bool" where
  "less_eq_pyfloat (Fin x) (Fin y) = (x \<le> y)"
| "less_eq_pyfloat NaN _ = False"
| "less_eq_pyfloat _ NaN = False"
| "less_eq_pyfloat NInf _ = True"
| "less_eq_pyfloat _ PInf = True"
| "less_eq_pyfloat _ _ = False"

fun less_pyfloat :: "pyfloat \<Rightarrow> pyfloat \<Rightarrow> bool" where
  "less_pyfloat (Fin x) (Fin y) = (x < y)"
| "less_pyfloat NaN _ = False"
| "less_pyfloat _ NaN = False"
| "less_pyfloat NInf y = (y \<noteq> NInf)"
| "less_pyfloat x PInf = (x \<noteq> PInf)"
| "less_pyfloat _ _ = False"

instance ..

end

section \<open>Values\<close>

datatype pyval =
    PNone
  | PBool bool
  | PInt int
  | PFloat pyfloat
  | PStr string
  | PList "pyval list"
  | PDict "(string \<times> pyval) list"

text \<open>\<open>isinstance\<close> tests; a bool is an int.\<close>

fun is_int :: "pyval \<Rightarrow> bool" where
  "is_int (PInt _) = True"
| "is_int (PBool _) = True"
| "is_int _ = False"

fun is_bool :: "pyval \<Rightarrow> bool" where
  "is_bool (PBool _) = True"
| "is_bool _ = False"

fun is_str :: "pyval \<Rightarrow> bool" where
  "is_str (PStr _) = True"
| "is_str _ = False"

fun is_number :: "pyval \<Rightarrow> bool" where
  "is_number (PFloat _) = True"
| "is_number v = is_int v"

text \<open>The exact value of a number; ints and floats compare by their exact values.\<close>

fun number :: "pyval \<Rightarrow> pyfloat" where
  "number (PInt i) = Fin (of_int i)"
| "number (PBool b) = Fin (of_bool b)"
| "number (PFloat x) = x"
| "number _ = NaN"

definition py_le :: "pyval \<Rightarrow> pyval \<Rightarrow> bool result" where
  "py_le a b =
     (if is_number a \<and> is_number b then Inr (number a \<le> number b)
      else case (a, b) of
        (PStr s, PStr t) \<Rightarrow> Inr (s \<le> t)
      | (PList _, PList _) \<Rightarrow> Inl NotModelled
      | _ \<Rightarrow> Inl TypeError)"

lemma py_le_numbers [simp]: "is_number a \<Longrightarrow> is_number b \<Longrightarrow> py_le a b = Inr (number a \<le> number b)"
  by (simp add: py_le_def)

lemma py_le_PInt [simp]: "py_le (PInt i) (PInt j) = Inr (i \<le> j)"
  by (simp add: py_le_def)

section \<open>Conversions\<close>

fun truthy :: "pyval \<Rightarrow> bool" where
  "truthy PNone = False"
| "truthy (PBool b) = b"
| "truthy (PInt i) = (i \<noteq> 0)"
| "truthy (PFloat x) = (x \<noteq> Fin 0)"
| "truthy (PStr s) = (s \<noteq> [])"
| "truthy (PList xs) = (xs \<noteq> [])"
| "truthy (PDict d) = (d \<noteq> [])"

definition py_trunc :: "rat \<Rightarrow> int" where
  "py_trunc x = (if 0 \<le> x then \<lfloor>x\<rfloor> else \<lceil>x\<rceil>)"

fun py_int :: "pyval \<Rightarrow> int result" where
  "py_int (PInt i) = Inr i"
| "py_int (PBool b) = Inr (of_bool b)"
| "py_int (PFloat (Fin x)) = Inr (py_trunc x)"
| "py_int (PFloat NaN) = Inl (ValueError ''cannot convert float NaN to integer'')"
| "py_int (PFloat _) = Inl OverflowError"
| "py_int (PStr _) = Inl NotModelled"
| "py_int _ = Inl TypeError"

definition float_of_int :: "int \<Rightarrow> rat result" where
  "float_of_int i = (if 2 ^ 1024 \<le> \<bar>fl (of_int i)\<bar> then Inl OverflowError else Inr (fl (of_int i)))"

fun py_float :: "pyval \<Rightarrow> pyfloat result" where
  "py_float (PInt i) = bindE (float_of_int i) (\<lambda>x. Inr (Fin x))"
| "py_float (PBool b) = Inr (Fin (of_bool b))"
| "py_float (PFloat x) = Inr x"
| "py_float (PStr _) = Inl NotModelled"
| "py_float _ = Inl TypeError"

lemma float_of_int_small: "\<bar>i\<bar> \<le> 2 ^ 53 \<Longrightarrow> float_of_int i = Inr (of_int i)"
proof -
  assume i: "\<bar>i\<bar> \<le> 2 ^ 53"
  then have eq: "fl (of_int i) = of_int i" by (intro fl_exact is_f64_of_int)
  have "(2::int) ^ 53 < 2 ^ 1024" by simp
  with i have "\<bar>i\<bar> < 2 ^ 1024" by linarith
  then have "of_int \<bar>i\<bar> < (of_int (2 ^ 1024) :: rat)" by (simp only: of_int_less_iff)
  then have "\<not> 2 ^ 1024 \<le> \<bar>of_int i :: rat\<bar>" by simp
  with eq show ?thesis by (simp only: float_of_int_def if_False)
qed

text \<open>Decimal text of an integer, as \<open>str(i)\<close> and f-strings print it.\<close>

definition digit :: "nat \<Rightarrow> char" where
  "digit d = char_of (48 + d)"

fun show_nat :: "nat \<Rightarrow> string" where
  "show_nat n = (if n < 10 then [digit n] else show_nat (n div 10) @ [digit (n mod 10)])"

declare show_nat.simps [simp del]

definition show_int :: "int \<Rightarrow> string" where
  "show_int i = (if i < 0 then CHR ''-'' # show_nat (nat (- i)) else show_nat (nat i))"

fun py_str :: "pyval \<Rightarrow> string result" where
  "py_str (PStr s) = Inr s"
| "py_str (PInt i) = Inr (show_int i)"
| "py_str (PBool b) = Inr (if b then ''True'' else ''False'')"
| "py_str PNone = Inr ''None''"
| "py_str _ = Inl NotModelled"

text \<open>Printing is injective: two different integers never print alike.\<close>

definition digit_value :: "char \<Rightarrow> nat" where
  "digit_value c = of_char c - 48"

lemma digit_value_digit: "d < 10 \<Longrightarrow> digit_value (digit d) = d"
  by (simp add: digit_value_def digit_def)

lemma digit_neq_minus: "d < 10 \<Longrightarrow> digit d \<noteq> CHR ''-''"
proof
  assume "d < 10" "digit d = CHR ''-''"
  then have "of_char (digit d) = (45::nat)" by simp
  with \<open>d < 10\<close> show False by (simp add: digit_def)
qed

lemma foldl_show_nat: "foldl (\<lambda>n c. 10 * n + digit_value c) 0 (show_nat n) = n"
proof (induction n rule: show_nat.induct)
  case (1 n)
  show ?case
  proof (cases "n < 10")
    case True
    then show ?thesis by (simp add: show_nat.simps [of n] digit_value_digit)
  next
    case False
    with 1 show ?thesis by (simp add: show_nat.simps [of n] digit_value_digit)
  qed
qed

lemma show_nat_inj: "show_nat m = show_nat n \<Longrightarrow> m = n"
  by (metis foldl_show_nat)

lemma show_nat_digits: "c \<in> set (show_nat n) \<Longrightarrow> \<exists>d < 10. c = digit d"
proof (induction n rule: show_nat.induct)
  case (1 n)
  have last: "\<exists>d < 10. digit (n mod 10) = digit d" by (rule exI [of _ "n mod 10"]) simp
  show ?case
  proof (cases "n < 10")
    case True
    with 1 show ?thesis by (auto simp: show_nat.simps [of n])
  next
    case False
    with 1 have "c \<in> set (show_nat (n div 10)) \<or> c = digit (n mod 10)"
      by (auto simp: show_nat.simps [of n])
    with 1 False last show ?thesis by blast
  qed
qed

lemma show_nat_nonempty: "show_nat n \<noteq> []"
  by (subst show_nat.simps) simp

lemma show_int_inj: "show_int i = show_int j \<Longrightarrow> i = j"
proof -
  have no_minus: "show_nat n \<noteq> CHR ''-'' # s" for n s
  proof
    assume "show_nat n = CHR ''-'' # s"
    then have "CHR ''-'' \<in> set (show_nat n)" by simp
    then show False using show_nat_digits digit_neq_minus by metis
  qed
  assume "show_int i = show_int j"
  then show ?thesis
    using no_minus no_minus [THEN not_sym]
    by (auto simp: show_int_def dest!: show_nat_inj split: if_splits)
qed

section \<open>Subscription\<close>

fun py_getitem :: "pyval \<Rightarrow> string \<Rightarrow> pyval result" where
  "py_getitem (PDict d) k = (case map_of d k of Some v \<Rightarrow> Inr v | None \<Rightarrow> Inl (KeyError k))"
| "py_getitem _ k = Inl TypeError"

fun py_get :: "pyval \<Rightarrow> string \<Rightarrow> pyval \<Rightarrow> pyval result" where
  "py_get (PDict d) k dflt = (case map_of d k of Some v \<Rightarrow> Inr v | None \<Rightarrow> Inr dflt)"
| "py_get _ k dflt = Inl AttributeError"

text \<open>Iteration: a list yields its elements, a dict its keys, a string its characters.\<close>

fun py_iter :: "pyval \<Rightarrow> pyval list result" where
  "py_iter (PList xs) = Inr xs"
| "py_iter (PDict d) = Inr (map (PStr \<circ> fst) d)"
| "py_iter (PStr s) = Inr (map (\<lambda>c. PStr [c]) s)"
| "py_iter _ = Inl TypeError"

end
