(* ===== verification/Register_Map.thy ===== *)
theory Register_Map
  imports PyValue
begin

text \<open>
  \<open>register_map.py\<close>: the typed register definitions, the lookup indexes built from the
  manifest document, and the lookups.  The document itself is a Python value as
  \<open>json.load\<close> returns it; reading the file is not modelled.  The locale \<open>register_index\<close> is the
  contract the process model and the protocol adapter use.
\<close>

section \<open>Definitions of single registers\<close>

text \<open>The bounds and the default stay as the document has them.\<close>

record RegisterDefinition =
  key :: string
  area :: string
  address :: int
  reference :: int
  data_type :: string
  scale :: pyfloat
  unit_text :: string
  minimum :: pyval
  maximum :: pyval
  default_value :: pyval
  writable :: bool
  description :: string
  write_effect :: "string option"

definition from_dict :: "pyval \<Rightarrow> RegisterDefinition result" where
  "from_dict value =
     bindE (bindE (py_getitem value ''key'') py_str) (\<lambda>k.
     bindE (bindE (py_getitem value ''area'') py_str) (\<lambda>a.
     bindE (bindE (py_getitem value ''address'') py_int) (\<lambda>addr.
     bindE (bindE (py_getitem value ''reference'') py_int) (\<lambda>ref.
     bindE (bindE (py_getitem value ''data_type'') py_str) (\<lambda>dt.
     bindE (bindE (py_getitem value ''scale'') py_float) (\<lambda>sc.
     bindE (bindE (py_getitem value ''unit'') py_str) (\<lambda>u.
     bindE (py_getitem value ''minimum'') (\<lambda>mn.
     bindE (py_getitem value ''maximum'') (\<lambda>mx.
     bindE (py_getitem value ''default'') (\<lambda>df.
     bindE (py_getitem value ''writable'') (\<lambda>w.
     bindE (bindE (py_getitem value ''description'') py_str) (\<lambda>ds.
     bindE (py_get value ''write_effect'' PNone) (\<lambda>we.
     bindE (if truthy we
            then bindE (bindE (py_getitem value ''write_effect'') py_str) (\<lambda>s. Inr (Some s))
            else Inr None) (\<lambda>eff.
     Inr \<lparr>key = k, area = a, address = addr, reference = ref, data_type = dt, scale = sc,
          unit_text = u, minimum = mn, maximum = mx, default_value = df,
          writable = truthy w, description = ds, write_effect = eff\<rparr>))))))))))))))"

section \<open>The map and its indexes\<close>

record RegisterMap =
  document :: pyval
  definitions :: "RegisterDefinition list"
  by_key :: "(string \<times> RegisterDefinition) list"
  by_location :: "((string \<times> int) \<times> RegisterDefinition) list"

definition RegisterMap_init :: "pyval \<Rightarrow> RegisterMap result" where
  "RegisterMap_init doc =
     bindE (bindE (py_getitem doc ''registers'') py_iter) (\<lambda>items.
     bindE (mapE from_dict items) (\<lambda>defs.
     let bk = dict_of (map (\<lambda>item. (key item, item)) defs);
         bl = dict_of (map (\<lambda>item. ((area item, address item), item)) defs)
     in if length bk \<noteq> length defs \<or> length bl \<noteq> length defs
        then Inl (ValueError ''register map contains duplicate keys or locations'')
        else Inr \<lparr>document = doc, definitions = defs, by_key = bk, by_location = bl\<rparr>))"

definition unit_id :: "RegisterMap \<Rightarrow> int result" where
  "unit_id m = bindE (bindE (py_getitem (document m) ''device'') (\<lambda>d. py_getitem d ''unit_id'')) py_int"

definition map_version :: "RegisterMap \<Rightarrow> string result" where
  "map_version m = bindE (py_getitem (document m) ''map_version'') py_str"

definition for_area :: "RegisterMap \<Rightarrow> string \<Rightarrow> RegisterDefinition list" where
  "for_area m a = [item \<leftarrow> definitions m. area item = a]"

definition require_key :: "RegisterMap \<Rightarrow> string \<Rightarrow> RegisterDefinition result" where
  "require_key m k = (case map_of (by_key m) k of Some d \<Rightarrow> Inr d | None \<Rightarrow> Inl (KeyError k))"

definition require_location :: "RegisterMap \<Rightarrow> string \<Rightarrow> int \<Rightarrow> RegisterDefinition result" where
  "require_location m a n =
     (case map_of (by_location m) (a, n) of Some d \<Rightarrow> Inr d | None \<Rightarrow> Inl (KeyError a))"

section \<open>Well-formed maps\<close>

text \<open>What the constructor establishes.\<close>

definition wf_map :: "RegisterMap \<Rightarrow> bool" where
  "wf_map m \<longleftrightarrow>
     by_key m = map (\<lambda>d. (key d, d)) (definitions m) \<and>
     by_location m = map (\<lambda>d. ((area d, address d), d)) (definitions m) \<and>
     distinct (map key (definitions m)) \<and>
     distinct (map (\<lambda>d. (area d, address d)) (definitions m))"

lemma RegisterMap_init_cases:
  assumes "RegisterMap_init doc = Inr m"
  obtains items defs where
    "bindE (py_getitem doc ''registers'') py_iter = Inr items" "mapE from_dict items = Inr defs"
    "length (dict_of (map (\<lambda>item. (key item, item)) defs)) = length defs"
    "length (dict_of (map (\<lambda>item. ((area item, address item), item)) defs)) = length defs"
    "m = \<lparr>document = doc, definitions = defs,
      by_key = dict_of (map (\<lambda>item. (key item, item)) defs),
      by_location = dict_of (map (\<lambda>item. ((area item, address item), item)) defs)\<rparr>"
proof (cases "bindE (py_getitem doc ''registers'') py_iter")
  case (Inr items)
  show thesis
  proof (cases "mapE from_dict items")
    case (Inr defs)
    show thesis
      by (rule that [OF \<open>bindE _ _ = Inr items\<close> Inr])
        (use assms \<open>bindE _ _ = Inr items\<close> Inr in
          \<open>simp_all add: RegisterMap_init_def Let_def split: if_splits\<close>)
  qed (use assms Inr in \<open>simp add: RegisterMap_init_def\<close>)
qed (use assms in \<open>simp add: RegisterMap_init_def\<close>)

lemma RegisterMap_init_wf: "RegisterMap_init doc = Inr m \<Longrightarrow> wf_map m"
proof (elim RegisterMap_init_cases)
  fix items defs
  assume len: "length (dict_of (map (\<lambda>item. (key item, item)) defs)) = length defs"
      "length (dict_of (map (\<lambda>item. ((area item, address item), item)) defs)) = length defs"
    and m: "m = \<lparr>document = doc, definitions = defs,
      by_key = dict_of (map (\<lambda>item. (key item, item)) defs),
      by_location = dict_of (map (\<lambda>item. ((area item, address item), item)) defs)\<rparr>"
  have d: "distinct (map key defs)" "distinct (map (\<lambda>d. (area d, address d)) defs)"
    using len dict_of_length [of "map (\<lambda>item. (key item, item)) defs"]
      dict_of_length [of "map (\<lambda>item. ((area item, address item), item)) defs"]
    by (simp_all add: comp_def)
  show "wf_map m"
    unfolding wf_map_def m using d by (simp add: dict_of_fresh comp_def)
qed

lemma by_key_lookup:
  "wf_map m \<Longrightarrow> map_of (by_key m) k = Some d \<longleftrightarrow> d \<in> set (definitions m) \<and> key d = k"
  by (simp add: wf_map_def map_of_index)

lemma by_location_lookup:
  "wf_map m \<Longrightarrow> map_of (by_location m) (a, n) = Some d \<longleftrightarrow>
     d \<in> set (definitions m) \<and> area d = a \<and> address d = n"
  using map_of_index [of "\<lambda>d. (area d, address d)" "definitions m" "(a, n)" d]
  by (simp add: wf_map_def)

lemma require_key_Some: "require_key m k = Inr d \<longleftrightarrow> map_of (by_key m) k = Some d"
  by (simp add: require_key_def split: option.split)

lemma require_location_Some: "require_location m a n = Inr d \<longleftrightarrow> map_of (by_location m) (a, n) = Some d"
  by (simp add: require_location_def split: option.split)

lemma require_key_Inr:
  "wf_map m \<Longrightarrow> require_key m k = Inr d \<longleftrightarrow> d \<in> set (definitions m) \<and> key d = k"
  by (simp add: require_key_Some by_key_lookup)

lemma require_location_Inr:
  "wf_map m \<Longrightarrow> require_location m a n = Inr d \<longleftrightarrow>
     d \<in> set (definitions m) \<and> area d = a \<and> address d = n"
  by (simp add: require_location_Some by_location_lookup)

lemma wf_map_key_inj:
  "wf_map m \<Longrightarrow> d \<in> set (definitions m) \<Longrightarrow> d' \<in> set (definitions m) \<Longrightarrow> key d = key d' \<Longrightarrow> d = d'"
  by (simp add: wf_map_def distinct_map inj_on_def)

section \<open>The indexes meet their contract\<close>

interpretation key_index: register_index wf_map require_key "\<lambda>m. set (definitions m)" key
  by unfold_locales (rule require_key_Inr)

interpretation location_index: register_index wf_map "\<lambda>m (a, n). require_location m a n"
    "\<lambda>m. set (definitions m)" "\<lambda>d. (area d, address d)"
  by unfold_locales (auto simp: require_location_Inr)

end
