(* ===== verification/Float_Ops.thy ===== *)
theory Float_Ops
  imports PyValue
begin

text \<open>
  Float arithmetic with overflow: each operation is the exact one, rounded by \<open>fl\<close>, and an infinity
  when the rounded result is beyond the largest double.  \<open>round\<close> of an infinity or of a NaN raises.
  The sign of zero is not kept; nothing in the sources depends on it.
\<close>

definition nearest_float :: "rat \<Rightarrow> pyfloat" where
  "nearest_float x =
     (if 2 ^ 1024 \<le> \<bar>fl x\<bar> then if 0 < x then PInf else NInf else Fin (fl x))"

fun float_sign :: "pyfloat \<Rightarrow> rat" where
  "float_sign (Fin x) = sgn x"
| "float_sign PInf = 1"
| "float_sign NInf = - 1"
| "float_sign NaN = 0"

definition infinity :: "rat \<Rightarrow> pyfloat" where
  "infinity s = (if s = 0 then NaN else if 0 < s then PInf else NInf)"

fun float_add :: "pyfloat \<Rightarrow> pyfloat \<Rightarrow> pyfloat" where
  "float_add (Fin x) (Fin y) = nearest_float (x + y)"
| "float_add NaN b = NaN"
| "float_add a NaN = NaN"
| "float_add a (Fin y) = a"
| "float_add (Fin x) b = b"
| "float_add a b = (if a = b then a else NaN)"

fun float_neg :: "pyfloat \<Rightarrow> pyfloat" where
  "float_neg (Fin x) = Fin (- x)"
| "float_neg PInf = NInf"
| "float_neg NInf = PInf"
| "float_neg NaN = NaN"

definition float_sub :: "pyfloat \<Rightarrow> pyfloat \<Rightarrow> pyfloat" where
  "float_sub a b = float_add a (float_neg b)"

fun float_mul :: "pyfloat \<Rightarrow> pyfloat \<Rightarrow> pyfloat" where
  "float_mul (Fin x) (Fin y) = nearest_float (x * y)"
| "float_mul a b = infinity (float_sign a * float_sign b)"

text \<open>Division by zero raises, whatever is divided.\<close>

fun float_div :: "pyfloat \<Rightarrow> pyfloat \<Rightarrow> pyfloat result" where
  "float_div (Fin x) (Fin y) = (if y = 0 then Inl ZeroDivisionError else Inr (nearest_float (x / y)))"
| "float_div a (Fin y) = (if y = 0 then Inl ZeroDivisionError else Inr (infinity (float_sign a * sgn y)))"
| "float_div (Fin x) NaN = Inr NaN"
| "float_div (Fin x) b = Inr (Fin 0)"
| "float_div a b = Inr NaN"

fun py_round :: "pyfloat \<Rightarrow> int result" where
  "py_round (Fin x) = Inr (round_half_even x)"
| "py_round NaN = Inl (ValueError ''cannot convert float NaN to integer'')"
| "py_round _ = Inl OverflowError"

section \<open>Results in range\<close>

lemma fl_abs_le: "is_f64 b \<Longrightarrow> \<bar>x\<bar> \<le> b \<Longrightarrow> \<bar>fl x\<bar> \<le> b"
  using f64.rnd_le [of b x] f64.rnd_ge [of "- b" x] is_f64_minus [of b] by (auto simp: abs_le_iff)

lemma is_f64_power: "is_f64 (2 ^ n)"
  using is_f64_fl [of "2 powi int n"] fl_powi [of "int n"] by simp

lemma nearest_in_range:
  assumes "\<bar>x\<bar> \<le> 2 ^ 1023"
  shows "nearest_float x = Fin (fl x)"
proof -
  have "\<bar>fl x\<bar> \<le> 2 ^ 1023" by (rule fl_abs_le [OF is_f64_power assms])
  also have "(2 :: rat) ^ 1023 < 2 ^ 1024" by (rule power_strict_increasing) simp_all
  finally show ?thesis by (simp add: nearest_float_def)
qed

end
