(* ===== verification/Wet_Well.thy ===== *)
theory Wet_Well
  imports Register_Map Float_Ops
begin

text \<open>
  \<open>model.py\<close>: the wet-well process.  The object is one record; \<open>reset\<close>, \<open>write_raw\<close>, \<open>tick\<close>
  and \<open>snapshot_raw\<close> follow the methods statement by statement, with every exception as a
  value and every float operation rounded by \<open>fl\<close>; where a product can overflow it is one of
  \<open>Float_Ops\<close>.  The re-entrant lock serialises the methods, so each is one step here.  This theory
  holds the definitions; the lemmas are in \<open>Wet_Well_Props\<close>.
\<close>

section \<open>State\<close>

datatype raw = RInt int | RBool bool

fun raw_int :: "raw \<Rightarrow> int" where
  "raw_int (RInt i) = i"
| "raw_int (RBool b) = of_bool b"

fun raw_bool :: "raw \<Rightarrow> bool" where
  "raw_bool (RInt i) = (i \<noteq> 0)"
| "raw_bool (RBool b) = b"

record WriteTransition =
  key_written :: string
  old_raw :: raw
  requested_raw :: raw
  stored_raw :: raw
  effect_text :: "string option"

record WetWellProcess =
  register_map :: RegisterMap
  capacity_liters :: rat
  max_pump_flow_lps :: rat
  nominal_inlet_flow_lps :: rat
  auto_hysteresis_raw :: int
  actuator_delay_seconds :: rat
  elapsed_seconds :: rat
  level_raw :: rat
  level_setpoint :: int
  control_mode :: int
  pump_speed_setpoint :: int
  pump_start_count :: int
  pump_command :: bool
  inlet_valve_command :: bool
  alarm_acknowledge :: bool
  pump_feedback :: bool
  inlet_valve_feedback :: bool
  pump_fault :: bool
  pump_target :: bool
  valve_target :: bool
  pump_delay_remaining :: rat
  valve_delay_remaining :: rat
  high_level_alarm :: bool
  low_level_alarm :: bool
  high_alarm_acknowledged :: bool
  low_alarm_acknowledged :: bool
  inlet_flow_raw :: int
  outlet_flow_raw :: int
  pump_current_raw :: int
  process_temperature_raw :: int

section \<open>Construction and reset\<close>

text \<open>
  A non-finite float in the document would flow through the arithmetic; the model covers
  finite ones.
\<close>

definition finite_float :: "pyval \<Rightarrow> rat result" where
  "finite_float v = bindE (py_float v) (\<lambda>x. case x of Fin r \<Rightarrow> Inr r | _ \<Rightarrow> Inl NotModelled)"

definition default_of :: "RegisterMap \<Rightarrow> string \<Rightarrow> pyval result" where
  "default_of m k =
     (case map_of (dict_of (map (\<lambda>item. (key item, default_value item)) (definitions m))) k of
        Some v \<Rightarrow> Inr v | None \<Rightarrow> Inl (KeyError k))"

text \<open>
  \<open>reset\<close> reads only the immutable map, so it either always raises or never does; the
  constructor calls it, hence a constructed process never sees it raise half way.
\<close>

definition reset :: "WetWellProcess \<Rightarrow> WetWellProcess result" where
  "reset s =
     (let df = default_of (register_map s);
          int_of = (\<lambda>k. bindE (df k) py_int);
          bool_of = (\<lambda>k. bindE (df k) (\<lambda>v. Inr (truthy v)))
      in
     bindE (bindE (df ''tank_level_pv'') finite_float) (\<lambda>level.
     bindE (int_of ''level_setpoint'') (\<lambda>sp.
     bindE (int_of ''control_mode'') (\<lambda>mode.
     bindE (int_of ''pump_speed_setpoint'') (\<lambda>speed.
     bindE (int_of ''pump_start_count'') (\<lambda>starts.
     bindE (bool_of ''pump_command'') (\<lambda>pcmd.
     bindE (bool_of ''inlet_valve_command'') (\<lambda>vcmd.
     bindE (bool_of ''pump_feedback'') (\<lambda>pfb.
     bindE (bool_of ''inlet_valve_feedback'') (\<lambda>vfb.
     bindE (bool_of ''pump_fault'') (\<lambda>fault.
     bindE (int_of ''inlet_flow_pv'') (\<lambda>inflow.
     bindE (int_of ''outlet_flow_pv'') (\<lambda>outflow.
     bindE (int_of ''pump_current_pv'') (\<lambda>current.
     bindE (int_of ''process_temperature_pv'') (\<lambda>temp.
     Inr (s\<lparr>elapsed_seconds := 0, level_raw := level, level_setpoint := sp, control_mode := mode,
            pump_speed_setpoint := speed, pump_start_count := starts,
            pump_command := pcmd, inlet_valve_command := vcmd, alarm_acknowledge := False,
            pump_feedback := pfb, inlet_valve_feedback := vfb, pump_fault := fault,
            pump_target := pfb, valve_target := vfb,
            pump_delay_remaining := 0, valve_delay_remaining := 0,
            high_level_alarm := False, low_level_alarm := False,
            high_alarm_acknowledged := False, low_alarm_acknowledged := False,
            inlet_flow_raw := inflow, outlet_flow_raw := outflow, pump_current_raw := current,
            process_temperature_raw := temp\<rparr>))))))))))))))))"

text \<open>The attributes before \<open>reset\<close> assigns them do not matter; zeros stand for them.\<close>

definition blank_process :: "RegisterMap \<Rightarrow> rat \<Rightarrow> rat \<Rightarrow> rat \<Rightarrow> int \<Rightarrow> rat \<Rightarrow> WetWellProcess" where
  "blank_process m cap mx nom hyst delay = \<lparr>
     register_map = m, capacity_liters = cap, max_pump_flow_lps = mx, nominal_inlet_flow_lps = nom,
     auto_hysteresis_raw = hyst, actuator_delay_seconds = delay, elapsed_seconds = 0, level_raw = 0,
     level_setpoint = 0, control_mode = 0, pump_speed_setpoint = 0, pump_start_count = 0,
     pump_command = False, inlet_valve_command = False, alarm_acknowledge = False,
     pump_feedback = False, inlet_valve_feedback = False, pump_fault = False, pump_target = False,
     valve_target = False, pump_delay_remaining = 0, valve_delay_remaining = 0,
     high_level_alarm = False, low_level_alarm = False, high_alarm_acknowledged = False,
     low_alarm_acknowledged = False, inlet_flow_raw = 0, outlet_flow_raw = 0,
     pump_current_raw = 0, process_temperature_raw = 0\<rparr>"

definition WetWellProcess_init :: "RegisterMap \<Rightarrow> WetWellProcess result" where
  "WetWellProcess_init m =
     bindE (py_getitem (document m) ''process'') (\<lambda>process.
     bindE (bindE (py_getitem process ''capacity_liters'') finite_float) (\<lambda>cap.
     bindE (bindE (py_getitem process ''max_pump_flow_lps'') finite_float) (\<lambda>mx.
     bindE (bindE (py_getitem process ''nominal_inlet_flow_lps'') finite_float) (\<lambda>nom.
     bindE (bindE (py_getitem process ''auto_hysteresis_raw'') py_int) (\<lambda>hyst.
     bindE (bindE (py_getitem process ''actuator_delay_seconds'') finite_float) (\<lambda>delay.
     reset (blank_process m cap mx nom hyst delay)))))))"

section \<open>Snapshots\<close>

definition int_default :: "RegisterMap \<Rightarrow> string \<Rightarrow> int result" where
  "int_default m k = bindE (require_key m k) (\<lambda>d. py_int (default_value d))"

definition snapshot_values :: "WetWellProcess \<Rightarrow> int \<Rightarrow> int \<Rightarrow> int \<Rightarrow> (string \<times> raw) list" where
  "snapshot_values s high low firmware = [
     (''tank_level_pv'', RInt (round_half_even (level_raw s))),
     (''inlet_flow_pv'', RInt (inlet_flow_raw s)),
     (''outlet_flow_pv'', RInt (outlet_flow_raw s)),
     (''pump_current_pv'', RInt (pump_current_raw s)),
     (''process_temperature_pv'', RInt (process_temperature_raw s)),
     (''level_setpoint'', RInt (level_setpoint s)),
     (''high_alarm_limit'', RInt high),
     (''low_alarm_limit'', RInt low),
     (''pump_start_count'', RInt (pump_start_count s)),
     (''control_mode'', RInt (control_mode s)),
     (''pump_speed_setpoint'', RInt (pump_speed_setpoint s)),
     (''firmware_major_minor'', RInt firmware),
     (''pump_command'', RBool (pump_command s)),
     (''inlet_valve_command'', RBool (inlet_valve_command s)),
     (''alarm_acknowledge'', RBool (alarm_acknowledge s)),
     (''pump_feedback'', RBool (pump_feedback s)),
     (''inlet_valve_feedback'', RBool (inlet_valve_feedback s)),
     (''high_level_alarm'', RBool (high_level_alarm s)),
     (''low_level_alarm'', RBool (low_level_alarm s)),
     (''pump_fault'', RBool (pump_fault s)),
     (''auto_control_active'', RBool (control_mode s = 1))]"

definition snapshot_raw :: "WetWellProcess \<Rightarrow> (string \<times> raw) list result" where
  "snapshot_raw s =
     bindE (int_default (register_map s) ''high_alarm_limit'') (\<lambda>high.
     bindE (int_default (register_map s) ''low_alarm_limit'') (\<lambda>low.
     bindE (int_default (register_map s) ''firmware_major_minor'') (\<lambda>firmware.
     let values = snapshot_values s high low firmware
     in if set (map fst values) \<noteq> set (map fst (by_key (register_map s)))
        then Inl (RuntimeError ''model/register map mismatch'')
        else Inr values)))"

definition snapshot_get :: "WetWellProcess \<Rightarrow> string \<Rightarrow> raw result" where
  "snapshot_get s k =
     bindE (snapshot_raw s) (\<lambda>values. case map_of values k of Some v \<Rightarrow> Inr v | None \<Rightarrow> Inl (KeyError k))"

section \<open>Writes\<close>

text \<open>The first half of \<open>_coerce_write\<close> normalises the type, the second checks the range.\<close>

definition normalize_write :: "RegisterDefinition \<Rightarrow> pyval \<Rightarrow> raw result" where
  "normalize_write d v =
     (if data_type d = ''bool''
      then if is_number v \<and> (number v = Fin 0 \<or> number v = Fin 1) then Inr (RBool (truthy v))
           else Inl (ProcessWriteError (NotBoolean (key d)))
      else case v of PInt i \<Rightarrow> Inr (RInt i)
           | _ \<Rightarrow> Inl (ProcessWriteError (NotInteger (key d))))"

definition range_check :: "RegisterDefinition \<Rightarrow> raw \<Rightarrow> raw result" where
  "range_check d normalized =
     (let numeric = raw_int normalized in
      bindE (py_le (minimum d) (PInt numeric)) (\<lambda>above.
      bindE (if above then py_le (PInt numeric) (maximum d) else Inr False) (\<lambda>inside.
      if inside then Inr normalized
      else Inl (ProcessWriteError (OutsideRange (key d) numeric)))))"

definition coerce_write :: "RegisterDefinition \<Rightarrow> pyval \<Rightarrow> raw result" where
  "coerce_write d v = bindE (normalize_write d v) (range_check d)"

text \<open>The \<open>if\<close>/\<open>elif\<close> chain over the writable keys; \<open>None\<close> is its \<open>else\<close> branch.\<close>

definition apply_write :: "WetWellProcess \<Rightarrow> string \<Rightarrow> raw \<Rightarrow> WetWellProcess option" where
  "apply_write s k v =
     (if k = ''level_setpoint'' then Some (s\<lparr>level_setpoint := raw_int v\<rparr>)
      else if k = ''control_mode'' then Some (s\<lparr>control_mode := raw_int v\<rparr>)
      else if k = ''pump_speed_setpoint'' then Some (s\<lparr>pump_speed_setpoint := raw_int v\<rparr>)
      else if k = ''pump_command'' then Some (s\<lparr>pump_command := raw_bool v\<rparr>)
      else if k = ''inlet_valve_command'' then Some (s\<lparr>inlet_valve_command := raw_bool v\<rparr>)
      else if k = ''alarm_acknowledge'' then
        Some ((if raw_bool v
               then s\<lparr>high_alarm_acknowledged := high_level_alarm s,
                      low_alarm_acknowledged := low_level_alarm s\<rparr>
               else s)\<lparr>alarm_acknowledge := False\<rparr>)
      else None)"

definition write_raw :: "WetWellProcess \<Rightarrow> string \<Rightarrow> pyval \<Rightarrow> WetWellProcess \<times> WriteTransition result" where
  "write_raw s k v =
     (case require_key (register_map s) k of Inl e \<Rightarrow> (s, Inl e) | Inr d \<Rightarrow>
      if \<not> writable d \<or> write_effect d = None \<or> write_effect d = Some []
      then (s, Inl (ProcessWriteError (ReadOnly k)))
      else case coerce_write d v of Inl e \<Rightarrow> (s, Inl e) | Inr normalized \<Rightarrow>
      case snapshot_get s k of Inl e \<Rightarrow> (s, Inl e) | Inr old \<Rightarrow>
      case apply_write s k normalized of
        None \<Rightarrow> (s, Inl (ProcessWriteError (NoWriteHandler k)))
      | Some s' \<Rightarrow>
      case snapshot_get s' k of Inl e \<Rightarrow> (s', Inl e) | Inr stored \<Rightarrow>
      (s', Inr \<lparr>key_written = k, old_raw = old, requested_raw = normalized, stored_raw = stored,
                effect_text = write_effect d\<rparr>))"

section \<open>Ticks\<close>

definition request_pump :: "bool \<Rightarrow> WetWellProcess \<Rightarrow> WetWellProcess" where
  "request_pump target s =
     (if target \<noteq> pump_target s
      then s\<lparr>pump_target := target, pump_delay_remaining := actuator_delay_seconds s\<rparr> else s)"

definition request_valve :: "bool \<Rightarrow> WetWellProcess \<Rightarrow> WetWellProcess" where
  "request_valve target s =
     (if target \<noteq> valve_target s
      then s\<lparr>valve_target := target, valve_delay_remaining := actuator_delay_seconds s\<rparr> else s)"

definition advance_pump :: "rat \<Rightarrow> WetWellProcess \<Rightarrow> WetWellProcess" where
  "advance_pump seconds s =
     (if 0 < pump_delay_remaining s then
        let s1 = s\<lparr>pump_delay_remaining := max 0 (fl (pump_delay_remaining s - seconds))\<rparr> in
        if pump_delay_remaining s1 = 0 then
          let s2 = s1\<lparr>pump_feedback := pump_target s1 \<and> \<not> pump_fault s1\<rparr> in
          if pump_feedback s2 \<and> \<not> pump_feedback s
          then s2\<lparr>pump_start_count := min 65535 (pump_start_count s2 + 1)\<rparr> else s2
        else s1
      else s)"

definition advance_valve :: "rat \<Rightarrow> WetWellProcess \<Rightarrow> WetWellProcess" where
  "advance_valve seconds s =
     (if 0 < valve_delay_remaining s then
        let s1 = s\<lparr>valve_delay_remaining := max 0 (fl (valve_delay_remaining s - seconds))\<rparr> in
        if valve_delay_remaining s1 = 0 then s1\<lparr>inlet_valve_feedback := valve_target s1\<rparr> else s1
      else s)"

definition advance_actuators :: "rat \<Rightarrow> WetWellProcess \<Rightarrow> WetWellProcess" where
  "advance_actuators seconds s = advance_valve seconds (advance_pump seconds s)"

definition desired_pump_state :: "WetWellProcess \<Rightarrow> bool" where
  "desired_pump_state s =
     (if control_mode s = 0 then pump_command s
      else if pump_feedback s \<or> pump_target s
      then of_int (level_setpoint s - auto_hysteresis_raw s) < level_raw s
      else of_int (level_setpoint s + auto_hysteresis_raw s) \<le> level_raw s)"

definition inlet_lps :: "WetWellProcess \<Rightarrow> rat" where
  "inlet_lps s = (if inlet_valve_feedback s then nominal_inlet_flow_lps s else 0)"

text \<open>The quotient of an int and a float: the int may be too large for a float.\<close>

definition speed_fraction :: "WetWellProcess \<Rightarrow> rat result" where
  "speed_fraction s = bindE (float_of_int (pump_speed_setpoint s)) (\<lambda>x. Inr (fl (x / 10000)))"

definition outlet_lps :: "rat \<Rightarrow> WetWellProcess \<Rightarrow> pyfloat" where
  "outlet_lps fraction s =
     (if pump_feedback s then float_mul (Fin (max_pump_flow_lps s)) (Fin fraction) else Fin 0)"

definition level_delta_raw :: "rat \<Rightarrow> rat \<Rightarrow> WetWellProcess \<Rightarrow> pyfloat result" where
  "level_delta_raw seconds fraction s =
     bindE (float_div (float_mul (float_sub (Fin (inlet_lps s)) (outlet_lps fraction s)) (Fin seconds))
              (Fin (capacity_liters s)))
       (\<lambda>x. Inr (float_mul x (Fin 10000)))"

text \<open>\<open>min(10_000.0, max(0.0, x))\<close>; \<open>max\<close> keeps its first argument against a NaN.\<close>

definition clamp_level :: "pyfloat \<Rightarrow> rat" where
  "clamp_level x = (case x of Fin r \<Rightarrow> min 10000 (max 0 r) | PInf \<Rightarrow> 10000 | NInf \<Rightarrow> 0 | NaN \<Rightarrow> 0)"

definition pump_current :: "rat \<Rightarrow> WetWellProcess \<Rightarrow> int result" where
  "pump_current fraction s =
     (if pump_feedback s
      then py_round (float_add (Fin 300) (float_mul (Fin 1200) (Fin fraction))) else Inr 0)"

text \<open>The level has moved before a flow too large to round raises.\<close>

definition tick_hydraulics :: "rat \<Rightarrow> WetWellProcess stmt" where
  "tick_hydraulics seconds s =
     (case bindE (speed_fraction s) (\<lambda>fraction.
           bindE (level_delta_raw seconds fraction s) (\<lambda>delta. Inr (fraction, delta))) of
        Inl e \<Rightarrow> (s, Some e)
      | Inr (fraction, delta) \<Rightarrow>
          let s1 = s\<lparr>level_raw := clamp_level (float_add (Fin (level_raw s)) delta)\<rparr> in
          (case py_round (float_mul (Fin (inlet_lps s)) (Fin 100)) of
             Inl e \<Rightarrow> (s1, Some e)
           | Inr inflow \<Rightarrow>
               let s2 = s1\<lparr>inlet_flow_raw := inflow\<rparr> in
               (case py_round (float_mul (outlet_lps fraction s) (Fin 100)) of
                  Inl e \<Rightarrow> (s2, Some e)
                | Inr outflow \<Rightarrow>
                    let s3 = s2\<lparr>outlet_flow_raw := outflow\<rparr> in
                    (case pump_current fraction s of
                       Inl e \<Rightarrow> (s3, Some e)
                     | Inr current \<Rightarrow> (s3\<lparr>pump_current_raw := current\<rparr>, None)))))"

definition thermal_phase :: "rat \<Rightarrow> WetWellProcess \<Rightarrow> int" where
  "thermal_phase seconds s = float_floordiv (fl (elapsed_seconds s + seconds)) 60 mod 20"

definition tick_thermal :: "rat \<Rightarrow> WetWellProcess stmt" where
  "tick_thermal seconds s =
     (case int_default (register_map s) ''process_temperature_pv'' of
        Inl e \<Rightarrow> (s, Some e)
      | Inr base \<Rightarrow>
          let phase = thermal_phase seconds s
          in (s\<lparr>process_temperature_raw := base + (if phase \<le> 10 then phase else 20 - phase)\<rparr>, None))"

definition tick_alarms :: "rat \<Rightarrow> WetWellProcess stmt" where
  "tick_alarms seconds s =
     (case bindE (int_default (register_map s) ''high_alarm_limit'') (\<lambda>high.
           bindE (int_default (register_map s) ''low_alarm_limit'') (\<lambda>low. Inr (high, low))) of
        Inl e \<Rightarrow> (s, Some e)
      | Inr (high, low) \<Rightarrow>
          let level = round_half_even (level_raw s); new_high = high \<le> level; new_low = level \<le> low
          in (s\<lparr>high_alarm_acknowledged := new_high \<and> high_alarm_acknowledged s,
                low_alarm_acknowledged := new_low \<and> low_alarm_acknowledged s,
                high_level_alarm := new_high, low_level_alarm := new_low,
                elapsed_seconds := fl (elapsed_seconds s + seconds)\<rparr>, None))"

definition assert_invariants :: "WetWellProcess stmt" where
  "assert_invariants s = (s,
     if \<not> (0 \<le> level_raw s \<and> level_raw s \<le> 10000)
     then Some (RuntimeError ''tank level escaped physical bounds'')
     else if control_mode s \<noteq> 0 \<and> control_mode s \<noteq> 1
     then Some (RuntimeError ''control mode escaped enum'')
     else if pump_fault s \<and> pump_feedback s
     then Some (RuntimeError ''faulted pump cannot report running feedback'')
     else if inlet_flow_raw s < 0 \<or> outlet_flow_raw s < 0 \<or> pump_current_raw s < 0
     then Some (RuntimeError ''derived process value became negative'')
     else None)"

definition tick_seconds :: "pyval \<Rightarrow> rat result" where
  "tick_seconds v =
     (if \<not> is_number v then Inl (ValueError ''tick seconds must be finite'')
      else bindE (py_float v) (\<lambda>x. case x of
        Fin r \<Rightarrow> if number v \<le> Fin 0 \<or> Fin 10 < number v
                 then Inl (ValueError ''tick seconds must be greater than 0 and at most 10'')
                 else Inr r
      | _ \<Rightarrow> Inl (ValueError ''tick seconds must be finite'')))"

text \<open>The actuators move first: what the flows are computed from.\<close>

definition tick_actuators :: "rat \<Rightarrow> WetWellProcess \<Rightarrow> WetWellProcess" where
  "tick_actuators seconds s =
     (let s1 = request_valve (inlet_valve_command s) s;
          s2 = request_pump (desired_pump_state s1) s1
      in advance_actuators seconds s2)"

definition tick :: "pyval \<Rightarrow> WetWellProcess stmt" where
  "tick v s =
     (case tick_seconds v of Inl e \<Rightarrow> (s, Some e) | Inr seconds \<Rightarrow>
      run_stmts [\<lambda>s. (tick_actuators seconds s, None), tick_hydraulics seconds,
                 tick_thermal seconds, tick_alarms seconds, assert_invariants] s)"

end
