(* ===== verification/Wet_Well_Props.thy ===== *)
theory Wet_Well_Props
  imports Wet_Well
begin

text \<open>
  The wet-well process never leaves its physical and enumerated ranges: a profile predicate
  on the register map, an invariant of the process, one preservation lemma per operation, and
  the frame facts that the later theories use.
\<close>

section \<open>Profiles the model can run\<close>

definition model_keys :: "string list" where
  "model_keys = [''tank_level_pv'', ''inlet_flow_pv'', ''outlet_flow_pv'', ''pump_current_pv'',
     ''process_temperature_pv'', ''level_setpoint'', ''high_alarm_limit'', ''low_alarm_limit'',
     ''pump_start_count'', ''control_mode'', ''pump_speed_setpoint'', ''firmware_major_minor'',
     ''pump_command'', ''inlet_valve_command'', ''alarm_acknowledge'', ''pump_feedback'',
     ''inlet_valve_feedback'', ''high_level_alarm'', ''low_level_alarm'', ''pump_fault'',
     ''auto_control_active'']"

definition handled_keys :: "string list" where
  "handled_keys = [''level_setpoint'', ''control_mode'', ''pump_speed_setpoint'', ''pump_command'',
     ''inlet_valve_command'', ''alarm_acknowledge'']"

definition bounds_within :: "int \<Rightarrow> int \<Rightarrow> RegisterDefinition \<Rightarrow> bool" where
  "bounds_within lo hi d \<longleftrightarrow> Fin (of_int lo) \<le> number (minimum d) \<and> number (maximum d) \<le> Fin (of_int hi)"

definition profile_ok :: "RegisterMap \<Rightarrow> bool" where
  "profile_ok m \<longleftrightarrow>
     wf_map m \<and> set (map key (definitions m)) = set model_keys \<and>
     list_all (\<lambda>k. isOK (int_default m k))
       [''high_alarm_limit'', ''low_alarm_limit'', ''firmware_major_minor'', ''process_temperature_pv''] \<and>
     list_all (\<lambda>d. is_number (minimum d) \<and> is_number (maximum d) \<and>
         (writable d \<longrightarrow> key d \<in> set handled_keys \<and> write_effect d \<noteq> None \<and> write_effect d \<noteq> Some []) \<and>
         (key d = ''control_mode'' \<longrightarrow> bounds_within 0 1 d) \<and>
         (key d = ''pump_speed_setpoint'' \<longrightarrow> bounds_within 0 10000 d)) (definitions m)"

lemma profile_okD:
  assumes "profile_ok m"
  shows "wf_map m" "fst ` set (by_key m) = set model_keys" "key ` set (definitions m) = set model_keys"
    "isOK (int_default m ''high_alarm_limit'')" "isOK (int_default m ''low_alarm_limit'')"
    "isOK (int_default m ''firmware_major_minor'')" "isOK (int_default m ''process_temperature_pv'')"
  using assms by (auto simp: profile_ok_def wf_map_def image_image)

lemma profile_ok_definition:
  assumes "profile_ok m" "d \<in> set (definitions m)"
  shows "is_number (minimum d)" "is_number (maximum d)"
    "writable d \<Longrightarrow> key d \<in> set handled_keys" "writable d \<Longrightarrow> write_effect d \<noteq> None"
    "writable d \<Longrightarrow> write_effect d \<noteq> Some []"
    "key d = ''control_mode'' \<Longrightarrow> bounds_within 0 1 d"
    "key d = ''pump_speed_setpoint'' \<Longrightarrow> bounds_within 0 10000 d"
  using assms by (auto simp: profile_ok_def list_all_iff)

lemma bounds_withinD:
  assumes "bounds_within lo hi d" "number (minimum d) \<le> Fin (of_int n)" "Fin (of_int n) \<le> number (maximum d)"
  shows "lo \<le> n" "n \<le> hi"
  using assms unfolding bounds_within_def
  by (cases "number (minimum d)"; cases "number (maximum d)"; simp; linarith)+

section \<open>Snapshots\<close>

lemma snapshot_values_keys: "map fst (snapshot_values s h l f) = model_keys"
  by (simp add: snapshot_values_def model_keys_def)

lemma model_keys_distinct: "distinct model_keys"
  by (simp add: model_keys_def)

lemma snapshot_raw_eq:
  assumes "profile_ok (register_map s)"
  obtains h l f where
    "int_default (register_map s) ''high_alarm_limit'' = Inr h"
    "int_default (register_map s) ''low_alarm_limit'' = Inr l"
    "int_default (register_map s) ''firmware_major_minor'' = Inr f"
    "snapshot_raw s = Inr (snapshot_values s h l f)"
proof -
  note p = profile_okD [OF assms]
  from p(4-6) obtain h l f where
    "int_default (register_map s) ''high_alarm_limit'' = Inr h"
    "int_default (register_map s) ''low_alarm_limit'' = Inr l"
    "int_default (register_map s) ''firmware_major_minor'' = Inr f"
    by (auto simp: isOK_iff)
  moreover from this p(2) have "snapshot_raw s = Inr (snapshot_values s h l f)"
    by (simp add: snapshot_raw_def Let_def snapshot_values_keys flip: set_map)
  ultimately show thesis by (rule that)
qed

text \<open>A snapshot never fails and names exactly the keys of the map.\<close>

lemma snapshot_raw_total:
  assumes "profile_ok (register_map s)"
  shows "\<exists>vals. snapshot_raw s = Inr vals \<and> map fst vals = model_keys"
  using snapshot_raw_eq [OF assms] snapshot_values_keys by metis

lemma snapshot_get_total:
  assumes "profile_ok (register_map s)" "k \<in> set model_keys"
  shows "isOK (snapshot_get s k)"
proof -
  obtain vals where v: "snapshot_raw s = Inr vals" "map fst vals = model_keys"
    using snapshot_raw_total [OF assms(1)] by blast
  then have "k \<in> fst ` set vals" using assms(2) by (metis set_map)
  then have "map_of vals k \<noteq> None" by (simp add: map_of_eq_None_iff)
  with v show ?thesis by (auto simp: snapshot_get_def)
qed

section \<open>The invariant\<close>

text \<open>Flows far below the largest double: a hundred times a flow is still finite.\<close>

definition flow_limit :: rat where
  "flow_limit = 2 ^ 1000"

definition constants_ok :: "WetWellProcess \<Rightarrow> bool" where
  "constants_ok s \<longleftrightarrow>
     0 < capacity_liters s \<and> 0 \<le> max_pump_flow_lps s \<and> 0 \<le> nominal_inlet_flow_lps s \<and>
     0 \<le> actuator_delay_seconds s \<and> max_pump_flow_lps s \<le> flow_limit \<and> nominal_inlet_flow_lps s \<le> flow_limit \<and>
     is_f64 (max_pump_flow_lps s) \<and> is_f64 (nominal_inlet_flow_lps s) \<and> is_f64 (actuator_delay_seconds s)"

definition actuators_ok :: "WetWellProcess \<Rightarrow> bool" where
  "actuators_ok s \<longleftrightarrow>
     0 \<le> pump_delay_remaining s \<and> pump_delay_remaining s \<le> actuator_delay_seconds s \<and>
     0 \<le> valve_delay_remaining s \<and> valve_delay_remaining s \<le> actuator_delay_seconds s \<and>
     is_f64 (pump_delay_remaining s) \<and> is_f64 (valve_delay_remaining s) \<and>
     \<not> (pump_fault s \<and> pump_feedback s) \<and> pump_start_count s \<le> 65535"

definition ranges_ok :: "WetWellProcess \<Rightarrow> bool" where
  "ranges_ok s \<longleftrightarrow>
     0 \<le> level_raw s \<and> level_raw s \<le> 10000 \<and> (control_mode s = 0 \<or> control_mode s = 1) \<and>
     0 \<le> pump_speed_setpoint s \<and> pump_speed_setpoint s \<le> 10000 \<and>
     0 \<le> inlet_flow_raw s \<and> 0 \<le> outlet_flow_raw s \<and> 0 \<le> pump_current_raw s"

definition alarms_ok :: "WetWellProcess \<Rightarrow> bool" where
  "alarms_ok s \<longleftrightarrow>
     (high_alarm_acknowledged s \<longrightarrow> high_level_alarm s) \<and> (low_alarm_acknowledged s \<longrightarrow> low_level_alarm s) \<and>
     \<not> alarm_acknowledge s"

definition process_ok :: "WetWellProcess \<Rightarrow> bool" where
  "process_ok s \<longleftrightarrow>
     profile_ok (register_map s) \<and> constants_ok s \<and> actuators_ok s \<and> ranges_ok s \<and> alarms_ok s"

lemmas process_ok_defs = process_ok_def constants_ok_def actuators_ok_def ranges_ok_def alarms_ok_def

lemma process_okD:
  assumes "process_ok s"
  shows "profile_ok (register_map s)" "constants_ok s" "actuators_ok s" "ranges_ok s" "alarms_ok s"
  using assms by (simp_all add: process_ok_def)

subsection \<open>Actuators\<close>

lemma request_pump_ok: "process_ok s \<Longrightarrow> process_ok (request_pump b s)"
  by (simp add: request_pump_def process_ok_defs)

lemma request_valve_ok: "process_ok s \<Longrightarrow> process_ok (request_valve b s)"
  by (simp add: request_valve_def process_ok_defs)

lemma countdown_ok:
  assumes "is_f64 r" "0 \<le> r" "0 \<le> t" "r \<le> d"
  shows "0 \<le> max 0 (fl (r - t))" "max 0 (fl (r - t)) \<le> d" "is_f64 (max 0 (fl (r - t)))"
  using f64.rnd_countdown [OF assms(1-3)] assms(4) by linarith+

lemma advance_pump_ok: "process_ok s \<Longrightarrow> 0 \<le> t \<Longrightarrow> process_ok (advance_pump t s)"
  using countdown_ok [of "pump_delay_remaining s" t "actuator_delay_seconds s"]
  by (auto simp: advance_pump_def Let_def process_ok_defs)

lemma advance_valve_ok: "process_ok s \<Longrightarrow> 0 \<le> t \<Longrightarrow> process_ok (advance_valve t s)"
  using countdown_ok [of "valve_delay_remaining s" t "actuator_delay_seconds s"]
  by (auto simp: advance_valve_def Let_def process_ok_defs)

lemma tick_actuators_ok: "process_ok s \<Longrightarrow> 0 \<le> t \<Longrightarrow> process_ok (tick_actuators t s)"
  by (simp add: tick_actuators_def advance_actuators_def Let_def advance_valve_ok advance_pump_ok
      request_pump_ok request_valve_ok)

subsection \<open>The statements of a tick\<close>

lemma tick_seconds_Inr: "tick_seconds v = Inr t \<Longrightarrow> 0 < t \<and> t \<le> 10"
proof -
  assume v: "tick_seconds v = Inr t"
  show ?thesis
  proof (cases v)
    case (PInt i)
    from v PInt obtain x where x: "float_of_int i = Inr x"
      by (cases "float_of_int i") (auto simp: tick_seconds_def)
    with v PInt have i: "0 < i" "i \<le> 10" and t: "t = x"
      by (auto simp: tick_seconds_def split: if_splits)
    then have "x = of_int i" using x by (simp add: float_of_int_small)
    with i t show ?thesis by simp
  next
    case (PFloat x)
    with v show ?thesis by (cases x) (auto simp: tick_seconds_def split: if_splits)
  next
    case (PBool b)
    with v show ?thesis by (auto simp: tick_seconds_def split: if_splits)
  qed (use v in \<open>auto simp: tick_seconds_def\<close>)
qed

lemma speed_fraction_eq:
  assumes "0 \<le> pump_speed_setpoint s" "pump_speed_setpoint s \<le> 10000"
  obtains f where "speed_fraction s = Inr f" "0 \<le> f" "f \<le> 1"
proof -
  have "float_of_int (pump_speed_setpoint s) = Inr (of_int (pump_speed_setpoint s))"
    using assms by (intro float_of_int_small) simp
  moreover have "(of_int (pump_speed_setpoint s) :: rat) \<le> of_int 10000"
    using assms(2) by (simp only: of_int_le_iff)
  ultimately show thesis
    using f64.rnd_fraction [of "of_int (pump_speed_setpoint s)" 10000] assms(1)
    by (intro that) (simp_all add: speed_fraction_def)
qed

lemma power_mono_2: "m \<le> n \<Longrightarrow> (2 :: rat) ^ m \<le> 2 ^ n"
  by (rule power_increasing) simp_all

text \<open>On a sound process the outlet is a finite flow, and so are a hundred times both flows.\<close>

lemma outlet_lps_eq:
  assumes "process_ok s" "0 \<le> f" "f \<le> 1"
  obtains r where "outlet_lps f s = Fin r" "0 \<le> r" "r \<le> max_pump_flow_lps s"
proof (cases "pump_feedback s")
  case True
  have m: "is_f64 (max_pump_flow_lps s)" "0 \<le> max_pump_flow_lps s" "max_pump_flow_lps s \<le> flow_limit"
    using assms(1) by (simp_all add: process_ok_defs)
  note r = f64.rnd_scaled [OF m(1,2) assms(2,3)]
  have "max_pump_flow_lps s * f \<le> max_pump_flow_lps s" using m(2) assms(3) by (rule mult_left_le [rotated])
  also have "\<dots> \<le> 2 ^ 1023" using m(3) power_mono_2 [of 1000 1023] unfolding flow_limit_def by (rule order_trans) simp
  finally have "\<bar>max_pump_flow_lps s * f\<bar> \<le> 2 ^ 1023" using m(2) assms(2) by simp
  from nearest_in_range [OF this] show thesis
    by (intro that [of "fl (max_pump_flow_lps s * f)"]) (use True r in \<open>simp_all add: outlet_lps_def\<close>)
next
  case False
  then show thesis
    using assms(1) by (intro that [of 0]) (simp_all add: outlet_lps_def process_ok_defs)
qed

lemma hundred_round:
  assumes "0 \<le> x" "x \<le> flow_limit"
  obtains n where "py_round (float_mul (Fin x) (Fin 100)) = Inr n" "0 \<le> n"
proof -
  have "x * 100 \<le> 2 ^ 1000 * 2 ^ 7" using assms unfolding flow_limit_def by (intro mult_mono) simp_all
  also have "\<dots> = 2 ^ 1007" unfolding power_add [symmetric] by simp
  also have "\<dots> \<le> 2 ^ 1023" by (rule power_mono_2) simp
  finally have "nearest_float (x * 100) = Fin (fl (x * 100))" using assms(1) by (intro nearest_in_range) simp
  then show thesis
    using assms(1) by (intro that [of "round_half_even (fl (x * 100))"]) (simp_all add: round_half_even_nonneg fl_nonneg)
qed

lemma pump_current_eq:
  assumes "0 \<le> f" "f \<le> 1"
  obtains n where "pump_current f s = Inr n" "0 \<le> n"
proof -
  have f: "is_f64 1200" using is_f64_of_int [of 1200] by simp
  have x: "0 \<le> fl (1200 * f)" "fl (1200 * f) \<le> 1200"
    using f64.rnd_scaled [OF f _ assms] by simp_all
  have 1: "nearest_float (1200 * f) = Fin (fl (1200 * f))"
    using assms power_mono_2 [of 11 1023] by (intro nearest_in_range) simp
  have 2: "nearest_float (300 + fl (1200 * f)) = Fin (fl (300 + fl (1200 * f)))"
    using x power_mono_2 [of 11 1023] by (intro nearest_in_range) simp
  show thesis
    using x by (cases "pump_feedback s")
      (auto simp: pump_current_def 1 2 intro!: that round_half_even_nonneg fl_nonneg)
qed

lemma clamp_level_range: "0 \<le> clamp_level x" "clamp_level x \<le> 10000"
  by (simp_all add: clamp_level_def split: pyfloat.split)

lemma tick_hydraulics_eq:
  assumes "process_ok s"
  obtains l i out c where
    "tick_hydraulics t s = (s\<lparr>level_raw := l, inlet_flow_raw := i, outlet_flow_raw := out, pump_current_raw := c\<rparr>, None)"
    "0 \<le> l" "l \<le> 10000" "0 \<le> i" "0 \<le> out" "0 \<le> c"
proof -
  obtain f where f: "speed_fraction s = Inr f" "0 \<le> f" "f \<le> 1"
    using assms by (auto simp: process_ok_defs elim: speed_fraction_eq)
  obtain r where r: "outlet_lps f s = Fin r" "0 \<le> r" "r \<le> max_pump_flow_lps s"
    by (rule outlet_lps_eq [OF assms f(2,3)])
  have top: "max_pump_flow_lps s \<le> flow_limit" "nominal_inlet_flow_lps s \<le> flow_limit" "0 \<le> nominal_inlet_flow_lps s"
    using assms by (simp_all add: process_ok_defs)
  have inlet: "0 \<le> inlet_lps s" "inlet_lps s \<le> flow_limit"
    using top by (simp_all add: inlet_lps_def flow_limit_def)
  obtain i where i: "py_round (float_mul (Fin (inlet_lps s)) (Fin 100)) = Inr i" "0 \<le> i"
    by (rule hundred_round [OF inlet])
  obtain out where out: "py_round (float_mul (Fin r) (Fin 100)) = Inr out" "0 \<le> out"
    using hundred_round [of r] r top(1) by (metis order_trans)
  obtain c where c: "pump_current f s = Inr c" "0 \<le> c" by (rule pump_current_eq [OF f(2,3)])
  have "capacity_liters s \<noteq> 0" using assms by (simp add: process_ok_defs)
  then obtain delta where d: "level_delta_raw t f s = Inr delta"
    by (cases "float_mul (float_sub (Fin (inlet_lps s)) (outlet_lps f s)) (Fin t)") (simp_all add: level_delta_raw_def)
  have "tick_hydraulics t s = (s\<lparr>level_raw := clamp_level (float_add (Fin (level_raw s)) delta),
      inlet_flow_raw := i, outlet_flow_raw := out, pump_current_raw := c\<rparr>, None)"
    using i out c d by (simp add: tick_hydraulics_def f(1) r(1) Let_def del: float_mul.simps)
  then show thesis by (rule that) (rule clamp_level_range i(2) out(2) c(2))+
qed

lemma tick_hydraulics_ok:
  assumes "process_ok s"
  shows "snd (tick_hydraulics t s) = None" "process_ok (fst (tick_hydraulics t s))"
  by (rule tick_hydraulics_eq [OF assms, of t]; use assms in \<open>simp add: process_ok_defs\<close>)+

lemma tick_thermal_ok:
  assumes "process_ok s"
  shows "snd (tick_thermal t s) = None" "process_ok (fst (tick_thermal t s))"
proof -
  obtain base where "int_default (register_map s) ''process_temperature_pv'' = Inr base"
    using profile_okD(7) [OF process_okD(1) [OF assms]] by (auto simp: isOK_iff)
  then show "snd (tick_thermal t s) = None" "process_ok (fst (tick_thermal t s))"
    using assms by (simp_all add: tick_thermal_def Let_def process_ok_defs)
qed

lemma tick_alarms_eq:
  assumes "process_ok s"
  obtains high low where
    "int_default (register_map s) ''high_alarm_limit'' = Inr high"
    "int_default (register_map s) ''low_alarm_limit'' = Inr low"
    "tick_alarms t s = (s\<lparr>
       high_alarm_acknowledged := high \<le> round_half_even (level_raw s) \<and> high_alarm_acknowledged s,
       low_alarm_acknowledged := round_half_even (level_raw s) \<le> low \<and> low_alarm_acknowledged s,
       high_level_alarm := high \<le> round_half_even (level_raw s),
       low_level_alarm := round_half_even (level_raw s) \<le> low,
       elapsed_seconds := fl (elapsed_seconds s + t)\<rparr>, None)"
proof -
  obtain high low where hl: "int_default (register_map s) ''high_alarm_limit'' = Inr high"
    "int_default (register_map s) ''low_alarm_limit'' = Inr low"
    using profile_okD(4,5) [OF process_okD(1) [OF assms]] by (auto simp: isOK_iff)
  then show thesis by (intro that [OF hl]) (simp add: tick_alarms_def Let_def)
qed

lemma tick_alarms_ok:
  assumes "process_ok s"
  shows "snd (tick_alarms t s) = None" "process_ok (fst (tick_alarms t s))"
  by (rule tick_alarms_eq [OF assms, of t]; use assms in \<open>simp add: process_ok_defs\<close>)+

lemma assert_invariants_ok: "process_ok s \<Longrightarrow> assert_invariants s = (s, None)"
  by (auto simp: assert_invariants_def process_ok_defs)

text \<open>The state a tick returns, once no statement raises.\<close>

definition tick_result :: "rat \<Rightarrow> WetWellProcess \<Rightarrow> WetWellProcess" where
  "tick_result t s = fst (tick_alarms t (fst (tick_thermal t (fst (tick_hydraulics t (tick_actuators t s))))))"

lemma tick_eq:
  assumes "process_ok s" "tick_seconds v = Inr t"
  shows "tick v s = (tick_result t s, None)" "process_ok (tick_result t s)"
proof -
  have t: "0 \<le> t" using tick_seconds_Inr [OF assms(2)] by simp
  note act = tick_actuators_ok [OF assms(1) t]
  note hyd = tick_hydraulics_ok [OF act, of t]
  note therm = tick_thermal_ok [OF hyd(2), of t]
  note alm = tick_alarms_ok [OF therm(2), of t]
  show "process_ok (tick_result t s)" using alm(2) by (simp add: tick_result_def)
  show "tick v s = (tick_result t s, None)"
    using hyd(1) therm(1) alm(1) assert_invariants_ok [OF alm(2)] assms(2)
    by (simp add: tick_def run_stmts_ok tick_result_def)
qed

lemma tick_invalid: "tick_seconds v = Inl e \<Longrightarrow> tick v s = (s, Some e)"
  by (simp add: tick_def)

lemma tick_ok: "process_ok s \<Longrightarrow> process_ok (fst (tick v s))"
  by (cases "tick_seconds v") (simp_all add: tick_invalid tick_eq)

end
