(* ===== verification/Wet_Well_Writes.thy ===== *)
theory Wet_Well_Writes
  imports Wet_Well_Props
begin

text \<open>
  Writes to the process: a rejected write changes nothing and an accepted one changes its own
  key (and the derived \<open>auto_control_active\<close>) in the snapshot.  The functional description
  \<open>write_raw_cases\<close> is the one the protocol adapter builds on.
\<close>

section \<open>Coercion\<close>

lemma normalize_write_Inr:
  "normalize_write d v = Inr r \<Longrightarrow> data_type d = ''bool'' \<Longrightarrow> \<exists>b. r = RBool b"
  "normalize_write d v = Inr r \<Longrightarrow> data_type d \<noteq> ''bool'' \<Longrightarrow> \<exists>i. r = RInt i \<and> v = PInt i"
  by (auto simp: normalize_write_def split: if_splits pyval.splits)

lemma normalize_write_Inl: "normalize_write d v = Inl e \<Longrightarrow> \<exists>w. e = ProcessWriteError w"
  by (auto simp: normalize_write_def split: if_splits pyval.splits)

lemma range_check_eq:
  assumes "is_number (minimum d)" "is_number (maximum d)"
  shows "range_check d r =
    (if number (minimum d) \<le> Fin (of_int (raw_int r)) \<and> Fin (of_int (raw_int r)) \<le> number (maximum d)
     then Inr r else Inl (ProcessWriteError (OutsideRange (key d) (raw_int r))))"
  using assms by (simp add: range_check_def Let_def)

lemma range_check_Inr: "range_check d r = Inr r' \<Longrightarrow> r' = r"
  by (auto simp: range_check_def bindE_eq_Inr Let_def split: if_splits)

lemma coerce_write_Inr:
  assumes "coerce_write d v = Inr r" "is_number (minimum d)" "is_number (maximum d)"
  shows "number (minimum d) \<le> Fin (of_int (raw_int r))" "Fin (of_int (raw_int r)) \<le> number (maximum d)"
  using assms by (auto simp: coerce_write_def range_check_eq bindE_eq_Inr split: if_splits)

lemma coerce_write_normal:
  "coerce_write d v = Inr r \<longleftrightarrow> normalize_write d v = Inr r \<and> range_check d r = Inr r"
  by (auto simp: coerce_write_def bindE_eq_Inr dest: range_check_Inr)

text \<open>Coercing what a coercion returned gives it back: the adapter coerces twice.\<close>

definition raw_value :: "raw \<Rightarrow> pyval" where
  "raw_value r = (case r of RInt i \<Rightarrow> PInt i | RBool b \<Rightarrow> PBool b)"

lemma raw_value_simps [simp]: "raw_value (RInt i) = PInt i" "raw_value (RBool b) = PBool b"
  by (simp_all add: raw_value_def)

lemma normalize_write_idem: "normalize_write d v = Inr r \<Longrightarrow> normalize_write d (raw_value r) = Inr r"
  by (cases "data_type d = ''bool''"; drule normalize_write_Inr; auto simp: normalize_write_def)

lemma coerce_write_idem: "coerce_write d v = Inr r \<Longrightarrow> coerce_write d (raw_value r) = Inr r"
  by (auto simp: coerce_write_normal intro: normalize_write_idem)

text \<open>On numeric bounds, a coercion can only fail with a write error.\<close>

lemma coerce_write_Inl:
  assumes "coerce_write d v = Inl e" "is_number (minimum d)" "is_number (maximum d)"
  shows "\<exists>w. e = ProcessWriteError w"
  using assms normalize_write_Inl
  by (auto simp: coerce_write_def range_check_eq bindE_eq_Inl split: if_splits)

section \<open>The effect of one write\<close>

text \<open>Case analysis on an accepted write: which attribute it set.\<close>

lemma apply_write_cases [consumes 1]:
  assumes "apply_write s k r = Some s'"
  obtains
    (setpoint) "k = ''level_setpoint''" "s' = s\<lparr>level_setpoint := raw_int r\<rparr>"
  | (mode) "k = ''control_mode''" "s' = s\<lparr>control_mode := raw_int r\<rparr>"
  | (speed) "k = ''pump_speed_setpoint''" "s' = s\<lparr>pump_speed_setpoint := raw_int r\<rparr>"
  | (pump) "k = ''pump_command''" "s' = s\<lparr>pump_command := raw_bool r\<rparr>"
  | (valve) "k = ''inlet_valve_command''" "s' = s\<lparr>inlet_valve_command := raw_bool r\<rparr>"
  | (ack) "k = ''alarm_acknowledge''" "raw_bool r"
      "s' = s\<lparr>high_alarm_acknowledged := high_level_alarm s,
              low_alarm_acknowledged := low_level_alarm s, alarm_acknowledge := False\<rparr>"
  | (no_ack) "k = ''alarm_acknowledge''" "\<not> raw_bool r" "s' = s\<lparr>alarm_acknowledge := False\<rparr>"
proof -
  consider "k = ''level_setpoint''" | "k = ''control_mode''" | "k = ''pump_speed_setpoint''"
    | "k = ''pump_command''" | "k = ''inlet_valve_command''" | "k = ''alarm_acknowledge''"
    using assms unfolding apply_write_def by (metis option.distinct(1))
  then show thesis
  proof cases
    case 6
    then show thesis
      using assms by (cases "raw_bool r"; intro ack no_ack) (simp_all add: apply_write_def)
  next
    case 1
    then show thesis using assms by (intro setpoint) (simp_all add: apply_write_def)
  next
    case 2
    then show thesis using assms by (intro mode) (simp_all add: apply_write_def)
  next
    case 3
    then show thesis using assms by (intro speed) (simp_all add: apply_write_def)
  next
    case 4
    then show thesis using assms by (intro pump) (simp_all add: apply_write_def)
  next
    case 5
    then show thesis using assms by (intro valve) (simp_all add: apply_write_def)
  qed
qed

lemma apply_write_Some: "(\<exists>s'. apply_write s k r = Some s') \<longleftrightarrow> k \<in> set handled_keys"
  by (auto simp: apply_write_def handled_keys_def)

lemma apply_write_map [frame]: "apply_write s k r = Some s' \<Longrightarrow> register_map s' = register_map s"
  by (auto simp: apply_write_def split: if_splits)

lemma handled_keys_model: "k \<in> set handled_keys \<Longrightarrow> k \<in> set model_keys"
  by (auto simp: handled_keys_def model_keys_def)

lemma write_raw_cases:
  assumes "profile_ok (register_map s)"
  shows "write_raw s k v =
    (case require_key (register_map s) k of Inl e \<Rightarrow> (s, Inl e) | Inr d \<Rightarrow>
     if \<not> writable d then (s, Inl (ProcessWriteError (ReadOnly k)))
     else case coerce_write d v of Inl e \<Rightarrow> (s, Inl e) | Inr r \<Rightarrow>
       (the (apply_write s k r),
        Inr \<lparr>key_written = k, old_raw = projr (snapshot_get s k), requested_raw = r,
             stored_raw = projr (snapshot_get (the (apply_write s k r)) k), effect_text = write_effect d\<rparr>))"
proof (cases "require_key (register_map s) k")
  case (Inl e)
  then show ?thesis by (simp add: write_raw_def)
next
  case (Inr d)
  note d = require_key_Inr [OF profile_okD(1) [OF assms], THEN iffD1, OF Inr]
  show ?thesis
  proof (cases "writable d \<and> (\<exists>r. coerce_write d v = Inr r)")
    case False
    with Inr profile_ok_definition(4,5) [OF assms conjunct1 [OF d]] show ?thesis
      by (cases "coerce_write d v") (auto simp: write_raw_def)
  next
    case True
    then obtain r where w: "writable d" and r: "coerce_write d v = Inr r" by blast
    note p = profile_ok_definition [OF assms conjunct1 [OF d]]
    have k: "k \<in> set handled_keys" using p(3) w d by simp
    then obtain s' where s': "apply_write s k r = Some s'" using apply_write_Some by blast
    have m: "profile_ok (register_map s')" using assms s' by (simp add: frame)
    from snapshot_get_total [OF assms handled_keys_model [OF k]]
      snapshot_get_total [OF m handled_keys_model [OF k]]
    obtain old new where "snapshot_get s k = Inr old" "snapshot_get s' k = Inr new"
      by (auto simp: isOK_iff)
    with Inr w r s' p(4,5) [OF w] show ?thesis by (simp add: write_raw_def)
  qed
qed

text \<open>A rejected write leaves the process as it was.\<close>

lemma write_raw_rejected:
  assumes "profile_ok (register_map s)" "snd (write_raw s k v) = Inl e"
  shows "fst (write_raw s k v) = s"
  using assms(2) unfolding write_raw_cases [OF assms(1)]
  by (auto split: sum.splits if_splits)

lemma write_raw_accepted:
  assumes "profile_ok (register_map s)" "snd (write_raw s k v) = Inr t"
  obtains d r where "require_key (register_map s) k = Inr d" "writable d" "coerce_write d v = Inr r"
    "apply_write s k r = Some (fst (write_raw s k v))" "requested_raw t = r" "key_written t = k"
    "snapshot_get (fst (write_raw s k v)) k = Inr (stored_raw t)" "snapshot_get s k = Inr (old_raw t)"
proof -
  from assms(2) obtain d r where d: "require_key (register_map s) k = Inr d" and w: "writable d"
    and r: "coerce_write d v = Inr r"
    unfolding write_raw_cases [OF assms(1)] by (auto split: sum.splits if_splits)
  have mem: "d \<in> set (definitions (register_map s))" "key d = k"
    using require_key_Inr [OF profile_okD(1) [OF assms(1)]] d by auto
  then have k: "k \<in> set handled_keys" using profile_ok_definition(3) [OF assms(1) mem(1) w] by simp
  then obtain s' where s': "apply_write s k r = Some s'" using apply_write_Some by blast
  have m: "profile_ok (register_map s')" using assms(1) s' by (simp add: frame)
  have eq: "write_raw s k v = (s', Inr \<lparr>key_written = k, old_raw = projr (snapshot_get s k),
      requested_raw = r, stored_raw = projr (snapshot_get s' k), effect_text = write_effect d\<rparr>)"
    unfolding write_raw_cases [OF assms(1)] using d w r s' by simp
  show thesis
    using snapshot_get_total [OF assms(1) handled_keys_model [OF k]]
      snapshot_get_total [OF m handled_keys_model [OF k]] assms(2)
    by (intro that [OF d w r]) (auto simp: eq s' isOK_iff)
qed

section \<open>The invariant\<close>

lemma apply_write_ok:
  assumes "process_ok s" "d \<in> set (definitions (register_map s))" "coerce_write d v = Inr r"
    "apply_write s (key d) r = Some s'"
  shows "process_ok s'"
proof -
  note p = profile_ok_definition [OF process_okD(1) [OF assms(1)] assms(2)]
  note c = coerce_write_Inr [OF assms(3) p(1,2)]
  have mode: "key d = ''control_mode'' \<Longrightarrow> raw_int r = 0 \<or> raw_int r = 1"
    using bounds_withinD [OF p(6) c(1,2)] by auto
  have speed: "key d = ''pump_speed_setpoint'' \<Longrightarrow> 0 \<le> raw_int r \<and> raw_int r \<le> 10000"
    using bounds_withinD [OF p(7) c(1,2)] by auto
  from assms(4) show ?thesis
  proof (cases rule: apply_write_cases)
    case mode
    with assms(1) \<open>key d = _ \<Longrightarrow> raw_int r = 0 \<or> raw_int r = 1\<close> show ?thesis
      by (simp add: process_ok_defs)
  next
    case speed
    with assms(1) \<open>key d = _ \<Longrightarrow> 0 \<le> raw_int r \<and> raw_int r \<le> 10000\<close> show ?thesis
      by (simp add: process_ok_defs)
  qed (use assms(1) in \<open>simp_all add: process_ok_defs\<close>)
qed

lemma write_raw_ok: "process_ok s \<Longrightarrow> process_ok (fst (write_raw s k v))"
proof -
  assume ok: "process_ok s"
  note p = process_okD(1) [OF ok]
  show ?thesis
  proof (cases "snd (write_raw s k v)")
    case (Inl e)
    with ok show ?thesis by (simp add: write_raw_rejected [OF p])
  next
    case (Inr t)
    from write_raw_accepted [OF p Inr] obtain d r where
      d: "require_key (register_map s) k = Inr d" and r: "coerce_write d v = Inr r"
      and s': "apply_write s k r = Some (fst (write_raw s k v))" by metis
    have "d \<in> set (definitions (register_map s))" "key d = k"
      using require_key_Inr [OF profile_okD(1) [OF p]] d by auto
    with ok r s' show ?thesis using apply_write_ok by metis
  qed
qed

end
