(* ===== verification/Wet_Well_Dynamics.thy ===== *)
theory Wet_Well_Dynamics
  imports Wet_Well_Writes
begin

text \<open>
  How the process moves: what a tick does to each group of attributes, the delayed actuators
  (a locale instantiated by the valve and by the pump under manual control), the hysteresis of
  the automatic controller, the alarms, and whole runs of ticks and writes.
\<close>

section \<open>Which attributes the later statements of a tick leave alone\<close>

lemma tick_hydraulics_frame [frame]:
  "register_map (fst (tick_hydraulics t s)) = register_map s"
  "actuator_delay_seconds (fst (tick_hydraulics t s)) = actuator_delay_seconds s"
  "auto_hysteresis_raw (fst (tick_hydraulics t s)) = auto_hysteresis_raw s"
  "elapsed_seconds (fst (tick_hydraulics t s)) = elapsed_seconds s"
  "level_setpoint (fst (tick_hydraulics t s)) = level_setpoint s"
  "control_mode (fst (tick_hydraulics t s)) = control_mode s"
  "pump_speed_setpoint (fst (tick_hydraulics t s)) = pump_speed_setpoint s"
  "pump_start_count (fst (tick_hydraulics t s)) = pump_start_count s"
  "pump_command (fst (tick_hydraulics t s)) = pump_command s"
  "inlet_valve_command (fst (tick_hydraulics t s)) = inlet_valve_command s"
  "pump_feedback (fst (tick_hydraulics t s)) = pump_feedback s"
  "inlet_valve_feedback (fst (tick_hydraulics t s)) = inlet_valve_feedback s"
  "pump_fault (fst (tick_hydraulics t s)) = pump_fault s"
  "pump_target (fst (tick_hydraulics t s)) = pump_target s"
  "valve_target (fst (tick_hydraulics t s)) = valve_target s"
  "pump_delay_remaining (fst (tick_hydraulics t s)) = pump_delay_remaining s"
  "valve_delay_remaining (fst (tick_hydraulics t s)) = valve_delay_remaining s"
  "high_alarm_acknowledged (fst (tick_hydraulics t s)) = high_alarm_acknowledged s"
  "low_alarm_acknowledged (fst (tick_hydraulics t s)) = low_alarm_acknowledged s"
  by (simp_all add: tick_hydraulics_def Let_def split: sum.split prod.split)

lemma tick_thermal_form: "\<exists>n. fst (tick_thermal t s) = s\<lparr>process_temperature_raw := n\<rparr>"
proof (cases "int_default (register_map s) ''process_temperature_pv''")
  case (Inl e)
  then have "fst (tick_thermal t s) = s\<lparr>process_temperature_raw := process_temperature_raw s\<rparr>"
    by (simp add: tick_thermal_def)
  then show ?thesis by blast
next
  case (Inr base)
  then show ?thesis by (auto simp: tick_thermal_def Let_def)
qed

lemma tick_alarms_form: "\<exists>a b c d e. fst (tick_alarms t s) =
    s\<lparr>high_alarm_acknowledged := a, low_alarm_acknowledged := b, high_level_alarm := c,
      low_level_alarm := d, elapsed_seconds := e\<rparr>"
proof (cases "bindE (int_default (register_map s) ''high_alarm_limit'') (\<lambda>high.
           bindE (int_default (register_map s) ''low_alarm_limit'') (\<lambda>low. Inr (high, low)))")
  case (Inl e)
  then have "fst (tick_alarms t s) =
    s\<lparr>high_alarm_acknowledged := high_alarm_acknowledged s,
      low_alarm_acknowledged := low_alarm_acknowledged s, high_level_alarm := high_level_alarm s,
      low_level_alarm := low_level_alarm s, elapsed_seconds := elapsed_seconds s\<rparr>"
    by (simp add: tick_alarms_def)
  then show ?thesis by blast
next
  case (Inr hl)
  obtain h l where "hl = (h, l)" by (cases hl)
  with Inr show ?thesis
    by (intro exI) (simp add: tick_alarms_def Let_def)
qed

text \<open>Everything the actuators own is settled before the flows are computed.\<close>

lemma tick_result_frame [frame]:
  "register_map (tick_result t s) = register_map (tick_actuators t s)"
  "actuator_delay_seconds (tick_result t s) = actuator_delay_seconds (tick_actuators t s)"
  "auto_hysteresis_raw (tick_result t s) = auto_hysteresis_raw (tick_actuators t s)"
  "level_setpoint (tick_result t s) = level_setpoint (tick_actuators t s)"
  "control_mode (tick_result t s) = control_mode (tick_actuators t s)"
  "pump_speed_setpoint (tick_result t s) = pump_speed_setpoint (tick_actuators t s)"
  "pump_start_count (tick_result t s) = pump_start_count (tick_actuators t s)"
  "pump_command (tick_result t s) = pump_command (tick_actuators t s)"
  "inlet_valve_command (tick_result t s) = inlet_valve_command (tick_actuators t s)"
  "pump_feedback (tick_result t s) = pump_feedback (tick_actuators t s)"
  "inlet_valve_feedback (tick_result t s) = inlet_valve_feedback (tick_actuators t s)"
  "pump_fault (tick_result t s) = pump_fault (tick_actuators t s)"
  "pump_target (tick_result t s) = pump_target (tick_actuators t s)"
  "valve_target (tick_result t s) = valve_target (tick_actuators t s)"
  "pump_delay_remaining (tick_result t s) = pump_delay_remaining (tick_actuators t s)"
  "valve_delay_remaining (tick_result t s) = valve_delay_remaining (tick_actuators t s)"
proof -
  obtain n where n: "fst (tick_thermal t (fst (tick_hydraulics t (tick_actuators t s)))) =
      (fst (tick_hydraulics t (tick_actuators t s)))\<lparr>process_temperature_raw := n\<rparr>"
    using tick_thermal_form by blast
  obtain a b c d e where "tick_result t s =
      (fst (tick_thermal t (fst (tick_hydraulics t (tick_actuators t s)))))
      \<lparr>high_alarm_acknowledged := a, low_alarm_acknowledged := b, high_level_alarm := c,
       low_level_alarm := d, elapsed_seconds := e\<rparr>"
    unfolding tick_result_def using tick_alarms_form by blast
  note eq = this [unfolded n]
  show
    "register_map (tick_result t s) = register_map (tick_actuators t s)"
    "actuator_delay_seconds (tick_result t s) = actuator_delay_seconds (tick_actuators t s)"
    "auto_hysteresis_raw (tick_result t s) = auto_hysteresis_raw (tick_actuators t s)"
    "level_setpoint (tick_result t s) = level_setpoint (tick_actuators t s)"
    "control_mode (tick_result t s) = control_mode (tick_actuators t s)"
    "pump_speed_setpoint (tick_result t s) = pump_speed_setpoint (tick_actuators t s)"
    "pump_start_count (tick_result t s) = pump_start_count (tick_actuators t s)"
    "pump_command (tick_result t s) = pump_command (tick_actuators t s)"
    "inlet_valve_command (tick_result t s) = inlet_valve_command (tick_actuators t s)"
    "pump_feedback (tick_result t s) = pump_feedback (tick_actuators t s)"
    "inlet_valve_feedback (tick_result t s) = inlet_valve_feedback (tick_actuators t s)"
    "pump_fault (tick_result t s) = pump_fault (tick_actuators t s)"
    "pump_target (tick_result t s) = pump_target (tick_actuators t s)"
    "valve_target (tick_result t s) = valve_target (tick_actuators t s)"
    "pump_delay_remaining (tick_result t s) = pump_delay_remaining (tick_actuators t s)"
    "valve_delay_remaining (tick_result t s) = valve_delay_remaining (tick_actuators t s)"
    unfolding eq by (simp_all add: tick_hydraulics_frame)
qed

section \<open>The actuators in one tick\<close>

definition valve_pending :: "WetWellProcess \<Rightarrow> rat" where
  "valve_pending s = (if inlet_valve_command s \<noteq> valve_target s then actuator_delay_seconds s
                      else valve_delay_remaining s)"

definition pump_pending :: "WetWellProcess \<Rightarrow> rat" where
  "pump_pending s = (if desired_pump_state s \<noteq> pump_target s then actuator_delay_seconds s
                     else pump_delay_remaining s)"

text \<open>Each actuator method as one update of its own attributes.\<close>

lemma request_valve_eq:
  "request_valve b s = s\<lparr>valve_target := b, valve_delay_remaining :=
     (if b \<noteq> valve_target s then actuator_delay_seconds s else valve_delay_remaining s)\<rparr>"
  by (cases s) (simp add: request_valve_def)

lemma request_pump_eq:
  "request_pump b s = s\<lparr>pump_target := b, pump_delay_remaining :=
     (if b \<noteq> pump_target s then actuator_delay_seconds s else pump_delay_remaining s)\<rparr>"
  by (cases s) (simp add: request_pump_def)

definition counted_down :: "rat \<Rightarrow> rat \<Rightarrow> rat" where
  "counted_down r t = (if 0 < r then max 0 (fl (r - t)) else r)"

definition expires :: "rat \<Rightarrow> rat \<Rightarrow> bool" where
  "expires r t \<longleftrightarrow> 0 < r \<and> max 0 (fl (r - t)) = 0"

lemma advance_valve_eq:
  "advance_valve t s = s\<lparr>
     valve_delay_remaining := counted_down (valve_delay_remaining s) t,
     inlet_valve_feedback := (if expires (valve_delay_remaining s) t then valve_target s
                              else inlet_valve_feedback s)\<rparr>"
  by (cases s) (simp add: advance_valve_def Let_def counted_down_def expires_def)

definition pump_runs :: "rat \<Rightarrow> WetWellProcess \<Rightarrow> bool" where
  "pump_runs t s = (if expires (pump_delay_remaining s) t then pump_target s \<and> \<not> pump_fault s
                    else pump_feedback s)"

lemma advance_pump_eq:
  "advance_pump t s = s\<lparr>
     pump_delay_remaining := counted_down (pump_delay_remaining s) t,
     pump_feedback := pump_runs t s,
     pump_start_count := (if pump_runs t s \<and> \<not> pump_feedback s then min 65535 (pump_start_count s + 1)
                          else pump_start_count s)\<rparr>"
  by (cases s) (simp add: advance_pump_def Let_def counted_down_def expires_def pump_runs_def)

lemma request_valve_desired: "desired_pump_state (request_valve b s) = desired_pump_state s"
  by (simp add: request_valve_eq desired_pump_state_def)

lemma tick_actuators_eq:
  "tick_actuators t s =
     advance_valve t (advance_pump t (request_pump (desired_pump_state s)
       (request_valve (inlet_valve_command s) s)))"
  by (simp add: tick_actuators_def advance_actuators_def Let_def request_valve_desired)

lemmas actuator_eqs = tick_actuators_eq request_valve_eq request_pump_eq advance_valve_eq advance_pump_eq

lemma tick_actuators_frame [frame]:
  "register_map (tick_actuators t s) = register_map s"
  "actuator_delay_seconds (tick_actuators t s) = actuator_delay_seconds s"
  "auto_hysteresis_raw (tick_actuators t s) = auto_hysteresis_raw s"
  "level_setpoint (tick_actuators t s) = level_setpoint s"
  "control_mode (tick_actuators t s) = control_mode s"
  "pump_speed_setpoint (tick_actuators t s) = pump_speed_setpoint s"
  "pump_command (tick_actuators t s) = pump_command s"
  "inlet_valve_command (tick_actuators t s) = inlet_valve_command s"
  "pump_fault (tick_actuators t s) = pump_fault s"
  "level_raw (tick_actuators t s) = level_raw s"
  "capacity_liters (tick_actuators t s) = capacity_liters s"
  "max_pump_flow_lps (tick_actuators t s) = max_pump_flow_lps s"
  "nominal_inlet_flow_lps (tick_actuators t s) = nominal_inlet_flow_lps s"
  "high_alarm_acknowledged (tick_actuators t s) = high_alarm_acknowledged s"
  "low_alarm_acknowledged (tick_actuators t s) = low_alarm_acknowledged s"
  by (simp_all add: actuator_eqs split del: if_split)

lemma tick_valve:
  "valve_target (tick_actuators t s) = inlet_valve_command s"
  "valve_delay_remaining (tick_actuators t s) = counted_down (valve_pending s) t"
  "inlet_valve_feedback (tick_actuators t s) =
     (if expires (valve_pending s) t then inlet_valve_command s else inlet_valve_feedback s)"
  by (simp_all add: actuator_eqs valve_pending_def cong: if_cong split del: if_split)

lemma tick_pump:
  "pump_target (tick_actuators t s) = desired_pump_state s"
  "pump_delay_remaining (tick_actuators t s) = counted_down (pump_pending s) t"
  "pump_feedback (tick_actuators t s) =
     (if expires (pump_pending s) t then desired_pump_state s \<and> \<not> pump_fault s else pump_feedback s)"
  "pump_start_count (tick_actuators t s) =
     (if pump_feedback (tick_actuators t s) \<and> \<not> pump_feedback s
      then min 65535 (pump_start_count s + 1) else pump_start_count s)"
  by (simp_all add: actuator_eqs pump_pending_def pump_runs_def cong: if_cong split del: if_split)

section \<open>Delayed actuators\<close>

text \<open>
  The contract of an actuator that follows a command with a delay, as seen through one-second
  ticks, and its consequence: feedback flips exactly at the tick where the delay has elapsed.
  The valve is one, and so is the pump while it is under manual control.
\<close>

locale delayed_actuator =
  fixes step :: "'s \<Rightarrow> 's" and ok :: "'s \<Rightarrow> bool"
    and command target feedback :: "'s \<Rightarrow> bool" and remaining delay :: "'s \<Rightarrow> rat"
  assumes ok_step: "ok s \<Longrightarrow> ok (step s)"
    and delay_step: "ok s \<Longrightarrow> delay (step s) = delay s"
    and delay_range: "ok s \<Longrightarrow> is_f64 (delay s) \<and> 0 < delay s \<and> delay s \<le> 2 ^ 53"
    and command_step: "ok s \<Longrightarrow> command (step s) = command s"
    and target_step: "ok s \<Longrightarrow> target (step s) = command s"
    and remaining_step: "ok s \<Longrightarrow> remaining (step s) =
      counted_down (if command s \<noteq> target s then delay s else remaining s) 1"
    and feedback_step: "ok s \<Longrightarrow> feedback (step s) =
      (if expires (if command s \<noteq> target s then delay s else remaining s) 1 then command s
       else feedback s)"
begin

lemma settled_stays:
  assumes "ok s" "command s = target s" "remaining s = 0"
  shows "ok ((step ^^ n) s) \<and> command ((step ^^ n) s) = command s \<and>
    target ((step ^^ n) s) = command s \<and> remaining ((step ^^ n) s) = 0 \<and>
    feedback ((step ^^ n) s) = feedback s"
  using assms
  by (induction n) (simp_all add: ok_step command_step target_step remaining_step feedback_step
      counted_down_def expires_def)

lemma pending_step:
  assumes "ok s" "command s = target s" "is_f64 (remaining s)" "1 < remaining s" "remaining s \<le> 2 ^ 53"
  shows "remaining (step s) = remaining s - 1" "feedback (step s) = feedback s"
    "is_f64 (remaining s - 1)"
proof -
  have "is_f64 (remaining s - 1)" using assms by (intro f64_pred) simp_all
  then show "remaining (step s) = remaining s - 1" "feedback (step s) = feedback s"
    "is_f64 (remaining s - 1)"
    using assms by (simp_all add: remaining_step feedback_step counted_down_def expires_def fl_exact)
qed

lemma expiring_step:
  assumes "ok s" "command s = target s" "0 < remaining s" "remaining s \<le> 1"
  shows "remaining (step s) = 0" "feedback (step s) = command s"
  using assms f64.rnd_nonpos [of "remaining s - 1"]
  by (simp_all add: remaining_step feedback_step counted_down_def expires_def max_def)

lemma countdown:
  assumes "ok s" "command s = target s" "is_f64 (remaining s)" "0 < remaining s" "remaining s \<le> 2 ^ 53"
  shows "feedback ((step ^^ n) s) = (if int n < \<lceil>remaining s\<rceil> then feedback s else command s)"
  using assms
proof (induction n arbitrary: s)
  case 0
  then show ?case by simp
next
  case (Suc n)
  show ?case
  proof (cases "1 < remaining s")
    case True
    note p = pending_step [OF Suc.prems(1,2,3) True Suc.prems(5)]
    have c: "command (step s) = target (step s)" "command (step s) = command s"
      using Suc.prems by (simp_all add: command_step target_step)
    have "feedback ((step ^^ n) (step s)) =
        (if int n < \<lceil>remaining (step s)\<rceil> then feedback (step s) else command (step s))"
      using Suc.prems True p c by (intro Suc.IH) (simp_all add: ok_step)
    then show ?thesis using p c by (simp add: funpow_Suc_right ceiling_diff_one del: funpow.simps)
  next
    case False
    then have le: "remaining s \<le> 1" by simp
    note e = expiring_step [OF Suc.prems(1,2,4) le]
    have "\<lceil>remaining s\<rceil> = 1" using Suc.prems(4) le by (intro ceiling_unique) simp_all
    moreover have "feedback ((step ^^ n) (step s)) = command s"
      using settled_stays [of "step s" n] Suc.prems e by (simp add: ok_step command_step target_step)
    ultimately show ?thesis by (simp add: funpow_Suc_right del: funpow.simps)
  qed
qed

text \<open>After a new command, the feedback stays for \<open>\<lceil>delay\<rceil> - 1\<close> ticks and then follows.\<close>

lemma follows_after_delay:
  assumes "ok s" "command s \<noteq> target s"
  shows "feedback ((step ^^ n) s) = (if int n < \<lceil>delay s\<rceil> then feedback s else command s)"
proof (cases n)
  case 0
  then show ?thesis using delay_range [OF assms(1)] by simp
next
  case (Suc m)
  note d = delay_range [OF assms(1)]
  have c: "command (step s) = target (step s)" "command (step s) = command s" "ok (step s)"
    using assms by (simp_all add: command_step target_step ok_step)
  have fold: "feedback ((step ^^ n) s) = feedback ((step ^^ m) (step s))"
    by (simp add: Suc funpow_Suc_right del: funpow.simps)
  show ?thesis
  proof (cases "1 < delay s")
    case True
    have f: "is_f64 (delay s - 1)" using d True by (intro f64_pred) simp_all
    then have r: "remaining (step s) = delay s - 1" "feedback (step s) = feedback s"
      using assms True
      by (simp_all add: remaining_step feedback_step counted_down_def expires_def fl_exact)
    then have "feedback ((step ^^ m) (step s)) =
        (if int m < \<lceil>delay s - 1\<rceil> then feedback s else command s)"
      using countdown [OF c(3,1), of m] f d True c(2) by simp
    then show ?thesis unfolding fold by (auto simp: Suc)
  next
    case False
    then have le: "delay s \<le> 1" by simp
    have "\<lceil>delay s\<rceil> = 1" using d le by (intro ceiling_unique) simp_all
    moreover have "remaining (step s) = 0" "feedback (step s) = command s"
      using assms d le f64.rnd_nonpos [of "delay s - 1"]
      by (simp_all add: remaining_step feedback_step counted_down_def expires_def max_def)
    ultimately show ?thesis using settled_stays [OF c(3,1), of m] unfolding fold by (simp add: Suc c(2))
  qed
qed

end

section \<open>The two actuators of the wet well\<close>

definition tick1 :: "WetWellProcess \<Rightarrow> WetWellProcess" where
  "tick1 s = fst (tick (PInt 1) s)"

lemma tick_seconds_1: "tick_seconds (PInt 1) = Inr 1"
  by (simp add: tick_seconds_def float_of_int_small)

lemma tick1_eq: "process_ok s \<Longrightarrow> tick1 s = tick_result 1 s"
  by (simp add: tick1_def tick_eq(1) [OF _ tick_seconds_1])

lemma tick1_ok: "process_ok s \<Longrightarrow> process_ok (tick1 s)"
  unfolding tick1_def by (rule tick_ok)

lemma tick1_run_ok: "process_ok s \<Longrightarrow> process_ok ((tick1 ^^ n) s)"
  by (induction n) (simp_all add: tick1_ok)

text \<open>The bound on the delay is the one \<open>validate_register_map.py\<close> enforces.\<close>

definition delay_ok :: "WetWellProcess \<Rightarrow> bool" where
  "delay_ok s \<longleftrightarrow> process_ok s \<and> 0 < actuator_delay_seconds s \<and> actuator_delay_seconds s \<le> 60"

definition manual_ok :: "WetWellProcess \<Rightarrow> bool" where
  "manual_ok s \<longleftrightarrow> delay_ok s \<and> control_mode s = 0 \<and> \<not> pump_fault s"

lemma manual_desired: "control_mode s = 0 \<Longrightarrow> desired_pump_state s = pump_command s"
  by (simp add: desired_pump_state_def)

interpretation valve: delayed_actuator tick1 delay_ok inlet_valve_command valve_target
  inlet_valve_feedback valve_delay_remaining actuator_delay_seconds
proof unfold_locales
  fix s assume ok: "delay_ok s"
  then have p: "process_ok s" by (simp add: delay_ok_def)
  show "delay_ok (tick1 s)"
    using ok p tick1_ok [OF p] by (simp add: delay_ok_def tick1_eq frame)
  show "is_f64 (actuator_delay_seconds s) \<and> 0 < actuator_delay_seconds s \<and>
      actuator_delay_seconds s \<le> 2 ^ 53"
    using ok by (simp add: delay_ok_def process_ok_defs)
qed (simp_all add: delay_ok_def tick1_eq frame tick_valve valve_pending_def)

interpretation manual_pump: delayed_actuator tick1 manual_ok pump_command pump_target
  pump_feedback pump_delay_remaining actuator_delay_seconds
proof unfold_locales
  fix s assume ok: "manual_ok s"
  then have p: "process_ok s" and d: "delay_ok s" by (simp_all add: manual_ok_def delay_ok_def)
  show "manual_ok (tick1 s)"
    using ok valve.ok_step [OF d] by (simp add: manual_ok_def tick1_eq [OF p] frame)
  show "is_f64 (actuator_delay_seconds s) \<and> 0 < actuator_delay_seconds s \<and>
      actuator_delay_seconds s \<le> 2 ^ 53"
    using d by (rule valve.delay_range)
qed (simp_all add: manual_ok_def delay_ok_def tick1_eq frame tick_pump pump_pending_def manual_desired)

section \<open>Automatic control\<close>

text \<open>A two-threshold switch with a dead band: the reference for automatic control.\<close>

definition schmitt :: "bool \<Rightarrow> rat \<Rightarrow> rat \<Rightarrow> rat \<Rightarrow> bool" where
  "schmitt on low high x = (if on then low < x else high \<le> x)"

lemma schmitt_dead_band: "low < x \<Longrightarrow> x < high \<Longrightarrow> schmitt on low high x = on"
  by (simp add: schmitt_def)

lemma auto_desired:
  "control_mode s \<noteq> 0 \<Longrightarrow> desired_pump_state s =
     schmitt (pump_feedback s \<or> pump_target s) (of_int (level_setpoint s - auto_hysteresis_raw s))
       (of_int (level_setpoint s + auto_hysteresis_raw s)) (level_raw s)"
  by (simp add: desired_pump_state_def schmitt_def)

text \<open>A tick does not read \<open>pump_command\<close> in automatic mode.\<close>

lemma tick_actuators_pump_command:
  "control_mode s \<noteq> 0 \<Longrightarrow>
     tick_actuators t (s\<lparr>pump_command := b\<rparr>) = (tick_actuators t s)\<lparr>pump_command := b\<rparr>"
proof -
  assume "control_mode s \<noteq> 0"
  then have d: "desired_pump_state (s\<lparr>pump_command := b\<rparr>) = desired_pump_state s"
    by (simp add: desired_pump_state_def)
  show ?thesis
    unfolding tick_actuators_eq d
    by (simp add: actuator_eqs pump_runs_def cong: if_cong split del: if_split)
qed

lemma flows_pump_command:
  "inlet_lps (s\<lparr>pump_command := b\<rparr>) = inlet_lps s" "speed_fraction (s\<lparr>pump_command := b\<rparr>) = speed_fraction s"
  "outlet_lps f (s\<lparr>pump_command := b\<rparr>) = outlet_lps f s" "pump_current f (s\<lparr>pump_command := b\<rparr>) = pump_current f s"
  "level_delta_raw t f (s\<lparr>pump_command := b\<rparr>) = level_delta_raw t f s"
  by (simp_all add: inlet_lps_def speed_fraction_def outlet_lps_def pump_current_def level_delta_raw_def)

lemma tick_statements_pump_command:
  "tick_hydraulics t (s\<lparr>pump_command := b\<rparr>) = apfst (pump_command_update (\<lambda>_. b)) (tick_hydraulics t s)"
  "tick_thermal t (s\<lparr>pump_command := b\<rparr>) = apfst (pump_command_update (\<lambda>_. b)) (tick_thermal t s)"
  "tick_alarms t (s\<lparr>pump_command := b\<rparr>) = apfst (pump_command_update (\<lambda>_. b)) (tick_alarms t s)"
  "assert_invariants (s\<lparr>pump_command := b\<rparr>) = apfst (pump_command_update (\<lambda>_. b)) (assert_invariants s)"
  by (simp_all add: tick_hydraulics_def tick_thermal_def tick_alarms_def assert_invariants_def
      flows_pump_command thermal_phase_def Let_def split: sum.split prod.split)

lemma run_stmts_commute:
  assumes "\<And>c s. c \<in> set cs \<Longrightarrow> c (f s) = apfst f (c s)"
  shows "run_stmts cs (f s) = apfst f (run_stmts cs s)"
  using assms
proof (induction cs arbitrary: s)
  case Nil
  then show ?case by simp
next
  case (Cons c cs)
  then have c: "c (f s) = apfst f (c s)" by simp
  show ?case
  proof (cases "snd (c s)")
    case None
    then have "run_stmts (c # cs) (f s) = run_stmts cs (fst (c (f s)))"
      by (intro run_stmts_ok) (simp only: c snd_apfst)
    also have "\<dots> = run_stmts cs (f (fst (c s)))" by (simp only: c fst_apfst)
    also have "\<dots> = apfst f (run_stmts cs (fst (c s)))"
      by (rule Cons.IH) (rule Cons.prems, simp)
    also have "run_stmts cs (fst (c s)) = run_stmts (c # cs) s"
      using None by (rule run_stmts_ok [symmetric])
    finally show ?thesis .
  next
    case (Some e)
    then have "run_stmts (c # cs) (f s) = c (f s)"
      by (intro run_stmts_raise) (simp only: c snd_apfst)
    also have "\<dots> = apfst f (run_stmts (c # cs) s)"
      using run_stmts_raise [of c s e cs] Some c by (simp only:)
    finally show ?thesis .
  qed
qed

lemma tick_pump_command:
  assumes "control_mode s \<noteq> 0"
  shows "tick v (s\<lparr>pump_command := b\<rparr>) = apfst (pump_command_update (\<lambda>_. b)) (tick v s)"
proof (cases "tick_seconds v")
  case (Inl e)
  then show ?thesis by (simp add: tick_def)
next
  case (Inr t)
  have "run_stmts [tick_hydraulics t, tick_thermal t, tick_alarms t, assert_invariants]
      (pump_command_update (\<lambda>_. b) (tick_actuators t s)) =
    apfst (pump_command_update (\<lambda>_. b))
      (run_stmts [tick_hydraulics t, tick_thermal t, tick_alarms t, assert_invariants] (tick_actuators t s))"
    by (rule run_stmts_commute) (auto simp: tick_statements_pump_command)
  with Inr show ?thesis
    by (simp add: tick_def run_stmts_ok tick_actuators_pump_command [OF assms])
qed

section \<open>Alarms and the start counter\<close>

lemma tick_result_alarms:
  assumes "process_ok s" "0 \<le> t"
  obtains high low where
    "int_default (register_map s) ''high_alarm_limit'' = Inr high"
    "int_default (register_map s) ''low_alarm_limit'' = Inr low"
    "high_level_alarm (tick_result t s) \<longleftrightarrow> high \<le> round_half_even (level_raw (tick_result t s))"
    "low_level_alarm (tick_result t s) \<longleftrightarrow> round_half_even (level_raw (tick_result t s)) \<le> low"
    "high_alarm_acknowledged (tick_result t s) \<longleftrightarrow>
       high_level_alarm (tick_result t s) \<and> high_alarm_acknowledged s"
    "low_alarm_acknowledged (tick_result t s) \<longleftrightarrow>
       low_level_alarm (tick_result t s) \<and> low_alarm_acknowledged s"
proof -
  define u where "u = fst (tick_thermal t (fst (tick_hydraulics t (tick_actuators t s))))"
  have u: "process_ok u"
    unfolding u_def using assms by (intro tick_thermal_ok tick_hydraulics_ok tick_actuators_ok)
  obtain n where "u = (fst (tick_hydraulics t (tick_actuators t s)))\<lparr>process_temperature_raw := n\<rparr>"
    unfolding u_def using tick_thermal_form by blast
  then have same: "register_map u = register_map s"
    "high_alarm_acknowledged u = high_alarm_acknowledged s"
    "low_alarm_acknowledged u = low_alarm_acknowledged s"
    by (simp_all add: frame)
  have res: "tick_result t s = fst (tick_alarms t u)" by (simp add: tick_result_def u_def)
  show thesis
    by (rule tick_alarms_eq [OF u, of t]; rule that; simp add: res same)
qed

lemma tick_start_count:
  "pump_start_count (tick_result t s) =
     (if pump_feedback (tick_result t s) \<and> \<not> pump_feedback s
      then min 65535 (pump_start_count s + 1) else pump_start_count s)"
  by (simp add: tick_result_frame tick_pump(4))

lemma tick_temperature:
  assumes "process_ok s" "0 \<le> t" "int_default (register_map s) ''process_temperature_pv'' = Inr base"
  shows "base \<le> process_temperature_raw (tick_result t s)"
    "process_temperature_raw (tick_result t s) \<le> base + 10"
proof -
  define u where "u = fst (tick_hydraulics t (tick_actuators t s))"
  have b: "int_default (register_map u) ''process_temperature_pv'' = Inr base"
    using assms(3) by (simp add: u_def frame)
  have p: "0 \<le> thermal_phase t u" "thermal_phase t u < 20" by (simp_all add: thermal_phase_def)
  obtain x1 x2 x3 x4 x5 where "tick_result t s = (fst (tick_thermal t u))
      \<lparr>high_alarm_acknowledged := x1, low_alarm_acknowledged := x2, high_level_alarm := x3,
       low_level_alarm := x4, elapsed_seconds := x5\<rparr>"
    unfolding tick_result_def u_def using tick_alarms_form by blast
  then have "process_temperature_raw (tick_result t s) = process_temperature_raw (fst (tick_thermal t u))"
    by simp
  then show "base \<le> process_temperature_raw (tick_result t s)"
    "process_temperature_raw (tick_result t s) \<le> base + 10"
    using b p by (simp_all add: tick_thermal_def Let_def)
qed

section \<open>Runs\<close>

text \<open>The public operations that change the process, in any order.\<close>

datatype process_op = Tick pyval | Write string pyval

fun process_step :: "WetWellProcess \<Rightarrow> process_op \<Rightarrow> WetWellProcess" where
  "process_step s (Tick v) = fst (tick v s)"
| "process_step s (Write k v) = fst (write_raw s k v)"

interpretation process: machine process_step process_ok
proof unfold_locales
  fix s a assume "process_ok s"
  then show "process_ok (process_step s a)" by (cases a) (simp_all add: tick_ok write_raw_ok)
qed

lemma write_raw_start_count: "pump_start_count (fst (write_raw s k v)) = pump_start_count s"
  by (auto simp: write_raw_def apply_write_def split: sum.splits option.splits if_splits)

lemma process_step_start_count: "process_ok s \<Longrightarrow> pump_start_count s \<le> pump_start_count (process_step s a)"
proof (cases a)
  case (Tick v)
  assume ok: "process_ok s"
  then have "pump_start_count s \<le> 65535" by (simp add: process_ok_defs)
  then show ?thesis
    by (cases "tick_seconds v")
      (simp_all add: Tick tick_invalid tick_eq(1) [OF ok] tick_start_count)
qed (simp add: write_raw_start_count)

end
