(* ===== verification/Default_Map.thy ===== *)
theory Default_Map
  imports Register_Map
begin

text \<open>
  The checked-in manifest \<open>register_map.v1.json\<close> as a Python value, and the register map
  built from it.  The decimal fraction 0.01 is the binary64 number \<open>json.load\<close> returns.
  This is the profile the pot ships with, and the concrete input of the witnesses.
\<close>

section \<open>The document\<close>

definition centi_f64 :: rat where
  "centi_f64 = 5764607523034235 / 576460752303423488"

definition centi :: pyval where
  "centi = PFloat (Fin centi_f64)"

definition read_only :: "(string \<times> pyval) list" where
  "read_only = [(''writable'', PBool False)]"

definition writing :: "string \<Rightarrow> (string \<times> pyval) list" where
  "writing e = [(''writable'', PBool True), (''write_effect'', PStr e)]"

text \<open>One entry of \<open>registers\<close>, its fields in the order of the file.\<close>

definition point ::
  "string \<Rightarrow> string \<Rightarrow> int \<Rightarrow> int \<Rightarrow> string \<Rightarrow> pyval \<Rightarrow> string \<Rightarrow> int \<Rightarrow> int \<Rightarrow> int \<Rightarrow>
     (string \<times> pyval) list \<Rightarrow> string \<Rightarrow> pyval" where
  "point k a n r dt sc u mn mx df extra ds = PDict (
     [(''key'', PStr k), (''area'', PStr a), (''address'', PInt n), (''reference'', PInt r),
      (''data_type'', PStr dt), (''scale'', sc), (''unit'', PStr u),
      (''minimum'', PInt mn), (''maximum'', PInt mx), (''default'', PInt df)] @
     extra @ [(''description'', PStr ds)])"

definition default_registers :: "pyval list" where
  "default_registers = [
      point ''tank_level_pv'' ''input_register'' 32 30033 ''uint16'' centi ''%'' 0 10000 4700
        read_only ''Sump chamber level, measured'',
      point ''inlet_flow_pv'' ''input_register'' 33 30034 ''uint16'' centi ''L/s'' 0 5000 720
        read_only ''Incoming flow, derived from the inlet valve state'',
      point ''outlet_flow_pv'' ''input_register'' 34 30035 ''uint16'' centi ''L/s'' 0 5000 0
        read_only ''Discharge flow, derived from pump speed'',
      point ''pump_current_pv'' ''input_register'' 30 30031 ''uint16'' centi ''A'' 0 2500 0
        read_only ''Motor current drawn by the discharge pump'',
      point ''process_temperature_pv'' ''input_register'' 31 30032 ''int16'' centi ''degC''
        (- 2000) 8000 2130 read_only ''Enclosure temperature'',
      point ''level_setpoint'' ''holding_register'' 42 40043 ''uint16'' centi ''%'' 3000 8000
        5100 (writing ''Changes automatic pump start/stop target with hysteresis'')
        ''Target level the automatic loop holds'',
      point ''high_alarm_limit'' ''holding_register'' 44 40045 ''uint16'' centi ''%'' 6000 9500
        8200 read_only ''Level at which the high alarm asserts'',
      point ''low_alarm_limit'' ''holding_register'' 45 40046 ''uint16'' centi ''%'' 500 4000
        1800 read_only ''Level at which the low alarm asserts'',
      point ''pump_start_count'' ''holding_register'' 46 40047 ''uint16'' (PInt 1) ''count'' 0
        65535 386 read_only ''Lifetime count of pump starts'',
      point ''control_mode'' ''holding_register'' 41 40042 ''enum16'' (PInt 1) ''enum'' 0 1 1
        ((''enum'', PDict [(''0'', PStr ''MANUAL''), (''1'', PStr ''AUTO'')]) #
        writing ''Selects whether pump_cmd or automatic level control drives the pump'')
        ''Selects automatic or manual operation'',
      point ''pump_speed_setpoint'' ''holding_register'' 43 40044 ''uint16'' centi ''%'' 2000
        10000 6800
        (writing ''Changes synthetic discharge flow and motor current while pump is running'')
        ''Commanded pump speed'',
      point ''firmware_major_minor'' ''holding_register'' 40 40041 ''uint16'' centi ''version''
        0 65535 103 read_only ''Controller firmware revision, packed major/minor'',
      point ''pump_command'' ''coil'' 13 14 ''bool'' (PInt 1) ''bool'' 0 1 0
        (writing ''Starts or stops pump in MANUAL mode; ignored by controller in AUTO'')
        ''Manual run request for the discharge pump'',
      point ''inlet_valve_command'' ''coil'' 14 15 ''bool'' (PInt 1) ''bool'' 0 1 1
        (writing ''Opens or closes synthetic inlet and changes inlet flow'')
        ''Open or close request for the inlet valve'',
      point ''alarm_acknowledge'' ''coil'' 12 13 ''bool'' (PInt 1) ''bool'' 0 1 0
        (writing ''Latches acknowledgement for active synthetic alarms and self-resets'')
        ''Acknowledges a latched alarm'',
      point ''pump_feedback'' ''discrete_input'' 13 10014 ''bool'' (PInt 1) ''bool'' 0 1 0
        read_only ''Discharge pump reports running'',
      point ''inlet_valve_feedback'' ''discrete_input'' 14 10015 ''bool'' (PInt 1) ''bool'' 0 1
        1 read_only ''Inlet valve reports open'',
      point ''high_level_alarm'' ''discrete_input'' 15 10016 ''bool'' (PInt 1) ''bool'' 0 1 0
        read_only ''High level alarm is asserted'',
      point ''low_level_alarm'' ''discrete_input'' 16 10017 ''bool'' (PInt 1) ''bool'' 0 1 0
        read_only ''Low level alarm is asserted'',
      point ''pump_fault'' ''discrete_input'' 17 10018 ''bool'' (PInt 1) ''bool'' 0 1 0
        read_only ''Discharge pump reports a fault'',
      point ''auto_control_active'' ''discrete_input'' 12 10013 ''bool'' (PInt 1) ''bool'' 0 1 1
        read_only ''Automatic loop is in control'']"

definition default_document :: pyval where
  "default_document = PDict [
    (''schema_version'', PStr ''1.0.0''),
    (''map_version'', PStr ''0.1.0''),
    (''addressing'', PDict [
      (''protocol'', PStr ''zero_based''),
      (''documentation'', PStr ''Addresses are Modbus PDU offsets; reference notation is informational only.'')]),
    (''device'', PDict [
      (''unit_id'', PInt 7),
      (''vendor_name'', PStr ''Northwind Instruments''),
      (''product_code'', PStr ''SCL-210''),
      (''product_name'', PStr ''SCL-210 Wet Sump Manager''),
      (''model_name'', PStr ''SCL-210-LS''),
      (''revision'', PStr ''1.3.0''),
      (''vendor_url'', PStr ''''),
      (''user_application_name'', PStr ''Sump Supervision''),
      (''synthetic_identity'', PBool True)]),
    (''process'', PDict [
      (''name'', PStr ''Community demonstration sump rig''),
      (''tick_seconds'', PFloat (Fin 1)),
      (''deterministic_seed'', PInt 1701),
      (''capacity_liters'', PFloat (Fin 6500)),
      (''max_pump_flow_lps'', PFloat (Fin (27 / 2))),
      (''nominal_inlet_flow_lps'', PFloat (Fin (8106479329266893 / 1125899906842624))),
      (''auto_hysteresis_raw'', PInt 400),
      (''actuator_delay_seconds'', PFloat (Fin (3 / 2)))]),
    (''registers'', PList default_registers),
    (''invariants'', PList [
      PStr ''tank_level_pv remains within 0.00 and 100.00 percent'',
      PStr ''pump_feedback is process-derived and is not a direct alias of pump_command'',
      PStr ''pump_command affects pump_feedback only in MANUAL mode'',
      PStr ''AUTO mode uses level_setpoint with hysteresis'',
      PStr ''inlet_valve_feedback follows command after a deterministic delay'',
      PStr ''read-only values cannot be changed by Modbus writes'',
      PStr ''alarm_acknowledge does not clear an active alarm condition'',
      PStr ''all state and identities are synthetic''])]"

section \<open>The map built from it\<close>

definition defn ::
  "string \<Rightarrow> string \<Rightarrow> int \<Rightarrow> int \<Rightarrow> string \<Rightarrow> rat \<Rightarrow> string \<Rightarrow> int \<Rightarrow> int \<Rightarrow> int \<Rightarrow>
     string option \<Rightarrow> string \<Rightarrow> RegisterDefinition" where
  "defn k a n r dt sc u mn mx df eff ds = \<lparr>
     key = k, area = a, address = n, reference = r, data_type = dt, scale = Fin sc,
     unit_text = u, minimum = PInt mn, maximum = PInt mx, default_value = PInt df,
     writable = (eff \<noteq> None), description = ds, write_effect = eff\<rparr>"

lemma defn_sel [simp]:
  "key (defn k a n r dt sc u mn mx df eff ds) = k"
  "area (defn k a n r dt sc u mn mx df eff ds) = a"
  "address (defn k a n r dt sc u mn mx df eff ds) = n"
  "data_type (defn k a n r dt sc u mn mx df eff ds) = dt"
  "minimum (defn k a n r dt sc u mn mx df eff ds) = PInt mn"
  "maximum (defn k a n r dt sc u mn mx df eff ds) = PInt mx"
  "default_value (defn k a n r dt sc u mn mx df eff ds) = PInt df"
  "writable (defn k a n r dt sc u mn mx df eff ds) = (eff \<noteq> None)"
  "write_effect (defn k a n r dt sc u mn mx df eff ds) = eff"
  by (simp_all add: defn_def)

definition default_definitions :: "RegisterDefinition list" where
  "default_definitions = [
      defn ''tank_level_pv'' ''input_register'' 32 30033 ''uint16'' centi_f64 ''%'' 0 10000 4700
        None ''Sump chamber level, measured'',
      defn ''inlet_flow_pv'' ''input_register'' 33 30034 ''uint16'' centi_f64 ''L/s'' 0 5000 720
        None ''Incoming flow, derived from the inlet valve state'',
      defn ''outlet_flow_pv'' ''input_register'' 34 30035 ''uint16'' centi_f64 ''L/s'' 0 5000 0
        None ''Discharge flow, derived from pump speed'',
      defn ''pump_current_pv'' ''input_register'' 30 30031 ''uint16'' centi_f64 ''A'' 0 2500 0
        None ''Motor current drawn by the discharge pump'',
      defn ''process_temperature_pv'' ''input_register'' 31 30032 ''int16'' centi_f64 ''degC''
        (- 2000) 8000 2130 None ''Enclosure temperature'',
      defn ''level_setpoint'' ''holding_register'' 42 40043 ''uint16'' centi_f64 ''%'' 3000 8000
        5100 (Some ''Changes automatic pump start/stop target with hysteresis'')
        ''Target level the automatic loop holds'',
      defn ''high_alarm_limit'' ''holding_register'' 44 40045 ''uint16'' centi_f64 ''%'' 6000
        9500 8200 None ''Level at which the high alarm asserts'',
      defn ''low_alarm_limit'' ''holding_register'' 45 40046 ''uint16'' centi_f64 ''%'' 500 4000
        1800 None ''Level at which the low alarm asserts'',
      defn ''pump_start_count'' ''holding_register'' 46 40047 ''uint16'' 1 ''count'' 0 65535 386
        None ''Lifetime count of pump starts'',
      defn ''control_mode'' ''holding_register'' 41 40042 ''enum16'' 1 ''enum'' 0 1 1
        (Some ''Selects whether pump_cmd or automatic level control drives the pump'')
        ''Selects automatic or manual operation'',
      defn ''pump_speed_setpoint'' ''holding_register'' 43 40044 ''uint16'' centi_f64 ''%'' 2000
        10000 6800
        (Some ''Changes synthetic discharge flow and motor current while pump is running'')
        ''Commanded pump speed'',
      defn ''firmware_major_minor'' ''holding_register'' 40 40041 ''uint16'' centi_f64
        ''version'' 0 65535 103 None ''Controller firmware revision, packed major/minor'',
      defn ''pump_command'' ''coil'' 13 14 ''bool'' 1 ''bool'' 0 1 0
        (Some ''Starts or stops pump in MANUAL mode; ignored by controller in AUTO'')
        ''Manual run request for the discharge pump'',
      defn ''inlet_valve_command'' ''coil'' 14 15 ''bool'' 1 ''bool'' 0 1 1
        (Some ''Opens or closes synthetic inlet and changes inlet flow'')
        ''Open or close request for the inlet valve'',
      defn ''alarm_acknowledge'' ''coil'' 12 13 ''bool'' 1 ''bool'' 0 1 0
        (Some ''Latches acknowledgement for active synthetic alarms and self-resets'')
        ''Acknowledges a latched alarm'',
      defn ''pump_feedback'' ''discrete_input'' 13 10014 ''bool'' 1 ''bool'' 0 1 0 None
        ''Discharge pump reports running'',
      defn ''inlet_valve_feedback'' ''discrete_input'' 14 10015 ''bool'' 1 ''bool'' 0 1 1 None
        ''Inlet valve reports open'',
      defn ''high_level_alarm'' ''discrete_input'' 15 10016 ''bool'' 1 ''bool'' 0 1 0 None
        ''High level alarm is asserted'',
      defn ''low_level_alarm'' ''discrete_input'' 16 10017 ''bool'' 1 ''bool'' 0 1 0 None
        ''Low level alarm is asserted'',
      defn ''pump_fault'' ''discrete_input'' 17 10018 ''bool'' 1 ''bool'' 0 1 0 None
        ''Discharge pump reports a fault'',
      defn ''auto_control_active'' ''discrete_input'' 12 10013 ''bool'' 1 ''bool'' 0 1 1 None
        ''Automatic loop is in control'']"

lemma from_dict_read_only:
  "from_dict (point k a n r dt centi u mn mx df read_only ds) =
     Inr (defn k a n r dt centi_f64 u mn mx df None ds)"
  "from_dict (point k a n r dt (PInt 1) u mn mx df read_only ds) =
     Inr (defn k a n r dt 1 u mn mx df None ds)"
  by (simp_all add: from_dict_def point_def read_only_def centi_def defn_def float_of_int_small)

lemma from_dict_writing:
  "from_dict (point k a n r dt centi u mn mx df (writing (c # e)) ds) =
     Inr (defn k a n r dt centi_f64 u mn mx df (Some (c # e)) ds)"
  "from_dict (point k a n r dt (PInt 1) u mn mx df (writing (c # e)) ds) =
     Inr (defn k a n r dt 1 u mn mx df (Some (c # e)) ds)"
  "from_dict (point k a n r dt (PInt 1) u mn mx df ((''enum'', v) # writing (c # e)) ds) =
     Inr (defn k a n r dt 1 u mn mx df (Some (c # e)) ds)"
  by (simp_all add: from_dict_def point_def writing_def centi_def defn_def float_of_int_small)

lemma default_definitions_parsed: "mapE from_dict default_registers = Inr default_definitions"
  unfolding default_registers_def default_definitions_def
  by (simp only: mapE.simps from_dict_read_only from_dict_writing bindE_simps)

definition default_map :: RegisterMap where
  "default_map = \<lparr>document = default_document, definitions = default_definitions,
     by_key = map (\<lambda>d. (key d, d)) default_definitions,
     by_location = map (\<lambda>d. ((area d, address d), d)) default_definitions\<rparr>"

lemma default_keys_distinct: "distinct (map key default_definitions)"
  by (simp add: default_definitions_def)

lemma default_locations_distinct: "distinct (map (\<lambda>d. (area d, address d)) default_definitions)"
  by (simp add: default_definitions_def)

lemma default_map_init: "RegisterMap_init default_document = Inr default_map"
proof -
  have regs: "bindE (py_getitem default_document ''registers'') py_iter = Inr default_registers"
    by (simp add: default_document_def)
  show ?thesis
    using default_keys_distinct default_locations_distinct
    by (simp add: RegisterMap_init_def regs default_definitions_parsed default_map_def
        dict_of_fresh comp_def)
qed

lemma default_map_wf: "wf_map default_map"
  using default_map_init by (rule RegisterMap_init_wf)

end
