(* ===== verification/Default_Process.thy ===== *)
theory Default_Process
  imports Default_Map Wet_Well_Writes
begin

text \<open>
  The process the runtime starts: \<open>WetWellProcess()\<close> over the checked-in manifest, as an
  explicit state that satisfies the invariant.  It is the concrete input of the witnesses.
\<close>

definition default_process :: WetWellProcess where
  "default_process =
     (blank_process default_map 6500 (27/2) (8106479329266893 / 1125899906842624) 400 (3/2))\<lparr>
       level_raw := 4700, level_setpoint := 5100, control_mode := 1, pump_speed_setpoint := 6800,
       pump_start_count := 386, inlet_valve_command := True, inlet_valve_feedback := True,
       valve_target := True, inlet_flow_raw := 720, process_temperature_raw := 2130\<rparr>"

lemma default_process_map [simp]: "register_map default_process = default_map"
  by (simp add: default_process_def blank_process_def)

lemma default_map_sel [simp]:
  "definitions default_map = default_definitions" "document default_map = default_document"
  by (simp_all add: default_map_def)

lemma default_of_default [simp]:
  "default_of default_map ''tank_level_pv'' = Inr (PInt 4700)"
  "default_of default_map ''level_setpoint'' = Inr (PInt 5100)"
  "default_of default_map ''control_mode'' = Inr (PInt 1)"
  "default_of default_map ''pump_speed_setpoint'' = Inr (PInt 6800)"
  "default_of default_map ''pump_start_count'' = Inr (PInt 386)"
  "default_of default_map ''pump_command'' = Inr (PInt 0)"
  "default_of default_map ''inlet_valve_command'' = Inr (PInt 1)"
  "default_of default_map ''pump_feedback'' = Inr (PInt 0)"
  "default_of default_map ''inlet_valve_feedback'' = Inr (PInt 1)"
  "default_of default_map ''pump_fault'' = Inr (PInt 0)"
  "default_of default_map ''inlet_flow_pv'' = Inr (PInt 720)"
  "default_of default_map ''outlet_flow_pv'' = Inr (PInt 0)"
  "default_of default_map ''pump_current_pv'' = Inr (PInt 0)"
  "default_of default_map ''process_temperature_pv'' = Inr (PInt 2130)"
proof -
  have "dict_of (map (\<lambda>item. (key item, default_value item)) default_definitions) =
      map (\<lambda>item. (key item, default_value item)) default_definitions"
    using default_keys_distinct by (intro dict_of_fresh) (simp add: comp_def)
  note eq = this [unfolded default_definitions_def list.map defn_sel]
  show
    "default_of default_map ''tank_level_pv'' = Inr (PInt 4700)"
    "default_of default_map ''level_setpoint'' = Inr (PInt 5100)"
    "default_of default_map ''control_mode'' = Inr (PInt 1)"
    "default_of default_map ''pump_speed_setpoint'' = Inr (PInt 6800)"
    "default_of default_map ''pump_start_count'' = Inr (PInt 386)"
    "default_of default_map ''pump_command'' = Inr (PInt 0)"
    "default_of default_map ''inlet_valve_command'' = Inr (PInt 1)"
    "default_of default_map ''pump_feedback'' = Inr (PInt 0)"
    "default_of default_map ''inlet_valve_feedback'' = Inr (PInt 1)"
    "default_of default_map ''pump_fault'' = Inr (PInt 0)"
    "default_of default_map ''inlet_flow_pv'' = Inr (PInt 720)"
    "default_of default_map ''outlet_flow_pv'' = Inr (PInt 0)"
    "default_of default_map ''pump_current_pv'' = Inr (PInt 0)"
    "default_of default_map ''process_temperature_pv'' = Inr (PInt 2130)"
    by (simp_all add: default_of_def default_definitions_def eq)
qed

lemma default_process_init: "WetWellProcess_init default_map = Inr default_process"
proof -
  have level: "float_of_int 4700 = Inr 4700" using float_of_int_small [of 4700] by simp
  have "py_getitem default_document ''process'' = Inr (PDict [
      (''name'', PStr ''Community demonstration sump rig''),
      (''tick_seconds'', PFloat (Fin 1)),
      (''deterministic_seed'', PInt 1701),
      (''capacity_liters'', PFloat (Fin 6500)),
      (''max_pump_flow_lps'', PFloat (Fin (27 / 2))),
      (''nominal_inlet_flow_lps'', PFloat (Fin (8106479329266893 / 1125899906842624))),
      (''auto_hysteresis_raw'', PInt 400),
      (''actuator_delay_seconds'', PFloat (Fin (3 / 2)))])"
    by (simp add: default_document_def)
  then show ?thesis
    by (simp add: WetWellProcess_init_def finite_float_def reset_def default_process_def
        blank_process_def level Let_def)
qed

lemma default_require_key [simp]:
  "d \<in> set default_definitions \<Longrightarrow> require_key default_map (key d) = Inr d"
  using require_key_Inr [OF default_map_wf] by simp

lemma int_default_default [simp]:
  "int_default default_map ''high_alarm_limit'' = Inr 8200"
  "int_default default_map ''low_alarm_limit'' = Inr 1800"
  "int_default default_map ''firmware_major_minor'' = Inr 103"
  "int_default default_map ''process_temperature_pv'' = Inr 2130"
  by (simp_all add: int_default_def require_key_def default_map_def default_definitions_def)

lemma default_profile_ok: "profile_ok default_map"
proof -
  have "set (map key default_definitions) = set model_keys"
    unfolding default_definitions_def model_keys_def list.map defn_sel by (simp only: list.set)
  then show ?thesis
    by (simp add: profile_ok_def default_map_wf)
      (simp add: default_definitions_def bounds_within_def handled_keys_def)
qed

lemma is_f64_eval: "fl x = x \<Longrightarrow> is_f64 x"
  using is_f64_fl [of x] by simp

lemma default_process_ok: "process_ok default_process"
proof -
  have "is_f64 (27/2)" "is_f64 (8106479329266893 / 1125899906842624)" "is_f64 (3/2)" "is_f64 0"
    by (rule is_f64_eval; code_simp)+
  then show ?thesis
    unfolding process_ok_def by (simp add: default_profile_ok)
      (simp add: process_ok_defs default_process_def blank_process_def flow_limit_def)
qed

end
