(* ===== verification/Wet_Well_Spec.thy ===== *)
theory Wet_Well_Spec
  imports Wet_Well_Dynamics Default_Process
begin

text \<open>
  The process as its clients see it: the abstract state is the snapshot, a map from register
  keys to raw values, and a write is an update of that map.
\<close>

section \<open>The snapshot as an abstract state\<close>

definition abs_process :: "WetWellProcess \<Rightarrow> (string \<rightharpoonup> raw)" where
  "abs_process s = (case snapshot_raw s of Inr vals \<Rightarrow> map_of vals | Inl _ \<Rightarrow> Map.empty)"

text \<open>What a write to a writable key does to that map.\<close>

definition write_spec :: "(string \<rightharpoonup> raw) \<Rightarrow> string \<Rightarrow> raw \<Rightarrow> (string \<rightharpoonup> raw)" where
  "write_spec m k r =
     (if k = ''alarm_acknowledge'' then m(k \<mapsto> RBool False)
      else if k = ''control_mode'' then
        m(k \<mapsto> RInt (raw_int r), ''auto_control_active'' \<mapsto> RBool (raw_int r = 1))
      else if k = ''pump_command'' \<or> k = ''inlet_valve_command'' then m(k \<mapsto> RBool (raw_bool r))
      else m(k \<mapsto> RInt (raw_int r)))"

lemma apply_write_refines:
  assumes "apply_write s k r = Some s'"
  shows "map_of (snapshot_values s' h l f) = write_spec (map_of (snapshot_values s h l f)) k r"
  using assms
  by (cases rule: apply_write_cases)
    (simp_all add: snapshot_values_def write_spec_def fun_eq_iff)

lemma abs_process_write:
  assumes "profile_ok (register_map s)" "apply_write s k r = Some s'"
  shows "abs_process s' = write_spec (abs_process s) k r"
proof -
  have m: "register_map s' = register_map s" using assms(2) by (rule apply_write_map)
  from snapshot_raw_eq [OF assms(1)] obtain h l f where
    d: "int_default (register_map s) ''high_alarm_limit'' = Inr h"
      "int_default (register_map s) ''low_alarm_limit'' = Inr l"
      "int_default (register_map s) ''firmware_major_minor'' = Inr f"
    and "snapshot_raw s = Inr (snapshot_values s h l f)" by metis
  moreover have "snapshot_raw s' = Inr (snapshot_values s' h l f)"
    using profile_okD(2) [OF assms(1)] d
    by (simp add: snapshot_raw_def m Let_def snapshot_values_keys flip: set_map)
  ultimately show ?thesis
    using apply_write_refines [OF assms(2)] by (simp add: abs_process_def)
qed

lemma write_spec_other: "k' \<noteq> k \<Longrightarrow> k' \<noteq> ''auto_control_active'' \<Longrightarrow> write_spec m k r k' = m k'"
  by (auto simp: write_spec_def)

text \<open>Reading single keys of a snapshot.\<close>

lemma snapshot_get_writable:
  assumes "profile_ok (register_map s)"
  shows "snapshot_get s ''level_setpoint'' = Inr (RInt (level_setpoint s))"
    "snapshot_get s ''control_mode'' = Inr (RInt (control_mode s))"
    "snapshot_get s ''pump_speed_setpoint'' = Inr (RInt (pump_speed_setpoint s))"
    "snapshot_get s ''pump_command'' = Inr (RBool (pump_command s))"
    "snapshot_get s ''inlet_valve_command'' = Inr (RBool (inlet_valve_command s))"
    "snapshot_get s ''alarm_acknowledge'' = Inr (RBool (alarm_acknowledge s))"
proof -
  obtain h l f where "snapshot_raw s = Inr (snapshot_values s h l f)"
    using snapshot_raw_eq [OF assms] by metis
  then show
    "snapshot_get s ''level_setpoint'' = Inr (RInt (level_setpoint s))"
    "snapshot_get s ''control_mode'' = Inr (RInt (control_mode s))"
    "snapshot_get s ''pump_speed_setpoint'' = Inr (RInt (pump_speed_setpoint s))"
    "snapshot_get s ''pump_command'' = Inr (RBool (pump_command s))"
    "snapshot_get s ''inlet_valve_command'' = Inr (RBool (inlet_valve_command s))"
    "snapshot_get s ''alarm_acknowledge'' = Inr (RBool (alarm_acknowledge s))"
    by (simp_all add: snapshot_get_def snapshot_values_def)
qed

section \<open>The process as a target of validated writes\<close>

text \<open>A normalised value is acceptable when its key is writable and its definition takes it.\<close>

definition write_acceptable :: "WetWellProcess \<Rightarrow> string \<Rightarrow> raw \<Rightarrow> bool" where
  "write_acceptable s k r \<longleftrightarrow>
     (case require_key (register_map s) k of Inl _ \<Rightarrow> False
      | Inr d \<Rightarrow> writable d \<and> coerce_write d (raw_value r) = Inr r)"

lemma write_acceptable_iff:
  "write_acceptable s k r \<longleftrightarrow>
     (\<exists>d. require_key (register_map s) k = Inr d \<and> writable d \<and> coerce_write d (raw_value r) = Inr r)"
  by (simp add: write_acceptable_def split: sum.split)

lemma write_acceptable_apply:
  assumes "process_ok s" "write_acceptable s k r"
  shows "apply_write s k r = Some (fst (write_raw s k (raw_value r)))" "isOK (snd (write_raw s k (raw_value r)))"
proof -
  note p = process_okD(1) [OF assms(1)]
  from assms(2) obtain d where d: "require_key (register_map s) k = Inr d" "writable d"
    "coerce_write d (raw_value r) = Inr r" by (auto simp: write_acceptable_iff)
  then have mem: "d \<in> set (definitions (register_map s))" "key d = k"
    using require_key_Inr [OF profile_okD(1) [OF p]] by auto
  then have "k \<in> set handled_keys" using profile_ok_definition(3) [OF p] d(2) by auto
  then obtain s' where s': "apply_write s k r = Some s'" using apply_write_Some by metis
  with d show "apply_write s k r = Some (fst (write_raw s k (raw_value r)))"
    "isOK (snd (write_raw s k (raw_value r)))"
    by (simp_all add: write_raw_cases [OF p])
qed

lemma write_raw_map [frame]: "register_map (fst (write_raw s k v)) = register_map s"
  by (auto simp: write_raw_def frame split: sum.split option.split)

interpretation process_writes: write_target process_ok write_acceptable
    "\<lambda>s k r. write_raw s k (raw_value r)" abs_process write_spec
proof unfold_locales
  fix s k r k' r'
  assume ok: "process_ok s"
  note p = process_okD(1) [OF ok]
  show "process_ok (fst (write_raw s k (raw_value r)))" by (rule write_raw_ok [OF ok])
  show "write_acceptable (fst (write_raw s k (raw_value r))) k' r' = write_acceptable s k' r'"
    by (simp add: write_acceptable_def frame)
  assume acc: "write_acceptable s k r"
  show "isOK (snd (write_raw s k (raw_value r)))" by (rule write_acceptable_apply [OF ok acc])
  show "abs_process (fst (write_raw s k (raw_value r))) = write_spec (abs_process s) k r"
    by (rule abs_process_write [OF p write_acceptable_apply(1) [OF ok acc]])
qed

end
