(* ===== verification/Wet_Well_Claims.thy ===== *)
theory Wet_Well_Claims
  imports Wet_Well_Spec
begin

text \<open>
  What the wet-well process guarantees.  Each property is followed by its witness, which
  applies it to the process the runtime starts with.
\<close>

section \<open>Ticks and runs\<close>

text \<open>C4: On a process whose flow constants are at most \<open>flow_limit\<close>, far beyond what the validator
  allows, a tick over a valid interval raises nothing - no product overflows and none of the
  assertions at its end can fire - and keeps the process invariant: level within 0..10000, mode in the enumeration, no
  running feedback under a fault, non-negative flows and current, delays within the actuator
  delay, and acknowledgements only of active alarms.\<close>

theorem tick_keeps_invariant:
  assumes "process_ok s" and "tick_seconds v = Inr t"
  shows "snd (tick v s) = None \<and> process_ok (fst (tick v s))"
  using tick_eq [OF assms] by simp

theorem tick_keeps_invariant_witness:
  "snd (tick (PInt 1) default_process) = None \<and> process_ok (fst (tick (PInt 1) default_process))"
  by (rule tick_keeps_invariant [OF default_process_ok tick_seconds_1])

text \<open>In every run of ticks and writes, whatever their arguments, the tank level stays within
  its physical bounds, the control mode within its enumeration, a faulted pump never reports
  running, and no derived value is negative.\<close>

theorem run_within_bounds:
  assumes "process_ok s"
  shows "let s' = foldl process_step s ops in
    0 \<le> level_raw s' \<and> level_raw s' \<le> 10000 \<and> control_mode s' \<in> {0, 1} \<and>
    \<not> (pump_fault s' \<and> pump_feedback s') \<and>
    0 \<le> inlet_flow_raw s' \<and> 0 \<le> outlet_flow_raw s' \<and> 0 \<le> pump_current_raw s' \<and>
    pump_start_count s \<le> pump_start_count s' \<and> pump_start_count s' \<le> 65535"
  using process.run_inv [OF assms, of ops]
    process.run_measure [OF assms process_step_start_count, of ops]
  by (auto simp: Let_def process_ok_defs)

theorem run_within_bounds_witness:
  "level_raw (foldl process_step default_process
     [Write ''control_mode'' (PInt 0), Write ''pump_command'' (PInt 1), Tick (PInt 10)]) \<le> 10000"
  using run_within_bounds [OF default_process_ok, of
    "[Write ''control_mode'' (PInt 0), Write ''pump_command'' (PInt 1), Tick (PInt 10)]"]
  by (simp only: Let_def)

text \<open>A float interval outside (0, 10], infinite or NaN is refused with a ValueError and
  leaves the process untouched.\<close>

theorem tick_refuses_interval:
  assumes "\<not> (Fin 0 < x \<and> x \<le> Fin 10)"
  shows "\<exists>msg. tick (PFloat x) s = (s, Some (ValueError msg))"
  using assms by (cases x) (auto simp: tick_def tick_seconds_def)

theorem tick_refuses_interval_witness:
  "\<exists>msg. tick (PFloat NaN) default_process = (default_process, Some (ValueError msg))"
  by (rule tick_refuses_interval) simp

text \<open>On a profile within the validated bounds no product of a tick overflows: the level change is a
  finite float of at most ten million raw units.\<close>

theorem level_delta_bounded:
  assumes "process_ok s" "0 < t" "t \<le> 10" "100 \<le> capacity_liters s"
    "max_pump_flow_lps s \<le> 10000" "nominal_inlet_flow_lps s \<le> 10000"
  shows "\<exists>fraction d. speed_fraction s = Inr fraction \<and> level_delta_raw t fraction s = Inr (Fin d) \<and> \<bar>d\<bar> \<le> 10000000"
proof -
  have f: "is_f64 10000" "is_f64 100000" "is_f64 1000" "is_f64 10000000"
    using is_f64_of_int [of 10000] is_f64_of_int [of 100000] is_f64_of_int [of 1000]
      is_f64_of_int [of 10000000] by simp_all
  have small: "nearest_float x = Fin (fl x)" if "\<bar>x\<bar> \<le> 10000000" for x
    using that power_mono_2 [of 24 1023] by (intro nearest_in_range) simp
  obtain fraction where fraction: "speed_fraction s = Inr fraction" "0 \<le> fraction" "fraction \<le> 1"
    using assms(1) by (auto simp: process_ok_defs elim: speed_fraction_eq)
  obtain r where r: "outlet_lps fraction s = Fin r" "0 \<le> r" "r \<le> max_pump_flow_lps s"
    by (rule outlet_lps_eq [OF assms(1) fraction(2,3)])
  have i: "0 \<le> inlet_lps s" "inlet_lps s \<le> nominal_inlet_flow_lps s"
    using assms(1) by (simp_all add: inlet_lps_def process_ok_defs)
  define x1 where "x1 = fl (inlet_lps s - r)"
  define x2 where "x2 = fl (x1 * t)"
  define x3 where "x3 = fl (x2 / capacity_liters s)"
  have 0: "\<bar>inlet_lps s - r\<bar> \<le> 10000" using r(2,3) i assms(5,6) by (simp add: abs_le_iff)
  then have 1: "\<bar>x1\<bar> \<le> 10000" unfolding x1_def by (rule fl_abs_le [OF f(1)])
  have "\<bar>x1\<bar> * \<bar>t\<bar> \<le> 10000 * 10" using 1 assms(2,3) by (intro mult_mono) simp_all
  then have t: "\<bar>x1 * t\<bar> \<le> 100000" by (simp add: abs_mult)
  then have 2: "\<bar>x2\<bar> \<le> 100000" unfolding x2_def by (rule fl_abs_le [OF f(2)])
  have "\<bar>x2\<bar> / \<bar>capacity_liters s\<bar> \<le> 100000 / 100"
    using 2 assms(4) by (intro frac_le) simp_all
  then have c: "\<bar>x2 / capacity_liters s\<bar> \<le> 1000" by (simp add: abs_divide)
  then have 3: "\<bar>x3\<bar> \<le> 1000" unfolding x3_def by (rule fl_abs_le [OF f(3)])
  then have d: "\<bar>x3 * 10000\<bar> \<le> 10000000" by (simp add: abs_mult)
  have "level_delta_raw t fraction s = Inr (Fin (fl (x3 * 10000)))"
    using 0 t c d assms(4) small [of "inlet_lps s - r"] small [of "x1 * t"] small [of "x2 / capacity_liters s"]
    by (simp add: level_delta_raw_def r(1) float_sub_def small x1_def [symmetric] x2_def [symmetric] x3_def [symmetric])
  with fraction(1) fl_abs_le [OF f(4) d] show ?thesis by blast
qed

theorem level_delta_bounded_witness:
  "\<exists>fraction d. speed_fraction default_process = Inr fraction \<and>
     level_delta_raw 10 fraction default_process = Inr (Fin d) \<and> \<bar>d\<bar> \<le> 10000000"
  by (rule level_delta_bounded [OF default_process_ok])
    (simp_all add: default_process_def blank_process_def)

text \<open>Beyond that range the process fails as the code does: a sound profile but for a flow near the
  largest double makes a tick raise, after it has moved the level.\<close>

theorem huge_flow_overflows:
  assumes "speed_fraction (tick_actuators t s) = Inr f" "tick_seconds v = Inr t" "0 < capacity_liters s"
    "inlet_valve_feedback (tick_actuators t s)" "2 ^ 1020 \<le> nominal_inlet_flow_lps s"
  shows "snd (tick v s) = Some OverflowError"
proof -
  let ?s = "tick_actuators t s"
  have inlet: "inlet_lps ?s = nominal_inlet_flow_lps s" using assms(4) by (simp add: inlet_lps_def frame)
  have "(2 :: rat) ^ 1024 \<le> 2 ^ 1020 * 16" by simp
  also have "\<dots> \<le> nominal_inlet_flow_lps s * 100" using assms(5) by (intro mult_mono) simp_all
  finally have "fl (2 ^ 1024) \<le> fl (inlet_lps ?s * 100)" unfolding inlet by (rule fl_mono)
  then have big: "2 ^ 1024 \<le> fl (inlet_lps ?s * 100)" using fl_exact [OF is_f64_power [of 1024]] by simp
  have pos: "0 < inlet_lps ?s" unfolding inlet by (rule less_le_trans [OF _ assms(5)]) simp
  have "py_round (float_mul (Fin (inlet_lps ?s)) (Fin 100)) = Inl OverflowError"
    using big pos by (simp add: nearest_float_def)
  moreover obtain delta where "level_delta_raw t f ?s = Inr delta"
    using assms(3) by (cases "float_mul (float_sub (Fin (inlet_lps ?s)) (outlet_lps f ?s)) (Fin t)")
      (simp_all add: level_delta_raw_def frame)
  ultimately have "snd (tick_hydraulics t ?s) = Some OverflowError"
    by (simp add: tick_hydraulics_def assms(1) Let_def del: float_mul.simps)
  then show ?thesis using assms(2) by (simp add: tick_def run_stmts_ok run_stmts_raise)
qed

section \<open>Actuators\<close>

text \<open>C13: After a new inlet-valve command the feedback keeps its old value for the ticks that fall
  short of the actuator delay and equals the command from the tick where the delay has elapsed:
  the valve follows its command after a deterministic delay.\<close>

theorem valve_follows_command:
  assumes "process_ok s" "0 < actuator_delay_seconds s" "actuator_delay_seconds s \<le> 60"
    "inlet_valve_command s \<noteq> valve_target s"
  shows "inlet_valve_feedback ((tick1 ^^ n) s) =
    (if int n < \<lceil>actuator_delay_seconds s\<rceil> then inlet_valve_feedback s else inlet_valve_command s)"
  using assms by (intro valve.follows_after_delay) (simp_all add: delay_ok_def)

definition valve_closing :: WetWellProcess where
  "valve_closing = default_process\<lparr>inlet_valve_command := False\<rparr>"

theorem valve_follows_command_witness:
  "inlet_valve_feedback ((tick1 ^^ 1) valve_closing) \<and> \<not> inlet_valve_feedback ((tick1 ^^ 2) valve_closing)"
proof -
  have p: "process_ok valve_closing" "inlet_valve_command valve_closing \<noteq> valve_target valve_closing"
    "actuator_delay_seconds valve_closing = 3 / 2" "inlet_valve_feedback valve_closing"
    "\<not> inlet_valve_command valve_closing"
    using default_process_ok
    by (simp_all add: valve_closing_def process_ok_defs)
      (simp_all add: default_process_def blank_process_def)
  have "\<lceil>3 / 2 :: rat\<rceil> = 2" by (rule ceiling_unique) simp_all
  then show ?thesis
    using valve_follows_command [OF p(1) _ _ p(2), of 1] valve_follows_command [OF p(1) _ _ p(2), of 2]
      p(3-5) by simp
qed

text \<open>Under manual control without a fault, the run feedback of the pump follows
  \<open>pump_command\<close> exactly after the actuator delay, and not before.\<close>

theorem manual_pump_follows_command:
  assumes "process_ok s" "0 < actuator_delay_seconds s" "actuator_delay_seconds s \<le> 60"
    "control_mode s = 0" "\<not> pump_fault s" "pump_command s \<noteq> pump_target s"
  shows "pump_feedback ((tick1 ^^ n) s) =
    (if int n < \<lceil>actuator_delay_seconds s\<rceil> then pump_feedback s else pump_command s)"
  using assms by (intro manual_pump.follows_after_delay) (simp_all add: manual_ok_def delay_ok_def)

definition pump_starting :: WetWellProcess where
  "pump_starting = default_process\<lparr>control_mode := 0, pump_command := True\<rparr>"

theorem manual_pump_follows_command_witness:
  "\<not> pump_feedback ((tick1 ^^ 1) pump_starting) \<and> pump_feedback ((tick1 ^^ 2) pump_starting)"
proof -
  have p: "process_ok pump_starting" "pump_command pump_starting \<noteq> pump_target pump_starting"
    "actuator_delay_seconds pump_starting = 3 / 2" "\<not> pump_feedback pump_starting"
    "pump_command pump_starting" "control_mode pump_starting = 0" "\<not> pump_fault pump_starting"
    using default_process_ok
    by (simp_all add: pump_starting_def process_ok_defs)
      (simp_all add: default_process_def blank_process_def)
  have "\<lceil>3 / 2 :: rat\<rceil> = 2" by (rule ceiling_unique) simp_all
  then show ?thesis
    using manual_pump_follows_command [OF p(1) _ _ p(6,7,2), of 1]
      manual_pump_follows_command [OF p(1) _ _ p(6,7,2), of 2] p(3-5) by simp
qed

text \<open>In automatic mode \<open>pump_command\<close> has no influence: two processes that differ only in
  it stay equal up to it under any tick, with the same exception if any.\<close>

theorem auto_ignores_pump_command:
  assumes "control_mode s \<noteq> 0"
  shows "tick v (s\<lparr>pump_command := b\<rparr>) =
    (fst (tick v s)\<lparr>pump_command := b\<rparr>, snd (tick v s))"
  using tick_pump_command [OF assms, of v b] by (cases "tick v s") simp

theorem auto_ignores_pump_command_witness:
  "fst (tick (PInt 1) (default_process\<lparr>pump_command := True\<rparr>)) =
    fst (tick (PInt 1) default_process)\<lparr>pump_command := True\<rparr>"
  using auto_ignores_pump_command [of default_process "PInt 1" True]
  by (simp add: default_process_def blank_process_def)

text \<open>C24: In automatic mode a tick drives the pump as a two-threshold switch around the setpoint:
  a stopped pump is requested exactly at or above setpoint plus hysteresis, a running one is
  kept exactly above setpoint minus hysteresis, so within the band the request does not change.\<close>

theorem auto_hysteresis:
  assumes "process_ok s" "tick_seconds v = Inr t" "control_mode s \<noteq> 0"
  shows "pump_target (fst (tick v s)) =
    schmitt (pump_feedback s \<or> pump_target s)
      (of_int (level_setpoint s - auto_hysteresis_raw s))
      (of_int (level_setpoint s + auto_hysteresis_raw s)) (level_raw s)"
  by (simp add: tick_eq(1) [OF assms(1,2)] frame tick_pump auto_desired [OF assms(3)])

theorem auto_hysteresis_witness: "\<not> pump_target (fst (tick (PInt 1) default_process))"
  using auto_hysteresis [OF default_process_ok tick_seconds_1]
  by (simp add: default_process_def blank_process_def schmitt_def)

text \<open>The start counter of a tick goes up by one exactly when the run feedback rises, and
  saturates at 65535.\<close>

theorem start_counter_counts_starts:
  assumes "process_ok s" "tick_seconds v = Inr t"
  shows "pump_start_count (fst (tick v s)) =
    (if pump_feedback (fst (tick v s)) \<and> \<not> pump_feedback s
     then min 65535 (pump_start_count s + 1) else pump_start_count s)"
  by (simp add: tick_eq(1) [OF assms] tick_start_count)

theorem start_counter_counts_starts_witness:
  "pump_start_count (fst (tick (PInt 1) default_process)) \<le> 387"
  using start_counter_counts_starts [OF default_process_ok tick_seconds_1]
  by (simp add: default_process_def blank_process_def)

section \<open>Alarms\<close>

text \<open>C19: After a tick, which is complete on a process within its invariant since no product of its
  flow constants overflows, the two level alarms say exactly whether the level just reported is at or
  beyond its limit, and an acknowledgement survives only while its alarm stays active.\<close>

theorem alarms_after_tick:
  assumes "process_ok s" "tick_seconds v = Inr t"
    "int_default (register_map s) ''high_alarm_limit'' = Inr high"
    "int_default (register_map s) ''low_alarm_limit'' = Inr low"
  shows "let s' = fst (tick v s) in
    high_level_alarm s' = (high \<le> round_half_even (level_raw s')) \<and>
    low_level_alarm s' = (round_half_even (level_raw s') \<le> low) \<and>
    high_alarm_acknowledged s' = (high_level_alarm s' \<and> high_alarm_acknowledged s) \<and>
    low_alarm_acknowledged s' = (low_level_alarm s' \<and> low_alarm_acknowledged s)"
proof -
  have t: "0 \<le> t" using tick_seconds_Inr [OF assms(2)] by simp
  show ?thesis
    by (rule tick_result_alarms [OF assms(1) t])
      (use assms(3,4) in \<open>simp add: tick_eq(1) [OF assms(1,2)] Let_def\<close>)
qed

theorem alarms_after_tick_witness:
  "high_level_alarm (fst (tick (PInt 1) default_process)) =
    (8200 \<le> round_half_even (level_raw (fst (tick (PInt 1) default_process))))"
  using alarms_after_tick [OF default_process_ok tick_seconds_1, of 8200 1800]
  by (simp add: Let_def)

text \<open>Acknowledging is a pulse that clears no alarm: it marks exactly the active alarms as
  acknowledged, leaves the alarm conditions alone, and reads back as False.\<close>

theorem acknowledge_clears_no_alarm:
  assumes "profile_ok (register_map s)" "snd (write_raw s ''alarm_acknowledge'' v) = Inr w"
    "raw_bool (requested_raw w)"
  shows "let s' = fst (write_raw s ''alarm_acknowledge'' v) in
    s' = s\<lparr>high_alarm_acknowledged := high_level_alarm s,
           low_alarm_acknowledged := low_level_alarm s, alarm_acknowledge := False\<rparr> \<and>
    stored_raw w = RBool False"
proof -
  obtain r where a: "apply_write s ''alarm_acknowledge'' r = Some (fst (write_raw s ''alarm_acknowledge'' v))"
    and r: "requested_raw w = r"
    and st: "snapshot_get (fst (write_raw s ''alarm_acknowledge'' v)) ''alarm_acknowledge'' = Inr (stored_raw w)"
    using write_raw_accepted [OF assms(1,2)] by metis
  from a have s': "fst (write_raw s ''alarm_acknowledge'' v) =
      s\<lparr>high_alarm_acknowledged := high_level_alarm s,
        low_alarm_acknowledged := low_level_alarm s, alarm_acknowledge := False\<rparr>"
    using assms(3) r by (simp add: apply_write_def)
  have m: "profile_ok (register_map (fst (write_raw s ''alarm_acknowledge'' v)))"
    using assms(1) apply_write_map [OF a] by simp
  have "\<not> alarm_acknowledge (fst (write_raw s ''alarm_acknowledge'' v))"
    unfolding s' by simp
  with snapshot_get_writable(6) [OF m] st have "stored_raw w = RBool False" by simp
  with s' show ?thesis by (simp add: Let_def)
qed

definition flooded :: WetWellProcess where
  "flooded = default_process\<lparr>level_raw := 9000, high_level_alarm := True\<rparr>"

lemma flooded_profile: "profile_ok (register_map flooded)"
  using default_profile_ok by (simp add: flooded_def)

lemma default_require [simp]:
  "require_key default_map ''alarm_acknowledge'' =
     Inr (defn ''alarm_acknowledge'' ''coil'' 12 13 ''bool'' 1 ''bool'' 0 1 0
       (Some ''Latches acknowledgement for active synthetic alarms and self-resets'')
       ''Acknowledges a latched alarm'')"
  "require_key default_map ''level_setpoint'' =
     Inr (defn ''level_setpoint'' ''holding_register'' 42 40043 ''uint16'' centi_f64 ''%'' 3000 8000 5100
       (Some ''Changes automatic pump start/stop target with hysteresis'')
       ''Target level the automatic loop holds'')"
  "require_key default_map ''high_alarm_limit'' =
     Inr (defn ''high_alarm_limit'' ''holding_register'' 44 40045 ''uint16'' centi_f64 ''%'' 6000 9500 8200
       None ''Level at which the high alarm asserts'')"
  by (simp_all add: require_key_def default_map_def default_definitions_def)

theorem acknowledge_clears_no_alarm_witness:
  "high_level_alarm (fst (write_raw flooded ''alarm_acknowledge'' (PInt 1))) \<and>
   high_alarm_acknowledged (fst (write_raw flooded ''alarm_acknowledge'' (PInt 1)))"
proof -
  have c: "coerce_write (defn ''alarm_acknowledge'' ''coil'' 12 13 ''bool'' 1 ''bool'' 0 1 0
       (Some ''Latches acknowledgement for active synthetic alarms and self-resets'')
       ''Acknowledges a latched alarm'') (PInt 1) = Inr (RBool True)"
    by (simp add: coerce_write_def normalize_write_def range_check_def Let_def)
  have "\<exists>w. snd (write_raw flooded ''alarm_acknowledge'' (PInt 1)) = Inr w \<and> requested_raw w = RBool True"
    unfolding write_raw_cases [OF flooded_profile] by (simp add: flooded_def c)
  then obtain w where w: "snd (write_raw flooded ''alarm_acknowledge'' (PInt 1)) = Inr w"
    and r: "raw_bool (requested_raw w)" by auto
  show ?thesis
    using acknowledge_clears_no_alarm [OF flooded_profile w r] by (simp add: Let_def flooded_def)
qed

section \<open>Writes and snapshots\<close>

text \<open>C7: An accepted write refines one update of the abstract state, the map a snapshot returns:
  its own key takes the normalised value (the acknowledge pulse reads False), the derived
  \<open>auto_control_active\<close> follows the control mode, and every other key keeps its value.\<close>

theorem write_refines_update:
  assumes "profile_ok (register_map s)" "snd (write_raw s k v) = Inr w"
  shows "abs_process (fst (write_raw s k v)) = write_spec (abs_process s) k (requested_raw w) \<and>
    abs_process (fst (write_raw s k v)) k = Some (stored_raw w) \<and> abs_process s k = Some (old_raw w)"
proof -
  obtain r where a: "apply_write s k r = Some (fst (write_raw s k v))" and r: "requested_raw w = r"
    and "snapshot_get (fst (write_raw s k v)) k = Inr (stored_raw w)" "snapshot_get s k = Inr (old_raw w)"
    using write_raw_accepted [OF assms] by metis
  then show ?thesis
    using abs_process_write [OF assms(1) a] r
    by (auto simp: abs_process_def snapshot_get_def bindE_eq_Inr split: option.splits sum.splits)
qed

lemma setpoint_write:
  "snd (write_raw default_process ''level_setpoint'' (PInt 6000)) =
    Inr \<lparr>key_written = ''level_setpoint'', old_raw = RInt 5100, requested_raw = RInt 6000,
         stored_raw = RInt 6000,
         effect_text = Some ''Changes automatic pump start/stop target with hysteresis''\<rparr>"
proof -
  have c: "coerce_write (defn ''level_setpoint'' ''holding_register'' 42 40043 ''uint16'' centi_f64 ''%''
       3000 8000 5100 (Some ''Changes automatic pump start/stop target with hysteresis'')
       ''Target level the automatic loop holds'') (PInt 6000) = Inr (RInt 6000)"
    by (simp add: coerce_write_def normalize_write_def range_check_def Let_def)
  have p: "profile_ok (register_map default_process)" by (simp add: default_profile_ok)
  show ?thesis
    unfolding write_raw_cases [OF p]
    by (simp add: c snapshot_get_writable(1) default_profile_ok apply_write_def)
      (simp add: default_process_def blank_process_def)
qed

theorem write_refines_update_witness:
  "abs_process (fst (write_raw default_process ''level_setpoint'' (PInt 6000))) ''level_setpoint'' =
    Some (RInt 6000)"
  using write_refines_update [OF _ setpoint_write, THEN conjunct2, THEN conjunct1] default_profile_ok
  by simp

text \<open>A rejected write - unknown key, read-only key, wrong type, value out of range - leaves the
  whole process as it was.\<close>

theorem rejected_write_changes_nothing:
  assumes "profile_ok (register_map s)" "snd (write_raw s k v) = Inl e"
  shows "fst (write_raw s k v) = s \<and> (\<exists>w. e = ProcessWriteError w \<or> e = KeyError k)"
proof -
  have "\<exists>w. e = ProcessWriteError w \<or> e = KeyError k"
  proof (cases "require_key (register_map s) k")
    case (Inl e')
    then show ?thesis using assms(2) by (auto simp: write_raw_def require_key_def split: option.splits)
  next
    case (Inr d)
    then have "d \<in> set (definitions (register_map s))"
      using require_key_Inr [OF profile_okD(1) [OF assms(1)]] by auto
    note p = profile_ok_definition(1,2) [OF assms(1) this]
    show ?thesis
      using assms(2) Inr coerce_write_Inl [OF _ p] unfolding write_raw_cases [OF assms(1)]
      by (auto split: sum.splits if_splits)
  qed
  with write_raw_rejected [OF assms] show ?thesis by simp
qed

theorem rejected_write_changes_nothing_witness:
  "fst (write_raw default_process ''high_alarm_limit'' (PInt 7000)) = default_process"
proof -
  have "snd (write_raw default_process ''high_alarm_limit'' (PInt 7000)) =
      Inl (ProcessWriteError (ReadOnly ''high_alarm_limit''))"
    by (simp add: write_raw_def)
  then show ?thesis
    using rejected_write_changes_nothing [of default_process] default_profile_ok by simp
qed

text \<open>The writes that succeed are exactly those to a writable key with a value of the right
  type within the bounds of the map.\<close>

theorem write_accepted_iff:
  assumes "profile_ok (register_map s)"
  shows "(\<exists>w. snd (write_raw s k v) = Inr w) \<longleftrightarrow>
    (\<exists>d r. require_key (register_map s) k = Inr d \<and> writable d \<and> normalize_write d v = Inr r \<and>
       number (minimum d) \<le> Fin (of_int (raw_int r)) \<and> Fin (of_int (raw_int r)) \<le> number (maximum d))"
proof (cases "require_key (register_map s) k")
  case (Inl e)
  then show ?thesis by (simp add: write_raw_def)
next
  case (Inr d)
  then have "d \<in> set (definitions (register_map s))"
    using require_key_Inr [OF profile_okD(1) [OF assms]] by auto
  note p = profile_ok_definition(1,2) [OF assms this]
  show ?thesis
    using Inr unfolding write_raw_cases [OF assms]
    by (auto simp: coerce_write_def range_check_eq [OF p] bindE_eq_Inr split: sum.splits)
qed

theorem write_accepted_iff_witness: "\<exists>w. snd (write_raw default_process ''level_setpoint'' (PInt 3000)) = Inr w"
proof -
  have p: "profile_ok (register_map default_process)" by (simp add: default_profile_ok)
  show ?thesis unfolding write_accepted_iff [OF p] by (simp add: normalize_write_def)
qed

text \<open>A snapshot never raises on a running profile, and names exactly the keys of the
  register map, each once.\<close>

theorem snapshot_matches_map:
  assumes "profile_ok (register_map s)"
  shows "\<exists>vals. snapshot_raw s = Inr vals \<and> distinct (map fst vals) \<and>
    set (map fst vals) = key ` set (definitions (register_map s))"
proof -
  obtain vals where "snapshot_raw s = Inr vals" "map fst vals = model_keys"
    using snapshot_raw_total [OF assms] by blast
  then show ?thesis
    using model_keys_distinct profile_okD(3) [OF assms] by (simp flip: set_map)
qed

theorem snapshot_matches_map_witness: "\<exists>vals. snapshot_raw default_process = Inr vals"
  using snapshot_matches_map [of default_process] default_profile_ok by auto

end
