(* ===== verification/Register_Claims.thy ===== *)
theory Register_Claims
  imports Default_Process
begin

text \<open>
  What a register map promises once it is constructed, and that the manifest shipped with the
  repository is one the process model can run.
\<close>

text \<open>A constructed map finds exactly its definitions: by key, by area and address, and by area,
  each definition is found under its own key and location and nothing else is found.\<close>

theorem constructed_map_lookups:
  assumes "RegisterMap_init doc = Inr m"
  shows "(require_key m k = Inr d \<longleftrightarrow> d \<in> set (definitions m) \<and> key d = k) \<and>
    (require_location m ar n = Inr d \<longleftrightarrow> d \<in> set (definitions m) \<and> area d = ar \<and> address d = n) \<and>
    (d \<in> set (for_area m ar) \<longleftrightarrow> require_location m ar (address d) = Inr d) \<and>
    (k \<notin> key ` set (definitions m) \<longrightarrow> require_key m k = Inl (KeyError k))"
proof -
  note wf = RegisterMap_init_wf [OF assms]
  have "require_key m k = Inl (KeyError k)" if "k \<notin> key ` set (definitions m)"
    using key_index.lookup_fails [OF wf that] by (auto simp: require_key_def split: option.splits)
  then show ?thesis
    using require_key_Inr [OF wf] require_location_Inr [OF wf] by (auto simp: for_area_def)
qed

theorem constructed_map_lookups_witness:
  "require_key default_map ''nonsense'' = Inl (KeyError ''nonsense'') \<and>
   hd default_definitions \<in> set (for_area default_map ''input_register'')"
proof -
  have "''nonsense'' \<notin> key ` set default_definitions" by (simp add: default_definitions_def)
  moreover have "require_location default_map ''input_register'' (address (hd default_definitions)) =
      Inr (hd default_definitions)"
    by (simp add: require_location_def default_map_def default_definitions_def)
  ultimately show ?thesis
    using constructed_map_lookups [OF default_map_init, of "''nonsense''" "hd default_definitions"
        "''input_register''" 0] by auto
qed

text \<open>The constructor accepts a document whose entries parse exactly when no two of them share a key
  or a location; otherwise it raises, so a map with an ambiguous lookup cannot exist.\<close>

theorem duplicates_are_refused:
  assumes "bindE (py_getitem doc ''registers'') py_iter = Inr items" "mapE from_dict items = Inr defs"
  shows "if distinct (map key defs) \<and> distinct (map (\<lambda>d. (area d, address d)) defs)
    then \<exists>m. RegisterMap_init doc = Inr m \<and> definitions m = defs
    else RegisterMap_init doc = Inl (ValueError ''register map contains duplicate keys or locations'')"
proof -
  have "length (dict_of (map (\<lambda>item. (key item, item)) defs)) = length defs \<longleftrightarrow> distinct (map key defs)"
    "length (dict_of (map (\<lambda>item. ((area item, address item), item)) defs)) = length defs \<longleftrightarrow>
     distinct (map (\<lambda>d. (area d, address d)) defs)"
    using dict_of_length [of "map (\<lambda>item. (key item, item)) defs"]
      dict_of_length [of "map (\<lambda>item. ((area item, address item), item)) defs"]
    by (simp_all add: comp_def)
  then show ?thesis by (simp add: RegisterMap_init_def assms Let_def)
qed

theorem duplicates_are_refused_witness:
  "RegisterMap_init (PDict [(''registers'', PList (default_registers @ [hd default_registers]))]) =
     Inl (ValueError ''register map contains duplicate keys or locations'')"
proof -
  have hd: "from_dict (hd default_registers) = Inr (hd default_definitions)"
    using from_dict_read_only(1) by (simp add: default_registers_def default_definitions_def)
  have app: "mapE f (xs @ [y]) = Inr (us @ [u])" if "mapE f xs = Inr us" "f y = Inr u"
    for f :: "pyval \<Rightarrow> RegisterDefinition result" and xs us y u
    using that by (auto simp: mapE_eq_Inr intro: list_all2_appendI)
  have parsed: "mapE from_dict (default_registers @ [hd default_registers]) =
      Inr (default_definitions @ [hd default_definitions])"
    by (rule app [OF default_definitions_parsed hd])
  have "hd default_definitions \<in> set default_definitions" by (simp add: default_definitions_def)
  then show ?thesis
    using duplicates_are_refused [of "PDict [(''registers'', PList (default_registers @ [hd default_registers]))]",
        OF _ parsed] by auto
qed

text \<open>The shipped manifest constructs a map, the map constructs a process, and both satisfy the
  profile and invariant the other theorems assume.\<close>

theorem shipped_manifest_is_fit:
  "\<exists>m p. RegisterMap_init default_document = Inr m \<and> WetWellProcess_init m = Inr p \<and> register_map p = m \<and>
     profile_ok m \<and> process_ok p \<and> unit_id m = Inr 7"
proof -
  have "unit_id default_map = Inr 7" by (simp add: unit_id_def default_document_def)
  then show ?thesis
    using default_map_init default_process_init default_profile_ok default_process_ok default_process_map by blast
qed

end
