(* ===== verification/Transport_Context.thy ===== *)
theory Transport_Context
  imports Wet_Well
begin

text \<open>
  \<open>transport_context.py\<close>: the identity of the request a task is executing.  A \<open>ContextVar\<close>
  is one cell per asyncio task; here it is the first component of the state a task's code
  runs over, and a body that may raise returns a result beside that state.
\<close>

record RequestTransportContext =
  ctx_source_ip :: string
  ctx_source_port :: int
  ctx_transaction_id :: int
  ctx_session_id :: string

type_synonym ctxvar = "RequestTransportContext option"

type_synonym ('s, 'a) task = "ctxvar \<times> 's \<Rightarrow> (ctxvar \<times> 's) \<times> 'a result"

definition current_transport_context :: "ctxvar \<times> 's \<Rightarrow> RequestTransportContext option" where
  "current_transport_context st = fst st"

text \<open>The \<open>with\<close> block: the token keeps the old value, and \<open>finally\<close> puts it back.\<close>

definition bind_transport_context :: "RequestTransportContext \<Rightarrow> ('s, 'a) task \<Rightarrow> ('s, 'a) task" where
  "bind_transport_context context body st =
     (case st of (token, s) \<Rightarrow>
      case body (Some context, s) of ((_, s'), r) \<Rightarrow> ((token, s'), r))"

lemma bind_transport_context_restores [frame]:
  "fst (fst (bind_transport_context context body st)) = fst st"
  by (simp add: bind_transport_context_def split: prod.splits)

lemma bind_transport_context_body:
  "snd (fst (bind_transport_context context body (v, s))) = snd (fst (body (Some context, s)))"
  "snd (bind_transport_context context body (v, s)) = snd (body (Some context, s))"
  by (simp_all add: bind_transport_context_def split: prod.splits)

end
