(* ===== verification/PyText.thy ===== *)
theory PyText
  imports PyValue
begin

text \<open>
  The string methods the tools use, on characters below 256: \<open>strip\<close>, \<open>split\<close> with a limit, \<open>rstrip\<close>
  of one character, \<open>casefold\<close>.
\<close>

abbreviation newline :: char where "newline \<equiv> CHR 0x0A"

text \<open>\<open>\s\<close> of a regular expression and \<open>str.isspace\<close>.\<close>

definition py_space :: "char \<Rightarrow> bool" where
  "py_space c \<longleftrightarrow> (let n = of_char c :: nat in
     9 \<le> n \<and> n \<le> 13 \<or> 28 \<le> n \<and> n \<le> 32 \<or> n = 133 \<or> n = 160)"

definition rstrip :: "string \<Rightarrow> string" where
  "rstrip s = rev (dropWhile py_space (rev s))"

definition strip :: "string \<Rightarrow> string" where
  "strip s = rstrip (dropWhile py_space s)"

definition starts :: "string \<Rightarrow> string \<Rightarrow> bool" where
  "starts w s \<longleftrightarrow> take (length w) s = w"

lemma starts_Nil [simp]: "\<not> starts (c # w) []"
  by (simp add: starts_def)

lemma starts_Cons [simp]: "starts (c # w) (c' # s) \<longleftrightarrow> c = c' \<and> starts w s"
  by (auto simp: starts_def)

lemma starts_empty [simp]: "starts [] s"
  by (simp add: starts_def)

lemma starts_append [simp]: "starts w (w @ s)"
  by (simp add: starts_def)

text \<open>\<open>s.split(sep, 1)[-1]\<close>, \<open>s.split(c, 1)[0]\<close>, \<open>s.split(c)[-1]\<close>, \<open>s.split(c)\<close>, \<open>s.rstrip(c)\<close>.\<close>

fun after_first :: "string \<Rightarrow> string \<Rightarrow> string option" where
  "after_first sep [] = (if sep = [] then Some [] else None)"
| "after_first sep (c # s) =
     (if starts sep (c # s) then Some (drop (length sep) (c # s)) else after_first sep s)"

definition split_last :: "string \<Rightarrow> string \<Rightarrow> string" where
  "split_last sep s = (case after_first sep s of None \<Rightarrow> s | Some t \<Rightarrow> t)"

definition before_char :: "char \<Rightarrow> string \<Rightarrow> string" where
  "before_char c s = takeWhile (\<lambda>x. x \<noteq> c) s"

definition after_last :: "char \<Rightarrow> string \<Rightarrow> string" where
  "after_last c s = rev (takeWhile (\<lambda>x. x \<noteq> c) (rev s))"

fun split_on :: "char \<Rightarrow> string \<Rightarrow> string list" where
  "split_on c [] = [[]]"
| "split_on c (x # s) =
     (if x = c then [] # split_on c s
      else (case split_on c s of [] \<Rightarrow> [[x]] | w # ws \<Rightarrow> (x # w) # ws))"

definition rstrip_char :: "char \<Rightarrow> string \<Rightarrow> string" where
  "rstrip_char c s = rev (dropWhile (\<lambda>x. x = c) (rev s))"

text \<open>\<open>str.lower\<close>: capitals of ASCII and Latin-1.\<close>

definition lower :: "string \<Rightarrow> string" where
  "lower = map (\<lambda>c. let n = of_char c :: nat in
     if 65 \<le> n \<and> n \<le> 90 \<or> 192 \<le> n \<and> n \<le> 222 \<and> n \<noteq> 215 then char_of (n + 32) else c)"

text \<open>\<open>str.casefold\<close>: capitals of ASCII and Latin-1; the sharp s becomes two letters.  The micro sign
  folds to a letter beyond the model's characters and stays; it equals no ASCII text either way.\<close>

definition casefold :: "string \<Rightarrow> string" where
  "casefold s = concat (map (\<lambda>c. let n = of_char c :: nat in
     if 65 \<le> n \<and> n \<le> 90 \<or> 192 \<le> n \<and> n \<le> 222 \<and> n \<noteq> 215 then [char_of (n + 32)]
     else if n = 223 then ''ss'' else [c]) s)"

lemma split_on_nonempty: "split_on c s \<noteq> []"
  by (induction s) (auto split: list.split)

lemma split_on_word: "c \<notin> set w \<Longrightarrow> split_on c w = [w]"
  by (induction w) auto

lemma split_on_sep: "c \<notin> set w \<Longrightarrow> split_on c (w @ c # s) = w # split_on c s"
  by (induction w) auto

lemma takeWhile_stop: "c \<notin> set w \<Longrightarrow> takeWhile (\<lambda>x. x \<noteq> c) (w @ c # s) = w"
  by (induction w) auto

lemma before_char_stop: "c \<notin> set w \<Longrightarrow> before_char c (w @ c # s) = w"
  by (simp add: before_char_def takeWhile_stop)

lemma before_char_free: "c \<notin> set w \<Longrightarrow> before_char c w = w"
  unfolding before_char_def by (rule takeWhile_eq_all_conv [THEN iffD2]) auto

lemma after_last_free: "c \<notin> set w \<Longrightarrow> after_last c w = w"
proof -
  assume "c \<notin> set w"
  then have "takeWhile (\<lambda>x. x \<noteq> c) (rev w) = rev w" by (intro takeWhile_eq_all_conv [THEN iffD2]) auto
  then show ?thesis by (simp only: after_last_def rev_rev_ident)
qed

lemma rstrip_char_free: "w \<noteq> [] \<Longrightarrow> last w \<noteq> c \<Longrightarrow> rstrip_char c w = w"
  by (cases w rule: rev_cases) (simp_all add: rstrip_char_def)

end
