(* ===== verification/Json.thy ===== *)
theory Json
  imports PyText
begin

text \<open>
  What the sources use of the standard library's \<open>json\<close>: \<open>json.dumps\<close> as the sensor and the
  forwarder call it, and \<open>json.loads\<close> as the forwarder reads the log back.  The decoder follows
  the C scanner: strict strings, the number grammar, \<open>NaN\<close> and the infinities, duplicate object
  keys resolved by the last one, \<open>ValueError\<close> for every malformed document, and \<open>RuntimeError\<close>
  (Python's \<open>RecursionError\<close>) when containers nest deeper than the interpreter allows, a number
  the model takes as the argument \<open>depth\<close>; \<open>json.dumps\<close> follows containers to a limit of its own.  Text is a list of characters below 256; a \<open>\u\<close> escape
  above that is \<open>NotModelled\<close>, and so is the printing of floats.
\<close>

section \<open>Encoding\<close>

text \<open>\<open>json.dumps\<close> with \<open>separators=(",", ":")\<close>, \<open>sort_keys=True\<close> and ASCII output.\<close>

definition hex_digit :: "nat \<Rightarrow> char" where
  "hex_digit d = char_of (if d < 10 then 48 + d else 87 + d)"

definition json_char :: "char \<Rightarrow> string" where
  "json_char c =
     (let n = of_char c :: nat in
      if n = 92 then [CHR 0x5C, CHR 0x5C] else if n = 34 then [CHR 0x5C, CHR 0x22]
      else if n = 8 then [CHR 0x5C, CHR ''b''] else if n = 12 then [CHR 0x5C, CHR ''f'']
      else if n = 10 then [CHR 0x5C, CHR ''n''] else if n = 13 then [CHR 0x5C, CHR ''r'']
      else if n = 9 then [CHR 0x5C, CHR ''t'']
      else if 32 \<le> n \<and> n \<le> 126 then [c]
      else [CHR 0x5C, CHR ''u'', CHR ''0'', CHR ''0'', hex_digit (n div 16), hex_digit (n mod 16)])"

definition json_string :: "string \<Rightarrow> string" where
  "json_string s = CHR 0x22 # concat (map json_char s) @ [CHR 0x22]"

fun join :: "string \<Rightarrow> string list \<Rightarrow> string" where
  "join sep [] = []"
| "join sep [s] = s"
| "join sep (s # t # ss) = s @ sep @ join sep (t # ss)"

fun json_dumps :: "pyval \<Rightarrow> string result" where
  "json_dumps PNone = Inr ''null''"
| "json_dumps (PBool b) = Inr (if b then ''true'' else ''false'')"
| "json_dumps (PInt i) = Inr (show_int i)"
| "json_dumps (PFloat x) = Inl NotModelled"
| "json_dumps (PStr s) = Inr (json_string s)"
| "json_dumps (PList xs) =
     bindE (mapE json_dumps xs) (\<lambda>ts. Inr (''['' @ join '','' ts @ '']''))"
| "json_dumps (PDict d) =
     bindE (mapE (\<lambda>(k, v). bindE (json_dumps v) (\<lambda>t. Inr (k, t))) d) (\<lambda>kts.
     Inr (''{'' @ join '','' (map (\<lambda>(k, t). json_string k @ '':'' @ t) (sort_key fst kts)) @ ''}''))"

section \<open>Printable text\<close>

text \<open>Whatever the value holds, its text is printable ASCII: a value stays one line.\<close>

definition printable :: "string \<Rightarrow> bool" where
  "printable s \<longleftrightarrow> list_all (\<lambda>c. 32 \<le> (of_char c :: nat) \<and> (of_char c :: nat) \<le> 126) s"

lemma printable_simps [simp]:
  "printable []" "printable (c # s) \<longleftrightarrow> 32 \<le> (of_char c :: nat) \<and> (of_char c :: nat) \<le> 126 \<and> printable s"
  "printable (s @ t) \<longleftrightarrow> printable s \<and> printable t"
  by (simp_all add: printable_def)

lemma printable_concat: "(\<And>s. s \<in> set ss \<Longrightarrow> printable s) \<Longrightarrow> printable (concat ss)"
  by (induction ss) simp_all

lemma printable_join: "printable sep \<Longrightarrow> (\<And>s. s \<in> set ss \<Longrightarrow> printable s) \<Longrightarrow> printable (join sep ss)"
  by (induction sep ss rule: join.induct) simp_all

lemma hex_digit_printable: "d < 16 \<Longrightarrow> 32 \<le> (of_char (hex_digit d) :: nat) \<and> (of_char (hex_digit d) :: nat) \<le> 126"
  by (simp add: hex_digit_def)

lemma json_char_printable: "printable (json_char c)"
proof -
  have n: "(of_char c :: nat) < 256" by (rule nat_of_char_less_256)
  then have "(of_char c :: nat) div 16 < 16" "(of_char c :: nat) mod 16 < 16"
    by (simp_all add: less_mult_imp_div_less)
  then show ?thesis by (simp add: json_char_def Let_def hex_digit_printable)
qed

lemma json_string_printable: "printable (json_string s)"
  by (simp add: json_string_def) (auto intro!: printable_concat simp: json_char_printable)

lemma show_nat_printable: "printable (show_nat n)"
  unfolding printable_def list_all_iff by (auto dest!: show_nat_digits simp: digit_def)

lemma show_int_printable: "printable (show_int i)"
  by (simp add: show_int_def show_nat_printable)

lemma json_dumps_printable: "json_dumps v = Inr s \<Longrightarrow> printable s"
proof (induction v arbitrary: s rule: json_dumps.induct)
  case (6 xs)
  then obtain ts where ts: "mapE json_dumps xs = Inr ts" and s: "s = ''['' @ join '','' ts @ '']''"
    by (auto simp: bindE_eq_Inr)
  have "printable t" if "t \<in> set ts" for t
    using that 6(1) ts unfolding mapE_eq_Inr list_all2_conv_all_nth by (metis in_set_conv_nth)
  then show ?case unfolding s by (simp add: printable_join)
next
  case (7 d)
  let ?item = "\<lambda>(k, v). bindE (json_dumps v) (\<lambda>t. Inr (k, t))"
  obtain kts where kts: "mapE ?item d = Inr kts"
    and s: "s = ''{'' @ join '','' (map (\<lambda>(k, t). json_string k @ '':'' @ t) (sort_key fst kts)) @ ''}''"
    using 7(2) by (auto simp: bindE_eq_Inr)
  have "printable t" if kt: "(k, t) \<in> set kts" for k t
  proof -
    from kt kts obtain kv where kv: "kv \<in> set d" "?item kv = Inr (k, t)"
      unfolding mapE_eq_Inr list_all2_conv_all_nth by (metis in_set_conv_nth)
    obtain k' v where "kv = (k', v)" by (cases kv)
    with kv have "(k', v) \<in> set d" "json_dumps v = Inr t" by (auto simp: bindE_eq_Inr)
    with 7(1) show ?thesis by blast
  qed
  then show ?case unfolding s by (auto intro!: printable_join simp: json_string_printable)
qed (auto simp: json_string_printable show_int_printable)

text \<open>
  The encoder recurses once for every container it enters, and raises \<open>RecursionError\<close> at the limit
  the interpreter leaves it.  The events of the sensor never get there; what the forwarder reads may.
\<close>

abbreviation recursion_error :: exn where "recursion_error \<equiv> RuntimeError ''maximum recursion depth exceeded''"

fun nests_within :: "nat \<Rightarrow> pyval \<Rightarrow> bool" where
  "nests_within n (PList xs) = (0 < n \<and> list_all (nests_within (n - 1)) xs)"
| "nests_within n (PDict d) = (0 < n \<and> list_all (\<lambda>(k, v). nests_within (n - 1) v) d)"
| "nests_within n v = True"

definition dumps_within :: "nat \<Rightarrow> pyval \<Rightarrow> string result" where
  "dumps_within limit v = (if nests_within limit v then json_dumps v else Inl recursion_error)"

text \<open>Values without floats always serialise.\<close>

fun float_free :: "pyval \<Rightarrow> bool" where
  "float_free (PFloat x) = False"
| "float_free (PList xs) = list_all float_free xs"
| "float_free (PDict d) = list_all (\<lambda>(k, v). float_free v) d"
| "float_free v = True"

lemma json_dumps_total: "float_free v \<Longrightarrow> isOK (json_dumps v)"
  by (induction v rule: json_dumps.induct) (fastforce simp: isOK_mapE list_all_iff)+

end
