(* ===== verification/Telemetry.thy ===== *)
theory Telemetry
  imports Transport_Context Wet_Well_Writes Json
begin

text \<open>
  \<open>telemetry.py\<close>: the event record, the factory that numbers events, and the JSON line an
  event is logged as.  The keyword arguments of \<open>create\<close> are the parent record of the event;
  \<open>uuid4()\<close> and the clock are an environment, read once per event.
\<close>

section \<open>Events\<close>

record event_fields =
  ev_unit_id :: int
  ev_function_code :: int
  ev_operation :: string
  ev_area :: "string option"
  ev_address :: int
  ev_count :: int
  ev_register_keys :: "string list"
  ev_requested_values :: "pyval list option"
  ev_response_values :: "(string \<times> raw) list option"
  ev_result :: string
  ev_exception_code :: "int option"
  ev_before :: "(string \<times> raw) list option"
  ev_after :: "(string \<times> raw) list option"

record ProtocolEvent = event_fields +
  ev_schema_version :: string
  ev_event_id :: string
  ev_observed_at :: string
  ev_sensor_sequence :: int
  ev_event_type :: string
  ev_protocol :: string
  ev_source_ip :: "string option"
  ev_source_port :: "int option"
  ev_transaction_id :: "int option"
  ev_session_id :: "string option"
  ev_transport_context :: string

text \<open>The arguments every call gives, with the defaults of the optional ones.\<close>

definition fields_of :: "int \<Rightarrow> int \<Rightarrow> string \<Rightarrow> string option \<Rightarrow> int \<Rightarrow> int \<Rightarrow> event_fields" where
  "fields_of unit fc operation a addr n = \<lparr>
     ev_unit_id = unit, ev_function_code = fc, ev_operation = operation, ev_area = a,
     ev_address = addr, ev_count = n, ev_register_keys = [], ev_requested_values = None,
     ev_response_values = None, ev_result = ''ok'', ev_exception_code = None,
     ev_before = None, ev_after = None\<rparr>"

section \<open>The event factory\<close>

record environment =
  uuid4 :: "int \<Rightarrow> string"
  utc_now :: "int \<Rightarrow> string"

record EventFactory =
  sequence_no :: int

definition EventFactory_init :: EventFactory where
  "EventFactory_init = \<lparr>sequence_no = 0\<rparr>"

definition EVENT_SCHEMA_VERSION :: string where
  "EVENT_SCHEMA_VERSION = ''1.2.0''"

definition create ::
  "'e environment_scheme \<Rightarrow> RequestTransportContext option \<Rightarrow> event_fields \<Rightarrow> EventFactory \<Rightarrow>
     ProtocolEvent \<times> EventFactory" where
  "create env transport f factory =
     (let factory' = factory\<lparr>sequence_no := sequence_no factory + 1\<rparr>; n = sequence_no factory' in
      (event_fields.extend f (ProtocolEvent.fields
         EVENT_SCHEMA_VERSION (uuid4 env n) (utc_now env n) n
         ''modbus_transaction'' ''modbus_tcp''
         (map_option ctx_source_ip transport) (map_option ctx_source_port transport)
         (map_option ctx_transaction_id transport) (map_option ctx_session_id transport)
         (case transport of None \<Rightarrow> ''unavailable_in_protocol_adapter''
          | Some _ \<Rightarrow> ''pymodbus_request_handler'')),
       factory'))"

lemma create_factory [simp]: "sequence_no (snd (create env t f fac)) = sequence_no fac + 1"
  by (simp add: create_def Let_def)

lemma create_event [simp]:
  "ev_sensor_sequence (fst (create env t f fac)) = sequence_no fac + 1"
  "ev_source_ip (fst (create env t f fac)) = map_option ctx_source_ip t"
  "ev_source_port (fst (create env t f fac)) = map_option ctx_source_port t"
  "ev_transaction_id (fst (create env t f fac)) = map_option ctx_transaction_id t"
  "ev_session_id (fst (create env t f fac)) = map_option ctx_session_id t"
  "ev_transport_context (fst (create env t f fac)) =
     (case t of None \<Rightarrow> ''unavailable_in_protocol_adapter'' | Some _ \<Rightarrow> ''pymodbus_request_handler'')"
  by (simp_all add: create_def event_fields.defs ProtocolEvent.defs Let_def)

lemma create_fields [simp]: "event_fields.truncate (fst (create env t f fac)) = f"
  by (simp add: create_def event_fields.defs ProtocolEvent.defs Let_def)

text \<open>The factory is a source of numbered items.\<close>

interpretation events: numbering "\<lambda>(t, f). create env t f" sequence_no ev_sensor_sequence
  by unfold_locales (simp_all split: prod.split)

section \<open>JSON lines\<close>

definition py_option :: "('a \<Rightarrow> pyval) \<Rightarrow> 'a option \<Rightarrow> pyval" where
  "py_option f x = (case x of None \<Rightarrow> PNone | Some v \<Rightarrow> f v)"

definition raw_dict :: "(string \<times> raw) list \<Rightarrow> pyval" where
  "raw_dict d = PDict (map (\<lambda>(k, v). (k, raw_value v)) d)"

definition to_dict :: "ProtocolEvent \<Rightarrow> pyval" where
  "to_dict e = PDict [
     (''schema_version'', PStr (ev_schema_version e)), (''event_id'', PStr (ev_event_id e)),
     (''observed_at'', PStr (ev_observed_at e)), (''sensor_sequence'', PInt (ev_sensor_sequence e)),
     (''event_type'', PStr (ev_event_type e)), (''protocol'', PStr (ev_protocol e)),
     (''unit_id'', PInt (ev_unit_id e)), (''function_code'', PInt (ev_function_code e)),
     (''operation'', PStr (ev_operation e)), (''area'', py_option PStr (ev_area e)),
     (''address'', PInt (ev_address e)), (''count'', PInt (ev_count e)),
     (''register_keys'', PList (map PStr (ev_register_keys e))),
     (''requested_values'', py_option PList (ev_requested_values e)),
     (''response_values'', py_option raw_dict (ev_response_values e)),
     (''result'', PStr (ev_result e)), (''exception_code'', py_option PInt (ev_exception_code e)),
     (''before'', py_option raw_dict (ev_before e)), (''after'', py_option raw_dict (ev_after e)),
     (''source_ip'', py_option PStr (ev_source_ip e)),
     (''source_port'', py_option PInt (ev_source_port e)),
     (''transaction_id'', py_option PInt (ev_transaction_id e)),
     (''session_id'', py_option PStr (ev_session_id e)),
     (''transport_context'', PStr (ev_transport_context e))]"

definition to_json :: "ProtocolEvent \<Rightarrow> string result" where
  "to_json e = json_dumps (to_dict e)"

end
