(* ===== verification/Telemetry_Claims.thy ===== *)
theory Telemetry_Claims
  imports Telemetry
begin

text \<open>
  What telemetry promises: consecutive numbering, an identity that comes only from the bound
  request context, and one printable line per event.
\<close>

text \<open>The events one factory creates, whatever their contents and contexts, carry the
  sequence numbers 1, 2, 3, ... in the order of creation.\<close>

theorem events_numbered_consecutively:
  "map ev_sensor_sequence (fst (mapS (\<lambda>(t, f). create env t f) reqs EventFactory_init)) =
     map (\<lambda>i. 1 + int i) [0..<length reqs]"
  using events.run_labels [of env reqs EventFactory_init] by (simp add: EventFactory_init_def)

text \<open>A task that creates one event in the context it runs in.\<close>

definition record_event :: "'e environment_scheme \<Rightarrow> event_fields \<Rightarrow> (EventFactory, ProtocolEvent) task" where
  "record_event env f st =
     (let (e, factory) = create env (current_transport_context st) f (snd st) in ((fst st, factory), Inr e))"

lemma record_event_eq:
  "record_event env f (t, fac) = ((t, snd (create env t f fac)), Inr (fst (create env t f fac)))"
  by (simp add: record_event_def current_transport_context_def case_prod_unfold Let_def)

text \<open>An event created while a request context is bound carries exactly that peer, transaction
  and session; the block restores the previous context even when its body raises or rebinds, so
  the next event of a task without context carries no identity at all and says so.\<close>

theorem bound_identity_does_not_leak:
  assumes "fst st = None"
  shows "(\<exists>e. snd (bind_transport_context ctx (record_event env f) st) = Inr e \<and>
      ev_source_ip e = Some (ctx_source_ip ctx) \<and> ev_source_port e = Some (ctx_source_port ctx) \<and>
      ev_transaction_id e = Some (ctx_transaction_id ctx) \<and> ev_session_id e = Some (ctx_session_id ctx) \<and>
      ev_transport_context e = ''pymodbus_request_handler'') \<and>
    (\<exists>e. snd (record_event env f' (fst (bind_transport_context ctx body st))) = Inr e \<and>
      ev_source_ip e = None \<and> ev_source_port e = None \<and> ev_transaction_id e = None \<and>
      ev_session_id e = None \<and> ev_transport_context e = ''unavailable_in_protocol_adapter'')"
proof
  obtain fac where st: "st = (None, fac)" using assms by (cases st) simp
  show "\<exists>e. snd (bind_transport_context ctx (record_event env f) st) = Inr e \<and>
      ev_source_ip e = Some (ctx_source_ip ctx) \<and> ev_source_port e = Some (ctx_source_port ctx) \<and>
      ev_transaction_id e = Some (ctx_transaction_id ctx) \<and> ev_session_id e = Some (ctx_session_id ctx) \<and>
      ev_transport_context e = ''pymodbus_request_handler''"
    by (simp add: st bind_transport_context_body record_event_eq)
  have "fst (fst (bind_transport_context ctx body st)) = None"
    using assms by (simp add: frame)
  then obtain fac' where "fst (bind_transport_context ctx body st) = (None, fac')"
    by (cases "fst (bind_transport_context ctx body st)") simp
  then show "\<exists>e. snd (record_event env f' (fst (bind_transport_context ctx body st))) = Inr e \<and>
      ev_source_ip e = None \<and> ev_source_port e = None \<and> ev_transaction_id e = None \<and>
      ev_session_id e = None \<and> ev_transport_context e = ''unavailable_in_protocol_adapter''"
    by (simp add: record_event_eq)
qed

definition sample_environment :: environment where
  "sample_environment = \<lparr>uuid4 = (\<lambda>i. ''event-'' @ show_int i), utc_now = (\<lambda>i. ''2026-01-01'')\<rparr>"

theorem bound_identity_does_not_leak_witness:
  "\<exists>e. snd (bind_transport_context (RequestTransportContext.make ''10.0.0.9'' 50123 77 ''s1'')
        (record_event sample_environment (fields_of 7 3 ''read'' None 0 1)) (None, EventFactory_init)) = Inr e \<and>
      ev_source_ip e = Some ''10.0.0.9'' \<and> ev_transaction_id e = Some 77"
  using bound_identity_does_not_leak [of "(None, EventFactory_init)"
      "RequestTransportContext.make ''10.0.0.9'' 50123 77 ''s1''" sample_environment
      "fields_of 7 3 ''read'' None 0 1" "fields_of 7 3 ''read'' None 0 1"
      "record_event sample_environment (fields_of 7 3 ''read'' None 0 1)"]
  by (auto simp: RequestTransportContext.make_def)

section \<open>Lines\<close>

lemma float_free_raw_dict [simp]: "float_free (raw_dict d)"
proof -
  have "float_free (raw_value r)" for r by (cases r) simp_all
  then show ?thesis by (auto simp: raw_dict_def list_all_iff)
qed

lemma float_free_option:
  "(\<And>y. x = Some y \<Longrightarrow> float_free (f y)) \<Longrightarrow> float_free (py_option f x)"
  by (simp add: py_option_def split: option.split)

text \<open>Every event whose requested values are integers and booleans becomes one line of
  printable ASCII: no client-controlled text can break a log line or forge another one.\<close>

theorem event_line_printable:
  assumes "\<And>vs. ev_requested_values e = Some vs \<Longrightarrow> list_all is_int vs"
  shows "\<exists>line. to_json e = Inr line \<and> printable line"
proof -
  have req: "float_free (py_option PList (ev_requested_values e))"
  proof (rule float_free_option)
    fix vs assume "ev_requested_values e = Some vs"
    from assms [OF this] show "float_free (PList vs)"
      by (auto simp: list_all_iff elim!: is_int.elims(2))
  qed
  have "float_free (to_dict e)"
    by (simp add: to_dict_def req) (simp add: float_free_option list_all_iff)
  from json_dumps_total [OF this] obtain line where "to_json e = Inr line"
    by (auto simp: to_json_def isOK_iff)
  with json_dumps_printable show ?thesis by (auto simp: to_json_def)
qed

theorem event_line_printable_witness:
  "\<exists>line. to_json (fst (create sample_environment None
      ((fields_of 7 6 [char_of (10::nat)] None 0 1)\<lparr>ev_requested_values := Some [PInt 5, PBool True]\<rparr>)
      EventFactory_init)) = Inr line \<and> printable line"
  by (rule event_line_printable)
    (simp add: create_def Let_def event_fields.defs ProtocolEvent.defs fields_of_def)

end
