(* ===== verification/Protocol.thy ===== *)
theory Protocol
  imports Telemetry
begin

unbundle bit_operations_syntax

text \<open>
  \<open>protocol.py\<close>: the adapter between PyModbus memory and the process model.  The record of
  PyModbus functions the adapter calls is a parameter: the bit packing of \<open>SimUtils\<close> and the
  numeric value of an exception code.  \<open>action\<close> is the whole hook, from the function code to
  the event of each of its exits; it never awaits, so it is one step over the adapter and
  the register block PyModbus handed to it.
\<close>

section \<open>Tables\<close>

definition FUNCTION_AREA :: "int \<Rightarrow> string option" where
  "FUNCTION_AREA fc =
     map_of [(1, ''coil''), (2, ''discrete_input''), (3, ''holding_register''), (4, ''input_register''),
       (5, ''coil''), (6, ''holding_register''), (15, ''coil''), (16, ''holding_register'')] fc"

definition WRITE_FUNCTIONS :: "int list" where
  "WRITE_FUNCTIONS = [5, 6, 15, 16]"

definition AREA_ORDER :: "string list" where
  "AREA_ORDER = [''coil'', ''discrete_input'', ''holding_register'', ''input_register'']"

datatype DataType = BITS | INT16 | UINT16

datatype ExcCodes =
    ILLEGAL_FUNCTION | ILLEGAL_ADDRESS | ILLEGAL_VALUE | SERVER_FAILURE | GATEWAY_NO_RESPONSE | DEVICE_FAILURE

record pymodbus = environment +
  registersToBits :: "int list \<Rightarrow> bool list"
  bitsToRegisters :: "bool list \<Rightarrow> int list"
  exc_int :: "ExcCodes \<Rightarrow> int"

definition sim_datatype :: "RegisterDefinition \<Rightarrow> DataType" where
  "sim_datatype d =
     (if data_type d = ''bool'' then BITS else if data_type d = ''int16'' then INT16 else UINT16)"

definition encode_register :: "raw \<Rightarrow> int" where
  "encode_register v = raw_int v AND 0xFFFF"

section \<open>The datastore wrapper\<close>

text \<open>
  \<open>SimCore\<close> is a parameter: a state and the two accesses it serves.  The wrapper only
  decides which requests reach it.
\<close>

record ('c, 'r, 'v) SimCore =
  core_get :: "int \<Rightarrow> int \<Rightarrow> int \<Rightarrow> int \<Rightarrow> 'c \<Rightarrow> 'c \<times> 'r result"
  core_set :: "int \<Rightarrow> int \<Rightarrow> int \<Rightarrow> 'v list \<Rightarrow> 'c \<Rightarrow> 'c \<times> 'r result"

definition require_device :: "int list \<Rightarrow> int \<Rightarrow> unit result" where
  "require_device ids device_id = (if device_id \<in> set ids then Inr () else Inl NoSuchIdException)"

definition device_ids :: "int list \<Rightarrow> int list" where
  "device_ids ids = sorted_list_of_set (set ids)"

definition async_getValues ::
  "('c, 'r, 'v) SimCore \<Rightarrow> int list \<Rightarrow> int \<Rightarrow> int \<Rightarrow> int \<Rightarrow> int \<Rightarrow> 'c \<Rightarrow> 'c \<times> 'r result" where
  "async_getValues core ids device_id fc addr n c =
     (case require_device ids device_id of Inl e \<Rightarrow> (c, Inl e)
      | Inr _ \<Rightarrow> core_get core device_id fc addr n c)"

definition async_setValues ::
  "('c, 'r, 'v) SimCore \<Rightarrow> int list \<Rightarrow> int \<Rightarrow> int \<Rightarrow> int \<Rightarrow> 'v list \<Rightarrow> 'c \<Rightarrow> 'c \<times> 'r result" where
  "async_setValues core ids device_id fc addr vs c =
     (case require_device ids device_id of Inl e \<Rightarrow> (c, Inl e)
      | Inr _ \<Rightarrow> core_set core device_id fc addr vs c)"

section \<open>The adapter\<close>

text \<open>
  The sink is any callable over a state of its own, and it may raise.  \<open>adapter_map\<close> is the
  map the adapter was given, which need not be the process model's.
\<close>

type_synonym 'w sink = "ProtocolEvent \<Rightarrow> 'w \<Rightarrow> 'w \<times> exn option"

record 'w ProcessProtocolAdapter =
  model :: WetWellProcess
  adapter_map :: RegisterMap
  identity :: "(string \<times> string) list"
  event_sink :: "'w sink option"
  event_factory :: EventFactory
  sink_state :: 'w

definition build_identity :: "RegisterMap \<Rightarrow> (string \<times> string) list result" where
  "build_identity m =
     bindE (py_getitem (document m) ''device'') (\<lambda>device_data.
     mapE (\<lambda>(name, k). bindE (bindE (py_getitem device_data k) py_str) (\<lambda>s. Inr (name, s)))
       [(''VendorName'', ''vendor_name''), (''ProductCode'', ''product_code''),
        (''MajorMinorRevision'', ''revision''), (''VendorUrl'', ''vendor_url''),
        (''ProductName'', ''product_name''), (''ModelName'', ''model_name''),
        (''UserApplicationName'', ''user_application_name'')])"

definition ProcessProtocolAdapter_init ::
  "WetWellProcess \<Rightarrow> RegisterMap option \<Rightarrow> 'w sink option \<Rightarrow> 'w \<Rightarrow> 'w ProcessProtocolAdapter result" where
  "ProcessProtocolAdapter_init p mo sink w =
     (let m = (case mo of Some m \<Rightarrow> m | None \<Rightarrow> register_map p) in
      bindE (build_identity m) (\<lambda>ident.
      Inr \<lparr>model = p, adapter_map = m, identity = ident, event_sink = sink,
           event_factory = EventFactory_init, sink_state = w\<rparr>))"

text \<open>Telemetry cannot break the request: whatever the sink raises is logged and dropped.\<close>

definition emit_event ::
  "'e environment_scheme \<Rightarrow> RequestTransportContext option \<Rightarrow> event_fields \<Rightarrow>
     'w ProcessProtocolAdapter \<Rightarrow> 'w ProcessProtocolAdapter" where
  "emit_event env ctx f a =
     (case event_sink a of None \<Rightarrow> a
      | Some sink \<Rightarrow>
          let (e, factory) = create env ctx f (event_factory a);
              (w, raised) = sink e (sink_state a)
          in a\<lparr>event_factory := factory, sink_state := w\<rparr>)"

text \<open>\<open>snapshot[key]\<close> for one key and for the keys of a dict comprehension.\<close>

definition snap_at :: "(string \<times> raw) list \<Rightarrow> string \<Rightarrow> raw result" where
  "snap_at snapshot k = (case map_of snapshot k of Some v \<Rightarrow> Inr v | None \<Rightarrow> Inl (KeyError k))"

definition select :: "(string \<times> raw) list \<Rightarrow> string list \<Rightarrow> (string \<times> raw) list result" where
  "select snapshot ks =
     bindE (mapE (\<lambda>k. bindE (snap_at snapshot k) (\<lambda>v. Inr (k, v))) ks) (\<lambda>kvs. Inr (dict_of kvs))"

section \<open>Synchronising a register block\<close>

definition sync_register ::
  "int \<Rightarrow> (string \<times> raw) list \<Rightarrow> RegisterDefinition \<Rightarrow> int list stmt" where
  "sync_register start snapshot d regs =
     (let index = address d - start in
      if 0 \<le> index \<and> index < int (length regs)
      then case snap_at snapshot (key d) of
             Inl e \<Rightarrow> (regs, Some e) | Inr v \<Rightarrow> (regs[nat index := encode_register v], None)
      else (regs, None))"

definition sync_register_area ::
  "RegisterMap \<Rightarrow> string \<Rightarrow> int \<Rightarrow> (string \<times> raw) list \<Rightarrow> int list stmt" where
  "sync_register_area m a start snapshot regs =
     run_stmts (map (sync_register start snapshot) (for_area m a)) regs"

definition sync_bit :: "int \<Rightarrow> (string \<times> raw) list \<Rightarrow> RegisterDefinition \<Rightarrow> bool list stmt" where
  "sync_bit bit_base snapshot d bits =
     (let index = address d - bit_base in
      if 0 \<le> index \<and> index < int (length bits)
      then case snap_at snapshot (key d) of
             Inl e \<Rightarrow> (bits, Some e) | Inr v \<Rightarrow> (bits[nat index := raw_bool v], None)
      else (bits, None))"

definition sync_bit_area ::
  "'e pymodbus_scheme \<Rightarrow> RegisterMap \<Rightarrow> string \<Rightarrow> int \<Rightarrow> (string \<times> raw) list \<Rightarrow> int list stmt" where
  "sync_bit_area env m a start snapshot regs =
     (case run_stmts (map (sync_bit (start * 16) snapshot) (for_area m a)) (registersToBits env regs) of
        (bits, None) \<Rightarrow> (bitsToRegisters env bits, None)
      | (_, Some e) \<Rightarrow> (regs, Some e))"

definition sync_area ::
  "'e pymodbus_scheme \<Rightarrow> 'w ProcessProtocolAdapter \<Rightarrow> string \<Rightarrow> int \<Rightarrow> int list \<Rightarrow>
     int list \<times> (string \<times> raw) list result" where
  "sync_area env a ar start regs =
     (case snapshot_raw (model a) of Inl e \<Rightarrow> (regs, Inl e)
      | Inr snapshot \<Rightarrow>
          case (if ar = ''coil'' \<or> ar = ''discrete_input''
                then sync_bit_area env (adapter_map a) ar start snapshot regs
                else sync_register_area (adapter_map a) ar start snapshot regs) of
            (regs', None) \<Rightarrow> (regs', Inr snapshot)
          | (regs', Some e) \<Rightarrow> (regs', Inl e))"

section \<open>The action hook\<close>

text \<open>Emit an event, whose arguments may raise while they are evaluated, and return.\<close>

definition emit_return ::
  "'e environment_scheme \<Rightarrow> RequestTransportContext option \<Rightarrow> event_fields result \<Rightarrow> ExcCodes option \<Rightarrow>
     'w ProcessProtocolAdapter \<Rightarrow> 'w ProcessProtocolAdapter \<times> ExcCodes option result" where
  "emit_return env ctx args ret a =
     (case args of Inl e \<Rightarrow> (a, Inl e) | Inr f \<Rightarrow> (emit_event env ctx f a, Inr ret))"

definition failure_fields ::
  "'e pymodbus_scheme \<Rightarrow> RegisterMap \<Rightarrow> int \<Rightarrow> string \<Rightarrow> string option \<Rightarrow> int \<Rightarrow> int \<Rightarrow> ExcCodes \<Rightarrow>
     event_fields result" where
  "failure_fields env m fc operation ar addr n code =
     bindE (unit_id m) (\<lambda>u.
     Inr ((fields_of u fc operation ar addr n)\<lparr>ev_result := ''exception'',
            ev_exception_code := Some (exc_int env code)\<rparr>))"

definition with_request :: "string list \<Rightarrow> pyval list \<Rightarrow> event_fields \<Rightarrow> event_fields" where
  "with_request ks vs f = f\<lparr>ev_register_keys := ks, ev_requested_values := Some vs\<rparr>"

definition read_keys :: "RegisterMap \<Rightarrow> string \<Rightarrow> int \<Rightarrow> int \<Rightarrow> string list" where
  "read_keys m ar addr n =
     concat (map (\<lambda>offset. case map_of (by_location m) (ar, addr + int offset) of
       Some d \<Rightarrow> [key d] | None \<Rightarrow> []) [0..<nat n])"

definition action_read ::
  "'e pymodbus_scheme \<Rightarrow> RequestTransportContext option \<Rightarrow> int \<Rightarrow> string \<Rightarrow> int \<Rightarrow> int \<Rightarrow>
     (string \<times> raw) list \<Rightarrow> 'w ProcessProtocolAdapter \<Rightarrow> 'w ProcessProtocolAdapter \<times> ExcCodes option result" where
  "action_read env ctx fc ar addr n served a =
     (let keys = read_keys (adapter_map a) ar addr n in
      emit_return env ctx
        (bindE (unit_id (adapter_map a)) (\<lambda>u. bindE (select served keys) (\<lambda>resp.
         Inr ((fields_of u fc ''read'' (Some ar) addr n)\<lparr>ev_register_keys := keys,
                ev_response_values := Some resp\<rparr>))))
        None a)"

text \<open>
  The definitions a write addresses, one per value; \<open>Inl\<close> carries the keys that the
  ILLEGAL_ADDRESS event names.
\<close>

fun locate :: "RegisterMap \<Rightarrow> string \<Rightarrow> int \<Rightarrow> nat \<Rightarrow> RegisterDefinition list \<Rightarrow>
    string list + RegisterDefinition list" where
  "locate m ar addr 0 defs = Inr defs"
| "locate m ar addr (Suc n) defs =
     (case require_location m ar addr of
        Inl _ \<Rightarrow> Inl (map key defs)
      | Inr d \<Rightarrow> if writable d then locate m ar (addr + 1) n (defs @ [d]) else Inl [key d])"

definition write_stmt :: "RegisterDefinition \<times> raw \<Rightarrow> WetWellProcess stmt" where
  "write_stmt dv p =
     (case write_raw p (key (fst dv)) (raw_value (snd dv)) of
        (p', Inl e) \<Rightarrow> (p', Some e) | (p', Inr _) \<Rightarrow> (p', None))"

definition write_all :: "(RegisterDefinition \<times> raw) list \<Rightarrow> WetWellProcess stmt" where
  "write_all dvs = run_stmts (map write_stmt dvs)"

definition is_write_error :: "exn \<Rightarrow> bool" where
  "is_write_error e = (case e of ProcessWriteError _ \<Rightarrow> True | _ \<Rightarrow> False)"

text \<open>All values are checked before the first one is written.\<close>

definition action_commit ::
  "'e pymodbus_scheme \<Rightarrow> RequestTransportContext option \<Rightarrow> int \<Rightarrow> string \<Rightarrow> int \<Rightarrow> int \<Rightarrow>
     (string \<times> raw) list \<Rightarrow> RegisterDefinition list \<Rightarrow> raw list \<Rightarrow>
     'w ProcessProtocolAdapter \<times> int list \<Rightarrow>
     ('w ProcessProtocolAdapter \<times> int list) \<times> ExcCodes option result" where
  "action_commit env ctx fc ar start addr before_snapshot defs normalized st =
     (case st of (a, regs) \<Rightarrow>
      case write_all (zip defs normalized) (model a) of
        (p, Some e) \<Rightarrow> ((a\<lparr>model := p\<rparr>, regs),
                         if is_write_error e then Inr (Some SERVER_FAILURE) else Inl e)
      | (p, None) \<Rightarrow>
      let a1 = a\<lparr>model := p\<rparr> in
      case sync_area env a1 ar start regs of (regs', Inl e) \<Rightarrow> ((a1, regs'), Inl e) | (regs', Inr _) \<Rightarrow>
      let keys = map key defs in
      case snapshot_raw p of Inl e \<Rightarrow> ((a1, regs'), Inl e) | Inr after_snapshot \<Rightarrow>
      let (a2, r) = emit_return env ctx
            (bindE (unit_id (adapter_map a)) (\<lambda>u. bindE (select before_snapshot keys) (\<lambda>b.
             bindE (select after_snapshot keys) (\<lambda>af.
             Inr ((with_request keys (map raw_value normalized)
                     (fields_of u fc ''write'' (Some ar) addr (int (length normalized))))
                  \<lparr>ev_before := Some b, ev_after := Some af\<rparr>)))))
            None a1
      in ((a2, regs'), r))"

definition action_write ::
  "'e pymodbus_scheme \<Rightarrow> RequestTransportContext option \<Rightarrow> int \<Rightarrow> string \<Rightarrow> int \<Rightarrow> int \<Rightarrow> pyval list \<Rightarrow>
     'w ProcessProtocolAdapter \<times> int list \<Rightarrow>
     ('w ProcessProtocolAdapter \<times> int list) \<times> ExcCodes option result" where
  "action_write env ctx fc ar start addr set_values st =
     (case st of (a, regs) \<Rightarrow>
      let n = length set_values;
          refuse = (\<lambda>ks code a regs.
            let (a', r) = emit_return env ctx
                  (bindE (failure_fields env (adapter_map a) fc ''write'' (Some ar) addr (int n) code)
                     (\<lambda>f. Inr (with_request ks set_values f))) (Some code) a
            in ((a', regs), r))
      in
      case snapshot_raw (model a) of Inl e \<Rightarrow> ((a, regs), Inl e) | Inr before_snapshot \<Rightarrow>
      case locate (adapter_map a) ar addr n [] of Inl ks \<Rightarrow> refuse ks ILLEGAL_ADDRESS a regs | Inr defs \<Rightarrow>
      case mapE (\<lambda>(d, v). coerce_write d v) (zip defs set_values) of
        Inl e \<Rightarrow> if is_write_error e then refuse (map key defs) ILLEGAL_VALUE a regs
                 else ((a, regs), Inl e)
      | Inr normalized \<Rightarrow>
          action_commit env ctx fc ar start addr before_snapshot defs normalized (a, regs))"

definition action ::
  "'e pymodbus_scheme \<Rightarrow> RequestTransportContext option \<Rightarrow> int \<Rightarrow> int \<Rightarrow> int \<Rightarrow> int \<Rightarrow> pyval list option \<Rightarrow>
     'w ProcessProtocolAdapter \<times> int list \<Rightarrow>
     ('w ProcessProtocolAdapter \<times> int list) \<times> ExcCodes option result" where
  "action env ctx fc start addr n set_values st =
     (case st of (a, regs) \<Rightarrow>
      case FUNCTION_AREA fc of
        None \<Rightarrow>
          let (a', r) = emit_return env ctx
                (failure_fields env (adapter_map a) fc ''unknown'' None addr n ILLEGAL_FUNCTION)
                (Some ILLEGAL_FUNCTION) a
          in ((a', regs), r)
      | Some ar \<Rightarrow>
          case sync_area env a ar start regs of
            (regs', Inl e) \<Rightarrow> ((a, regs'), Inl e)
          | (regs', Inr served) \<Rightarrow>
              if fc \<in> set WRITE_FUNCTIONS
              then case set_values of None \<Rightarrow> ((a, regs'), Inr None)
                   | Some vs \<Rightarrow> action_write env ctx fc ar start addr vs (a, regs')
              else let (a', r) = action_read env ctx fc ar addr n served a in ((a', regs'), r))"

section \<open>The device PyModbus serves\<close>

record SimData =
  sim_address :: int
  sim_values :: raw
  sim_type :: DataType
  sim_readonly :: bool

record SimDevice =
  sim_id :: int
  sim_blocks :: "SimData list list"
  sim_identity :: "(string \<times> string) list"

definition build_entry :: "(string \<times> raw) list \<Rightarrow> RegisterDefinition \<Rightarrow> SimData result" where
  "build_entry snapshot d =
     bindE (snap_at snapshot (key d)) (\<lambda>v.
     Inr \<lparr>sim_address = address d, sim_values = v, sim_type = sim_datatype d,
          sim_readonly = (\<not> writable d)\<rparr>)"

definition build_block :: "RegisterMap \<Rightarrow> (string \<times> raw) list \<Rightarrow> string \<Rightarrow> SimData list result" where
  "build_block m snapshot ar =
     bindE (mapE (build_entry snapshot) (for_area m ar)) (\<lambda>entries.
     if entries = [] then Inl (ValueError ''register map area is empty'') else Inr entries)"

definition build_device :: "'w ProcessProtocolAdapter \<Rightarrow> SimDevice result" where
  "build_device a =
     bindE (snapshot_raw (model a)) (\<lambda>snapshot.
     bindE (mapE (build_block (adapter_map a) snapshot) AREA_ORDER) (\<lambda>blocks.
     bindE (unit_id (adapter_map a)) (\<lambda>u.
     Inr \<lparr>sim_id = u, sim_blocks = blocks, sim_identity = identity a\<rparr>)))"

end
