(* ===== verification/Protocol_Props.thy ===== *)
theory Protocol_Props
  imports Protocol Wet_Well_Spec
begin

text \<open>
  The adapter's lemmas: synchronising a block is a pointwise function of the snapshot, a
  write request is planned before it is executed, an event never touches the process, and
  \<open>action\<close> has a closed form on adapters whose map is the process model's.
\<close>

section \<open>Fitting adapters\<close>

definition adapter_ok :: "'w ProcessProtocolAdapter \<Rightarrow> bool" where
  "adapter_ok a \<longleftrightarrow>
     process_ok (model a) \<and> adapter_map a = register_map (model a) \<and> isOK (unit_id (adapter_map a))"

lemma adapter_okD:
  assumes "adapter_ok a"
  shows "process_ok (model a)" "adapter_map a = register_map (model a)" "isOK (unit_id (adapter_map a))"
    "profile_ok (adapter_map a)" "wf_map (adapter_map a)"
  using assms process_okD(1) [of "model a"] profile_okD(1) by (auto simp: adapter_ok_def)

text \<open>What the map says about the keys of its own definitions.\<close>

lemma snapshot_has_keys:
  assumes "profile_ok (register_map p)" "snapshot_raw p = Inr snap" "d \<in> set (definitions (register_map p))"
  shows "snap_at snap (key d) = Inr (the (abs_process p (key d)))"
proof -
  have keys: "map fst snap = model_keys" using snapshot_raw_total [OF assms(1)] assms(2) by auto
  have "key d \<in> set model_keys" using profile_okD(3) [OF assms(1)] assms(3) by blast
  then have "map_of snap (key d) \<noteq> None" using keys by (metis map_of_eq_None_iff set_map)
  then show ?thesis using assms(2) by (auto simp: snap_at_def abs_process_def)
qed

lemma select_total:
  assumes "profile_ok (register_map p)" "snapshot_raw p = Inr snap"
    "set ks \<subseteq> key ` set (definitions (register_map p))"
  shows "select snap ks = Inr (dict_of (map (\<lambda>k. (k, the (abs_process p k))) ks))"
proof -
  have "bindE (snap_at snap k) (\<lambda>v. Inr (k, v)) = Inr (k, the (abs_process p k))" if "k \<in> set ks" for k
    using that assms(3) snapshot_has_keys [OF assms(1,2)] by fastforce
  then have "mapE (\<lambda>k. bindE (snap_at snap k) (\<lambda>v. Inr (k, v))) ks =
      Inr (map (\<lambda>k. (k, the (abs_process p k))) ks)"
    by (rule mapE_total)
  then show ?thesis by (simp add: select_def)
qed

section \<open>Synchronisation\<close>

text \<open>Both area kinds run one loop, over registers or over bits.\<close>

definition sync_cell ::
  "(raw \<Rightarrow> 'c) \<Rightarrow> int \<Rightarrow> (string \<times> raw) list \<Rightarrow> RegisterDefinition \<Rightarrow> 'c list stmt" where
  "sync_cell enc start snapshot d xs =
     (let index = address d - start in
      if 0 \<le> index \<and> index < int (length xs)
      then case snap_at snapshot (key d) of
             Inl e \<Rightarrow> (xs, Some e) | Inr v \<Rightarrow> (xs[nat index := enc v], None)
      else (xs, None))"

lemma sync_register_cell: "sync_register = sync_cell encode_register"
  by (intro ext) (simp add: sync_register_def sync_cell_def)

lemma sync_bit_cell: "sync_bit = sync_cell raw_bool"
  by (intro ext) (simp add: sync_bit_def sync_cell_def)

definition cells ::
  "(raw \<Rightarrow> 'c) \<Rightarrow> int \<Rightarrow> (string \<Rightarrow> raw) \<Rightarrow> (int \<Rightarrow> RegisterDefinition option) \<Rightarrow> 'c list \<Rightarrow> 'c list" where
  "cells enc start val loc xs =
     map (\<lambda>i. case loc (start + int i) of Some d \<Rightarrow> enc (val (key d)) | None \<Rightarrow> xs ! i) [0..<length xs]"

lemma length_cells [simp]: "length (cells enc start val loc xs) = length xs"
  by (simp add: cells_def)

lemma nth_cells: "i < length xs \<Longrightarrow> cells enc start val loc xs ! i =
    (case loc (start + int i) of Some d \<Rightarrow> enc (val (key d)) | None \<Rightarrow> xs ! i)"
  by (simp add: cells_def split: option.split)

lemma run_sync_cells:
  assumes "\<And>d. d \<in> set ds \<Longrightarrow> snap_at snap (key d) = Inr (val (key d))" "distinct (map address ds)"
  shows "run_stmts (map (sync_cell enc start snap) ds) xs =
    (cells enc start val (\<lambda>n. find (\<lambda>d. address d = n) ds) xs, None)"
  using assms
proof (induction ds arbitrary: xs)
  case Nil
  show ?case by (simp add: cells_def map_nth)
next
  case (Cons d ds)
  let ?ix = "address d - start"
  let ?at = "\<lambda>ds n. find (\<lambda>d. address d = n) ds"
  define ys where "ys = (if 0 \<le> ?ix \<and> ?ix < int (length xs) then xs[nat ?ix := enc (val (key d))] else xs)"
  have len: "length ys = length xs" by (simp add: ys_def)
  have step: "sync_cell enc start snap d xs = (ys, None)"
    using Cons.prems(1) [of d] by (simp add: sync_cell_def Let_def ys_def)
  have other: "?at ds (address d) = None"
    using Cons.prems(2) by (auto simp: find_None_iff intro: rev_image_eqI)
  have "cells enc start val (?at ds) ys = cells enc start val (?at (d # ds)) xs"
  proof (rule nth_equalityI)
    fix i assume "i < length (cells enc start val (?at ds) ys)"
    then have i: "i < length xs" by (simp add: len)
    show "cells enc start val (?at ds) ys ! i = cells enc start val (?at (d # ds)) xs ! i"
    proof (cases "address d = start + int i")
      case True
      then have "ys ! i = enc (val (key d))" using i by (simp add: ys_def)
      with i other True len show ?thesis by (simp add: nth_cells)
    next
      case False
      with i have "ys ! i = xs ! i" by (auto simp: ys_def nth_list_update)
      with False i len show ?thesis by (simp add: nth_cells split: option.split)
    qed
  qed (simp add: len)
  with step Cons show ?case by (simp add: run_stmts.simps(2))
qed

lemma find_location:
  assumes "wf_map m"
  shows "find (\<lambda>d. address d = n) (for_area m ar) =
    (case require_location m ar n of Inr d \<Rightarrow> Some d | Inl _ \<Rightarrow> None)"
proof (cases "require_location m ar n")
  case (Inl e)
  then have "\<not> (\<exists>d \<in> set (definitions m). area d = ar \<and> address d = n)"
    using require_location_Inr [OF assms, of ar n] by auto
  with Inl show ?thesis by (auto simp: find_None_iff for_area_def)
next
  case (Inr d)
  then have d: "d \<in> set (definitions m)" "area d = ar" "address d = n"
    using require_location_Inr [OF assms] by auto
  then have "find (\<lambda>d. address d = n) (for_area m ar) \<noteq> None"
    by (auto simp: find_None_iff for_area_def)
  then obtain d' where d': "find (\<lambda>d. address d = n) (for_area m ar) = Some d'" by blast
  then have "d' \<in> set (for_area m ar) \<and> address d' = n" by (auto simp: find_Some_iff)
  then have "d' \<in> set (definitions m)" "area d' = ar" "address d' = n" by (auto simp: for_area_def)
  then have "require_location m ar n = Inr d'" using require_location_Inr [OF assms] by blast
  with Inr d' show ?thesis by simp
qed

lemma for_area_addresses: "wf_map m \<Longrightarrow> distinct (map address (for_area m ar))"
proof -
  assume "wf_map m"
  then have "inj_on (\<lambda>d. (area d, address d)) (set (definitions m))" "distinct (definitions m)"
    by (simp_all add: wf_map_def distinct_map)
  then show ?thesis
    unfolding for_area_def distinct_map by (auto intro!: inj_onI dest: inj_onD)
qed

definition location_of :: "RegisterMap \<Rightarrow> string \<Rightarrow> int \<Rightarrow> RegisterDefinition option" where
  "location_of m ar n = (case require_location m ar n of Inr d \<Rightarrow> Some d | Inl _ \<Rightarrow> None)"

lemma run_sync_area:
  assumes "profile_ok (register_map p)" "snapshot_raw p = Inr snap"
  shows "run_stmts (map (sync_cell enc start snap) (for_area (register_map p) ar)) xs =
    (cells enc start (\<lambda>k. the (abs_process p k)) (location_of (register_map p) ar) xs, None)"
proof -
  note wf = profile_okD(1) [OF assms(1)]
  have "location_of (register_map p) ar = (\<lambda>n. find (\<lambda>d. address d = n) (for_area (register_map p) ar))"
    by (rule ext) (simp add: location_of_def find_location [OF wf])
  moreover have "snap_at snap (key d) = Inr (the (abs_process p (key d)))"
    if "d \<in> set (for_area (register_map p) ar)" for d
    using that snapshot_has_keys [OF assms] by (simp add: for_area_def)
  ultimately show ?thesis
    using run_sync_cells [where val = "\<lambda>k. the (abs_process p k)"] for_area_addresses [OF wf] by metis
qed

text \<open>The block a synchronisation leaves behind.\<close>

definition synced :: "'e pymodbus_scheme \<Rightarrow> WetWellProcess \<Rightarrow> string \<Rightarrow> int \<Rightarrow> int list \<Rightarrow> int list" where
  "synced env p ar start regs =
     (let val = (\<lambda>k. the (abs_process p k)); loc = location_of (register_map p) ar in
      if ar = ''coil'' \<or> ar = ''discrete_input''
      then bitsToRegisters env (cells raw_bool (start * 16) val loc (registersToBits env regs))
      else cells encode_register start val loc regs)"

lemma sync_area_eq:
  assumes "adapter_ok a" "snapshot_raw (model a) = Inr snap"
  shows "sync_area env a ar start regs = (synced env (model a) ar start regs, Inr snap)"
  by (simp add: sync_area_def assms(2) sync_bit_area_def sync_register_area_def synced_def Let_def
      sync_register_cell sync_bit_cell adapter_okD(2) [OF assms(1)]
      run_sync_area [OF adapter_okD(4) [OF assms(1), unfolded adapter_okD(2) [OF assms(1)]] assms(2)])

section \<open>Events and the rest of the adapter\<close>

lemma emit_event_frame [frame, simp]:
  "model (emit_event env ctx f a) = model a"
  "adapter_map (emit_event env ctx f a) = adapter_map a"
  "event_sink (emit_event env ctx f a) = event_sink a"
  by (simp_all add: emit_event_def Let_def split: option.split prod.split)

lemma emit_event_sequence [simp]:
  "sequence_no (event_factory (emit_event env ctx f a)) =
     (if event_sink a = None then sequence_no (event_factory a) else sequence_no (event_factory a) + 1)"
  by (auto simp: emit_event_def Let_def case_prod_unfold split: option.split)

lemma emit_event_sink:
  "event_sink a = Some sink \<Longrightarrow>
     sink_state (emit_event env ctx f a) = fst (sink (fst (create env ctx f (event_factory a))) (sink_state a))"
  by (simp add: emit_event_def case_prod_unfold Let_def)

lemma emit_return_ok [simp]: "emit_return env ctx (Inr f) ret a = (emit_event env ctx f a, Inr ret)"
  by (simp add: emit_return_def)

lemma with_request_sel [simp]:
  "ev_register_keys (with_request ks vs f) = ks" "ev_requested_values (with_request ks vs f) = Some vs"
  "ev_result (with_request ks vs f) = ev_result f"
  "ev_exception_code (with_request ks vs f) = ev_exception_code f"
  "ev_unit_id (with_request ks vs f) = ev_unit_id f" "ev_operation (with_request ks vs f) = ev_operation f"
  by (simp_all add: with_request_def)

section \<open>Planning a write\<close>

text \<open>Every definition a write addresses exists and is writable, or the request is refused.\<close>

definition located :: "RegisterMap \<Rightarrow> string \<Rightarrow> int \<Rightarrow> RegisterDefinition list \<Rightarrow> bool" where
  "located m ar addr ds \<longleftrightarrow>
     (\<forall>i < length ds. require_location m ar (addr + int i) = Inr (ds ! i) \<and> writable (ds ! i))"

lemma located_Nil [simp]: "located m ar addr []"
  by (simp add: located_def)

lemma located_Cons [simp]:
  "located m ar addr (d # ds) \<longleftrightarrow>
     require_location m ar addr = Inr d \<and> writable d \<and> located m ar (addr + 1) ds"
proof -
  have eq: "addr + int (Suc i) = addr + 1 + int i" for i by simp
  then show ?thesis
    unfolding located_def by (simp add: All_less_Suc2 eq del: of_nat_Suc)
qed

lemma locate_Inr:
  "locate m ar addr n acc = Inr defs \<longleftrightarrow> (\<exists>ds. defs = acc @ ds \<and> length ds = n \<and> located m ar addr ds)"
proof (induction m ar addr n acc rule: locate.induct)
  case (1 m ar addr acc)
  then show ?case by auto
next
  case (2 m ar addr n acc)
  have len: "length ds = Suc n \<longleftrightarrow> (\<exists>d ds'. ds = d # ds' \<and> length ds' = n)" for ds :: "RegisterDefinition list"
    by (auto simp: length_Suc_conv)
  show ?case
  proof (cases "require_location m ar addr")
    case (Inl e)
    then show ?thesis by (auto simp: len)
  next
    case (Inr d)
    show ?thesis
    proof (cases "writable d")
      case True
      with Inr 2 have "locate m ar addr (Suc n) acc = Inr defs \<longleftrightarrow>
          (\<exists>ds. defs = (acc @ [d]) @ ds \<and> length ds = n \<and> located m ar (addr + 1) ds)" by simp
      also have "\<dots> \<longleftrightarrow> (\<exists>ds. defs = acc @ ds \<and> length ds = Suc n \<and> located m ar addr ds)"
        using Inr True by (auto simp: len)
      finally show ?thesis .
    qed (use Inr in \<open>auto simp: len\<close>)
  qed
qed

lemma located_unique:
  "located m ar addr ds \<Longrightarrow> located m ar addr ds' \<Longrightarrow> length ds = length ds' \<Longrightarrow> ds = ds'"
  by (rule nth_equalityI) (auto simp: located_def)

lemma located_definitions:
  assumes "wf_map m" "located m ar addr ds"
  shows "set ds \<subseteq> set (definitions m)" "\<And>d. d \<in> set ds \<Longrightarrow> writable d"
  using assms require_location_Inr [OF assms(1)] by (fastforce simp: located_def in_set_conv_nth)+

lemma located_distinct_keys:
  assumes "wf_map m" "located m ar addr ds"
  shows "distinct (map key ds)"
proof -
  have adr: "address (ds ! i) = addr + int i" if "i < length ds" for i
    using that assms require_location_Inr [OF assms(1)] by (auto simp: located_def)
  have inj: "inj_on key (set ds)"
    using wf_map_key_inj [OF assms(1)] located_definitions(1) [OF assms] by (auto intro!: inj_onI)
  have "distinct ds"
  proof (subst distinct_conv_nth, intro allI impI)
    fix i j assume "i < length ds" "j < length ds" "i \<noteq> j"
    then show "ds ! i \<noteq> ds ! j" using adr [of i] adr [of j] by auto
  qed
  with inj show ?thesis by (simp add: distinct_map)
qed

text \<open>The values a planned write stores, one normalised value per definition.\<close>

definition coerced :: "RegisterDefinition list \<Rightarrow> pyval list \<Rightarrow> raw list \<Rightarrow> bool" where
  "coerced ds vs rs \<longleftrightarrow> length rs = length ds \<and> (\<forall>i < length ds. coerce_write (ds ! i) (vs ! i) = Inr (rs ! i))"

lemma coerce_all_Inr:
  "length ds = length vs \<Longrightarrow> mapE (\<lambda>(d, v). coerce_write d v) (zip ds vs) = Inr rs \<longleftrightarrow> coerced ds vs rs"
  by (auto simp: mapE_eq_Inr list_all2_conv_all_nth coerced_def)

lemma coerce_all_Inl:
  assumes "\<And>d. d \<in> set ds \<Longrightarrow> is_number (minimum d) \<and> is_number (maximum d)"
    "mapE (\<lambda>(d, v). coerce_write d v) (zip ds vs) = Inl e"
  shows "is_write_error e"
proof -
  from mapE_eq_Inl [OF assms(2)] obtain d v where "(d, v) \<in> set (zip ds vs)" "coerce_write d v = Inl e"
    by auto
  moreover from this(1) have "d \<in> set ds" by (rule set_zip_leftD)
  ultimately show ?thesis using assms(1) coerce_write_Inl by (fastforce simp: is_write_error_def)
qed

text \<open>A planned write goes through: the interface of the process as a write target.\<close>

lemma write_all_each:
  "write_all dvs = process_writes.write_each (map (\<lambda>(d, r). (key d, r)) dvs)"
  unfolding write_all_def process_writes.write_each_def map_map
  by (intro arg_cong [where f = run_stmts] map_cong refl)
    (auto simp: write_stmt_def as_stmt_def fun_eq_iff)

lemma write_all_ok:
  assumes "process_ok p" "located (register_map p) ar addr ds" "coerced ds vs rs"
  obtains p' where "write_all (zip ds rs) p = (p', None)" "process_ok p'"
    "abs_process p' = fold (\<lambda>(d, r) m. write_spec m (key d) r) (zip ds rs) (abs_process p)"
proof -
  note wf = profile_okD(1) [OF process_okD(1) [OF assms(1)]]
  have "write_acceptable p k r" if kr: "(k, r) \<in> set (map (\<lambda>(d, r). (key d, r)) (zip ds rs))" for k r
  proof -
    from kr assms(3) obtain i where i: "i < length ds" "k = key (ds ! i)" "r = rs ! i"
      by (auto simp: set_zip coerced_def)
    with assms located_definitions [OF wf assms(2)] have "ds ! i \<in> set (definitions (register_map p))"
      "writable (ds ! i)" "coerce_write (ds ! i) (vs ! i) = Inr r"
      by (auto simp: coerced_def)
    then show ?thesis
      using key_index.lookup_self [OF wf] coerce_write_idem i(2) by (auto simp: write_acceptable_iff)
  qed
  with process_writes.write_each_succeeds [OF assms(1), of "map (\<lambda>(d, r). (key d, r)) (zip ds rs)"]
  obtain p' where "process_writes.write_each (map (\<lambda>(d, r). (key d, r)) (zip ds rs)) p = (p', None)"
    "process_ok p'"
    "abs_process p' = fold (\<lambda>(k, r) m. write_spec m k r) (map (\<lambda>(d, r). (key d, r)) (zip ds rs)) (abs_process p)"
    by blast
  then show thesis
    by (intro that) (simp_all add: write_all_each fold_map comp_def case_prod_unfold)
qed

lemma write_stmt_map: "register_map (fst (write_stmt dv p)) = register_map p"
  by (simp add: write_stmt_def frame case_prod_unfold split: sum.split)

lemma write_all_map [frame]: "register_map (fst (write_all dvs p)) = register_map p"
  unfolding write_all_def
  by (rule run_stmts_inv [where P = "\<lambda>q. register_map q = register_map p"]) (auto simp: write_stmt_map)

section \<open>The action hook in closed form\<close>

definition readings :: "WetWellProcess \<Rightarrow> string list \<Rightarrow> (string \<times> raw) list" where
  "readings p ks = map (\<lambda>k. (k, the (abs_process p k))) ks"

definition refused_event ::
  "'e pymodbus_scheme \<Rightarrow> int \<Rightarrow> int \<Rightarrow> string \<Rightarrow> int \<Rightarrow> pyval list \<Rightarrow> string list \<Rightarrow> ExcCodes \<Rightarrow> event_fields" where
  "refused_event env u fc ar addr vs ks code =
     with_request ks vs ((fields_of u fc ''write'' (Some ar) addr (int (length vs)))
       \<lparr>ev_result := ''exception'', ev_exception_code := Some (exc_int env code)\<rparr>)"

definition written_event ::
  "int \<Rightarrow> int \<Rightarrow> string \<Rightarrow> int \<Rightarrow> string list \<Rightarrow> raw list \<Rightarrow> WetWellProcess \<Rightarrow> WetWellProcess \<Rightarrow> event_fields" where
  "written_event u fc ar addr ks rs p p' =
     (with_request ks (map raw_value rs) (fields_of u fc ''write'' (Some ar) addr (int (length rs))))
       \<lparr>ev_before := Some (readings p ks), ev_after := Some (readings p' ks)\<rparr>"

lemma adapter_snapshot: "adapter_ok a \<Longrightarrow> \<exists>snap. snapshot_raw (model a) = Inr snap"
  using snapshot_raw_total [OF process_okD(1) [OF adapter_okD(1)]] by blast

lemma action_write_address:
  assumes "adapter_ok a" "unit_id (adapter_map a) = Inr u"
    "locate (adapter_map a) ar addr (length vs) [] = Inl ks"
  shows "action_write env ctx fc ar start addr vs (a, regs) =
    ((emit_event env ctx (refused_event env u fc ar addr vs ks ILLEGAL_ADDRESS) a, regs),
     Inr (Some ILLEGAL_ADDRESS))"
  using adapter_snapshot [OF assms(1)] assms(2,3)
  by (auto simp: action_write_def Let_def failure_fields_def refused_event_def)

lemma action_write_value:
  assumes "adapter_ok a" "unit_id (adapter_map a) = Inr u" "located (adapter_map a) ar addr ds"
    "length ds = length vs" "\<nexists>rs. coerced ds vs rs"
  shows "action_write env ctx fc ar start addr vs (a, regs) =
    ((emit_event env ctx (refused_event env u fc ar addr vs (map key ds) ILLEGAL_VALUE) a, regs),
     Inr (Some ILLEGAL_VALUE))"
proof -
  have "locate (adapter_map a) ar addr (length vs) [] = Inr ds"
    using assms(3,4) by (simp add: locate_Inr)
  moreover obtain e where e: "mapE (\<lambda>(d, v). coerce_write d v) (zip ds vs) = Inl e"
    using coerce_all_Inr [OF assms(4)] assms(5) by (metis sum.exhaust)
  moreover have "is_write_error e"
    using located_definitions(1) [OF adapter_okD(5) [OF assms(1)] assms(3)]
      profile_ok_definition(1,2) [OF adapter_okD(4) [OF assms(1)]]
    by (intro coerce_all_Inl [OF _ e]) blast
  ultimately show ?thesis
    using adapter_snapshot [OF assms(1)] assms(2)
    by (auto simp: action_write_def Let_def failure_fields_def refused_event_def)
qed

lemma select_readings:
  assumes "profile_ok (register_map p)" "located (register_map p) ar addr ds" "snapshot_raw p = Inr snap"
  shows "select snap (map key ds) = Inr (readings p (map key ds))"
proof -
  note wf = profile_okD(1) [OF assms(1)]
  have "select snap (map key ds) = Inr (dict_of (readings p (map key ds)))"
    unfolding readings_def using located_definitions(1) [OF wf assms(2)]
    by (intro select_total [OF assms(1,3)]) auto
  moreover have "map fst (readings p (map key ds)) = map key ds" by (simp add: readings_def comp_def)
  ultimately show ?thesis
    using located_distinct_keys [OF wf assms(2)] by (simp add: dict_of_fresh)
qed

lemma action_write_done:
  assumes "adapter_ok a" "unit_id (adapter_map a) = Inr u" "located (adapter_map a) ar addr ds"
    "length ds = length vs" "coerced ds vs rs"
  obtains p' where "process_ok p'" "register_map p' = register_map (model a)"
    "abs_process p' = fold (\<lambda>(d, r) m. write_spec m (key d) r) (zip ds rs) (abs_process (model a))"
    "action_write env ctx fc ar start addr vs (a, regs) =
      ((emit_event env ctx (written_event u fc ar addr (map key ds) rs (model a) p') (a\<lparr>model := p'\<rparr>),
        synced env p' ar start regs), Inr None)"
proof -
  note m = adapter_okD(2) [OF assms(1)]
  obtain p' where p': "write_all (zip ds rs) (model a) = (p', None)" "process_ok p'"
    "abs_process p' = fold (\<lambda>(d, r) m. write_spec m (key d) r) (zip ds rs) (abs_process (model a))"
    using write_all_ok [OF adapter_okD(1) [OF assms(1)] _ assms(5)] assms(3) m by metis
  have reg: "register_map p' = register_map (model a)"
    using write_all_map [of "zip ds rs" "model a"] p'(1) by simp
  have ok': "adapter_ok (a\<lparr>model := p'\<rparr>)"
    using assms(1) p'(2) reg by (auto simp: adapter_ok_def)
  from adapter_snapshot [OF assms(1)] adapter_snapshot [OF ok'] obtain s1 s2 where
    s: "snapshot_raw (model a) = Inr s1" "snapshot_raw p' = Inr s2" by auto
  have "locate (adapter_map a) ar addr (length vs) [] = Inr ds"
    using assms(3,4) by (simp add: locate_Inr)
  moreover have "select s1 (map key ds) = Inr (readings (model a) (map key ds))"
    using select_readings [OF _ _ s(1)] adapter_okD(4) [OF assms(1)] assms(3) m by metis
  moreover have "select s2 (map key ds) = Inr (readings p' (map key ds))"
    using select_readings [OF _ _ s(2)] process_okD(1) [OF p'(2)] assms(3) m reg by metis
  ultimately have "action_write env ctx fc ar start addr vs (a, regs) =
      ((emit_event env ctx (written_event u fc ar addr (map key ds) rs (model a) p') (a\<lparr>model := p'\<rparr>),
        synced env p' ar start regs), Inr None)"
    using s p'(1) assms(2) coerce_all_Inr [OF assms(4), THEN iffD2, OF assms(5)]
      sync_area_eq [OF ok', of s2 env ar start regs]
    by (simp add: action_write_def action_commit_def Let_def written_event_def)
  with that p'(2,3) reg show thesis by blast
qed

lemma action_read_eq:
  assumes "adapter_ok a" "unit_id (adapter_map a) = Inr u" "snapshot_raw (model a) = Inr snap"
  shows "action_read env ctx fc ar addr n snap a =
    (let ks = read_keys (adapter_map a) ar addr n in
     (emit_event env ctx ((fields_of u fc ''read'' (Some ar) addr n)
        \<lparr>ev_register_keys := ks, ev_response_values := Some (dict_of (readings (model a) ks))\<rparr>) a, Inr None))"
proof -
  have "set (read_keys (adapter_map a) ar addr n) \<subseteq> key ` set (definitions (register_map (model a)))"
    using by_location_lookup [OF adapter_okD(5) [OF assms(1)]] adapter_okD(2) [OF assms(1)]
    by (auto simp: read_keys_def dest!: sym [of "Some _"] split: option.splits)
  then show ?thesis
    using select_total [OF process_okD(1) [OF adapter_okD(1) [OF assms(1)]] assms(3)] assms(2)
    by (simp add: action_read_def Let_def readings_def)
qed

end
