(* ===== verification/Protocol_Claims.thy ===== *)
theory Protocol_Claims
  imports Protocol_Props Default_Process
begin

text \<open>
  What the adapter promises a Modbus client and the analyst reading its events: reads serve
  the snapshot and change nothing, writes are all-or-nothing, every request leaves exactly
  one event, and telemetry cannot influence an answer.
\<close>

section \<open>A concrete adapter\<close>

definition bits_of :: "int \<Rightarrow> bool list" where
  "bits_of r = map (bit r) [0..<16]"

fun pack_bits :: "nat \<Rightarrow> bool list \<Rightarrow> int list" where
  "pack_bits 0 bs = []"
| "pack_bits (Suc n) bs = horner_sum of_bool 2 (take 16 bs) # pack_bits n (drop 16 bs)"

text \<open>Least significant bit first, sixteen to a register: one packing PyModbus could use.\<close>

definition sample_pymodbus :: pymodbus where
  "sample_pymodbus = \<lparr>uuid4 = (\<lambda>i. ''event-'' @ show_int i), utc_now = (\<lambda>i. ''2026-01-01''),
     registersToBits = (\<lambda>rs. concat (map bits_of rs)),
     bitsToRegisters = (\<lambda>bs. pack_bits (length bs div 16) bs),
     exc_int = (\<lambda>c. case c of ILLEGAL_FUNCTION \<Rightarrow> 1 | ILLEGAL_ADDRESS \<Rightarrow> 2 | ILLEGAL_VALUE \<Rightarrow> 3
       | SERVER_FAILURE \<Rightarrow> 4 | DEVICE_FAILURE \<Rightarrow> 4 | GATEWAY_NO_RESPONSE \<Rightarrow> 11)\<rparr>"

text \<open>A sink that keeps its events and then raises.\<close>

definition sample_sink :: "ProtocolEvent list sink" where
  "sample_sink e seen = (seen @ [e], Some (RuntimeError ''sink down''))"

definition sample_adapter :: "ProtocolEvent list ProcessProtocolAdapter" where
  "sample_adapter = \<lparr>model = default_process, adapter_map = default_map,
     identity = [(''VendorName'', ''Northwind Instruments''), (''ProductCode'', ''SCL-210''),
       (''MajorMinorRevision'', ''1.3.0''), (''VendorUrl'', ''''),
       (''ProductName'', ''SCL-210 Wet Sump Manager''), (''ModelName'', ''SCL-210-LS''),
       (''UserApplicationName'', ''Sump Supervision'')],
     event_sink = Some sample_sink, event_factory = EventFactory_init, sink_state = []\<rparr>"

lemma default_unit_id [simp]: "unit_id default_map = Inr 7"
  by (simp add: unit_id_def default_document_def)

lemma sample_adapter_init:
  "ProcessProtocolAdapter_init default_process None (Some sample_sink) [] = Inr sample_adapter"
  by (simp add: ProcessProtocolAdapter_init_def build_identity_def default_document_def sample_adapter_def)

lemma sample_adapter_sel [simp]:
  "model sample_adapter = default_process" "adapter_map sample_adapter = default_map"
  "event_sink sample_adapter = Some sample_sink" "event_factory sample_adapter = EventFactory_init"
  by (simp_all add: sample_adapter_def)

lemma sample_adapter_ok: "adapter_ok sample_adapter"
  by (simp add: adapter_ok_def default_process_ok)

lemma function_area_simps [simp]:
  "FUNCTION_AREA 1 = Some ''coil''" "FUNCTION_AREA 2 = Some ''discrete_input''"
  "FUNCTION_AREA 3 = Some ''holding_register''" "FUNCTION_AREA 4 = Some ''input_register''"
  "FUNCTION_AREA 5 = Some ''coil''" "FUNCTION_AREA 6 = Some ''holding_register''"
  "FUNCTION_AREA 15 = Some ''coil''" "FUNCTION_AREA 16 = Some ''holding_register''"
  by (simp_all add: FUNCTION_AREA_def)

lemma default_locations:
  "require_location default_map ''holding_register'' 42 = Inr (defn ''level_setpoint'' ''holding_register'' 42 40043
     ''uint16'' centi_f64 ''%'' 3000 8000 5100
     (Some ''Changes automatic pump start/stop target with hysteresis'')
     ''Target level the automatic loop holds'')"
  "require_location default_map ''holding_register'' 43 = Inr (defn ''pump_speed_setpoint'' ''holding_register'' 43
     40044 ''uint16'' centi_f64 ''%'' 2000 10000 6800
     (Some ''Changes synthetic discharge flow and motor current while pump is running'')
     ''Commanded pump speed'')"
  "require_location default_map ''holding_register'' 44 = Inr (defn ''high_alarm_limit'' ''holding_register'' 44 40045
     ''uint16'' centi_f64 ''%'' 6000 9500 8200 None ''Level at which the high alarm asserts'')"
  by (simp_all add: require_location_def default_map_def default_definitions_def)

section \<open>Writes are all or nothing\<close>

lemma action_write_request:
  assumes "adapter_ok a" "FUNCTION_AREA fc = Some ar" "fc \<in> set WRITE_FUNCTIONS"
  shows "action env ctx fc start addr n (Some vs) (a, regs) =
    action_write env ctx fc ar start addr vs (a, synced env (model a) ar start regs)"
proof -
  obtain snap where "snapshot_raw (model a) = Inr snap" using adapter_snapshot [OF assms(1)] by blast
  then show ?thesis using sync_area_eq [OF assms(1), of snap env ar start regs] assms(2,3)
    by (simp add: action_def)
qed

text \<open>The three ways a write request ends, with the event each leaves.\<close>

lemma write_request_cases:
  fixes a :: "'w ProcessProtocolAdapter"
  assumes "adapter_ok a" "FUNCTION_AREA fc = Some ar" "fc \<in> set WRITE_FUNCTIONS"
  obtains
    (address) f regs' where
      "\<nexists>ds. length ds = length vs \<and> located (adapter_map a) ar addr ds"
      "action env ctx fc start addr n (Some vs) (a, regs) = ((emit_event env ctx f a, regs'), Inr (Some ILLEGAL_ADDRESS))"
  | (val) ds f regs' where
      "length ds = length vs" "located (adapter_map a) ar addr ds" "\<nexists>rs. coerced ds vs rs"
      "action env ctx fc start addr n (Some vs) (a, regs) = ((emit_event env ctx f a, regs'), Inr (Some ILLEGAL_VALUE))"
  | (success) ds rs u p' where
      "length ds = length vs" "located (adapter_map a) ar addr ds" "coerced ds vs rs"
      "process_ok p'" "register_map p' = register_map (model a)"
      "abs_process p' = fold (\<lambda>(d, r) m. write_spec m (key d) r) (zip ds rs) (abs_process (model a))"
      "action env ctx fc start addr n (Some vs) (a, regs) =
        ((emit_event env ctx (written_event u fc ar addr (map key ds) rs (model a) p') (a\<lparr>model := p'\<rparr>),
          synced env p' ar start (synced env (model a) ar start regs)), Inr None)"
proof -
  note eq = action_write_request [OF assms]
  obtain u where u: "unit_id (adapter_map a) = Inr u"
    using adapter_okD(3) [OF assms(1)] by (auto simp: isOK_iff)
  show thesis
  proof (cases "locate (adapter_map a) ar addr (length vs) []")
    case (Inl ks)
    then have "\<nexists>ds. length ds = length vs \<and> located (adapter_map a) ar addr ds"
      using locate_Inr [of "adapter_map a" ar addr "length vs" "[]"] by auto
    then show thesis
      by (rule address) (simp add: eq action_write_address [OF assms(1) u Inl])
  next
    case (Inr ds)
    then have ds: "length ds = length vs" "located (adapter_map a) ar addr ds" by (auto simp: locate_Inr)
    show thesis
    proof (cases "\<exists>rs. coerced ds vs rs")
      case False
      show thesis
        by (rule val [OF ds False]) (simp add: eq action_write_value [OF assms(1) u ds(2,1) False])
    next
      case True
      then obtain rs where rs: "coerced ds vs rs" by blast
      obtain p' where "process_ok p'" "register_map p' = register_map (model a)"
        "abs_process p' = fold (\<lambda>(d, r) m. write_spec m (key d) r) (zip ds rs) (abs_process (model a))"
        "action_write env ctx fc ar start addr vs (a, synced env (model a) ar start regs) =
          ((emit_event env ctx (written_event u fc ar addr (map key ds) rs (model a) p') (a\<lparr>model := p'\<rparr>),
            synced env p' ar start (synced env (model a) ar start regs)), Inr None)"
        by (rule action_write_done [OF assms(1) u ds(2,1) rs])
      with ds rs show thesis by (intro success) (auto simp: eq)
    qed
  qed
qed

text \<open>C1: A write request, single or multiple, is atomic: it succeeds exactly when every address it
  covers is a writable register and every value is acceptable for its register; otherwise the
  process is unchanged and the answer is ILLEGAL ADDRESS or ILLEGAL VALUE.  On a fitting profile
  it never raises and never answers SERVER FAILURE.\<close>

theorem write_request_atomic:
  assumes "adapter_ok a" "FUNCTION_AREA fc = Some ar" "fc \<in> set WRITE_FUNCTIONS"
  shows "case action env ctx fc start addr n (Some vs) (a, regs) of ((a', regs'), r) \<Rightarrow>
    (r = Inr None \<longleftrightarrow>
      (\<exists>ds rs. length ds = length vs \<and> located (adapter_map a) ar addr ds \<and> coerced ds vs rs)) \<and>
    (r = Inr None \<or>
      (r = Inr (Some ILLEGAL_ADDRESS) \<or> r = Inr (Some ILLEGAL_VALUE)) \<and> model a' = model a)"
  using assms
proof (cases rule: write_request_cases [of a fc ar vs addr env ctx start n regs])
  case (address f regs')
  then have "\<nexists>ds rs. length ds = length vs \<and> located (adapter_map a) ar addr ds \<and> coerced ds vs rs" by blast
  with address(2) show ?thesis by simp
next
  case (val ds f regs')
  then have "\<nexists>ds rs. length ds = length vs \<and> located (adapter_map a) ar addr ds \<and> coerced ds vs rs"
    using located_unique by metis
  with val(4) show ?thesis by simp
next
  case (success ds rs u p')
  then have "\<exists>ds rs. length ds = length vs \<and> located (adapter_map a) ar addr ds \<and> coerced ds vs rs" by blast
  with success(7) show ?thesis by simp
qed

theorem write_request_atomic_witness:
  "case action sample_pymodbus None 16 40 43 2 (Some [PInt 9000, PInt 9000]) (sample_adapter, replicate 7 0)
   of ((a', regs'), r) \<Rightarrow> r = Inr (Some ILLEGAL_ADDRESS) \<or> r = Inr (Some ILLEGAL_VALUE)"
proof -
  have "\<nexists>ds. length ds = 2 \<and> located default_map ''holding_register'' 43 ds"
    by (auto simp: numeral_2_eq_2 length_Suc_conv default_locations)
  then show ?thesis
    using write_request_atomic [OF sample_adapter_ok, where fc = 16 and ar = "''holding_register''" and
        env = sample_pymodbus and ctx = None and start = 40 and addr = 43 and n = 2 and
        vs = "[PInt 9000, PInt 9000]" and regs = "replicate 7 0"]
    by (auto simp: WRITE_FUNCTIONS_def)
qed

lemma write_request_ok:
  assumes "adapter_ok a" "FUNCTION_AREA fc = Some ar" "fc \<in> set WRITE_FUNCTIONS"
    "length ds = length vs" "located (adapter_map a) ar addr ds" "coerced ds vs rs"
  shows "\<exists>a' regs'. action env ctx fc start addr n (Some vs) (a, regs) = ((a', regs'), Inr None)"
  using assms(1-3)
proof (cases rule: write_request_cases [of a fc ar vs addr env ctx start n regs])
  case (address f regs')
  with assms(4,5) show ?thesis by blast
next
  case (val es f regs')
  with assms(4-6) located_unique show ?thesis by metis
next
  case (success es qs u p')
  then show ?thesis by simp
qed

lemma setpoints_written:
  "\<exists>a' regs'. action sample_pymodbus None 16 40 42 2 (Some [PInt 6000, PInt 7000]) (sample_adapter, replicate 7 0)
     = ((a', regs'), Inr None)"
proof -
  let ?ds = "map projr
     [require_location default_map ''holding_register'' 42, require_location default_map ''holding_register'' 43]"
  have loc: "length ?ds = length [PInt 6000, PInt 7000]" "located default_map ''holding_register'' 42 ?ds"
    "coerced ?ds [PInt 6000, PInt 7000] [RInt 6000, RInt 7000]"
    by (simp_all add: default_locations coerced_def All_less_Suc2 coerce_write_def normalize_write_def
        range_check_def Let_def)
  show ?thesis
    using write_request_ok [OF sample_adapter_ok _ _ loc(1) _ loc(3), of 16 "''holding_register''" 42
        sample_pymodbus None 40 2 "replicate 7 0"] loc(2)
    by (simp add: WRITE_FUNCTIONS_def)
qed

text \<open>C21: A write request that succeeds is the composition, in address order, of one abstract update
  per register: the state a client reads back afterwards is the old one with every value stored.\<close>

theorem write_request_effect:
  assumes "adapter_ok a" "FUNCTION_AREA fc = Some ar" "fc \<in> set WRITE_FUNCTIONS"
    "length ds = length vs" "located (adapter_map a) ar addr ds" "coerced ds vs rs"
  shows "\<exists>a' regs'. action env ctx fc start addr n (Some vs) (a, regs) = ((a', regs'), Inr None) \<and>
    abs_process (model a') = fold (\<lambda>(d, r) m. write_spec m (key d) r) (zip ds rs) (abs_process (model a)) \<and>
    adapter_ok a'"
  using assms(1-3)
proof (cases rule: write_request_cases [of a fc ar vs addr env ctx start n regs])
  case (address f regs')
  with assms(4,5) show ?thesis by blast
next
  case (val es f regs')
  with assms(4-6) located_unique show ?thesis by metis
next
  case (success es qs u p')
  have eq: "es = ds" using success(1,2) assms(4,5) located_unique by metis
  have "qs = rs"
    using success(3) assms(6) unfolding eq coerced_def by (intro nth_equalityI) auto
  moreover have "adapter_ok (a\<lparr>model := p'\<rparr>)"
    using assms(1) success(4,5) by (auto simp: adapter_ok_def)
  ultimately show ?thesis
    using success(6,7) by (auto simp: eq adapter_ok_def)
qed

lemma setpoints_located:
  "located default_map ''holding_register'' 42 (take 2 (map projr
     [require_location default_map ''holding_register'' 42, require_location default_map ''holding_register'' 43]))"
  by (simp add: default_locations)

theorem write_request_effect_witness:
  "\<exists>a' regs'. action sample_pymodbus None 16 40 42 2 (Some [PInt 6000, PInt 7000]) (sample_adapter, replicate 7 0)
       = ((a', regs'), Inr None) \<and>
     abs_process (model a') = write_spec (write_spec (abs_process default_process)
       ''level_setpoint'' (RInt 6000)) ''pump_speed_setpoint'' (RInt 7000)"
proof -
  let ?ds = "take 2 (map projr
     [require_location default_map ''holding_register'' 42, require_location default_map ''holding_register'' 43])"
  have "coerced ?ds [PInt 6000, PInt 7000] [RInt 6000, RInt 7000]"
    by (simp add: coerced_def default_locations All_less_Suc2 coerce_write_def normalize_write_def
        range_check_def Let_def)
  from write_request_effect [OF sample_adapter_ok _ _ _ _ this, where fc = 16 and ar = "''holding_register''"
      and addr = 42 and env = sample_pymodbus and ctx = None and start = 40 and n = 2 and regs = "replicate 7 0"]
  obtain a' regs' where "action sample_pymodbus None 16 40 42 2 (Some [PInt 6000, PInt 7000]) (sample_adapter, replicate 7 0)
       = ((a', regs'), Inr None)"
    "abs_process (model a') = fold (\<lambda>(d, r) m. write_spec m (key d) r) (zip ?ds [RInt 6000, RInt 7000])
       (abs_process default_process)"
    using setpoints_located by (auto simp: WRITE_FUNCTIONS_def)
  then show ?thesis by (simp add: default_locations)
qed

section \<open>Reads serve the snapshot\<close>

lemma action_read_request:
  assumes "adapter_ok a" "FUNCTION_AREA fc = Some ar" "fc \<notin> set WRITE_FUNCTIONS"
  shows "\<exists>f. action env ctx fc start addr n vs (a, regs) =
    ((emit_event env ctx f a, synced env (model a) ar start regs), Inr None) \<and>
    ev_register_keys f = read_keys (adapter_map a) ar addr n \<and>
    ev_response_values f = Some (dict_of (readings (model a) (read_keys (adapter_map a) ar addr n)))"
proof -
  obtain snap where snap: "snapshot_raw (model a) = Inr snap" using adapter_snapshot [OF assms(1)] by blast
  obtain u where u: "unit_id (adapter_map a) = Inr u"
    using adapter_okD(3) [OF assms(1)] by (auto simp: isOK_iff)
  let ?ks = "read_keys (adapter_map a) ar addr n"
  have "action env ctx fc start addr n vs (a, regs) =
    ((emit_event env ctx ((fields_of u fc ''read'' (Some ar) addr n)
        \<lparr>ev_register_keys := ?ks, ev_response_values := Some (dict_of (readings (model a) ?ks))\<rparr>) a,
      synced env (model a) ar start regs), Inr None)"
    using sync_area_eq [OF assms(1) snap, of env ar start regs]
      action_read_eq [OF assms(1) u snap, of env ctx fc ar addr n] assms(2,3)
    by (simp add: action_def Let_def)
  then show ?thesis by (intro exI conjI) (assumption, simp_all)
qed

lemma default_setpoints:
  "abs_process default_process ''level_setpoint'' = Some (RInt 5100)"
  "abs_process default_process ''pump_speed_setpoint'' = Some (RInt 6800)"
  using snapshot_get_writable(1,3) [of default_process]
  by (auto simp: default_profile_ok snapshot_get_def abs_process_def bindE_eq_Inr split: option.splits)
    (simp_all add: default_process_def blank_process_def)

text \<open>C12: A register read (FC 3, 4) succeeds, leaves the process alone, and fills the block PyModbus
  passed with the snapshot: a cell whose address is defined in the area holds that register's value
  in 16 bits, every other cell keeps what it held.\<close>

theorem register_read_serves_snapshot:
  assumes "adapter_ok a" "fc = 3 \<or> fc = 4" "FUNCTION_AREA fc = Some ar"
  shows "case action env ctx fc start addr n vs (a, regs) of ((a', regs'), r) \<Rightarrow>
    r = Inr None \<and> model a' = model a \<and> length regs' = length regs \<and>
    (\<forall>i < length regs. regs' ! i =
      (case require_location (adapter_map a) ar (start + int i) of
         Inr d \<Rightarrow> encode_register (the (abs_process (model a) (key d)))
       | Inl _ \<Rightarrow> regs ! i))"
proof -
  have "fc \<notin> set WRITE_FUNCTIONS" "ar \<noteq> ''coil'' \<and> ar \<noteq> ''discrete_input''"
    using assms(2,3) by (auto simp: WRITE_FUNCTIONS_def)
  with action_read_request [OF assms(1,3), of env ctx start addr n vs regs] show ?thesis
    using adapter_okD(2) [OF assms(1)]
    by (auto simp: synced_def Let_def nth_cells location_of_def split: sum.split)
qed

theorem register_read_serves_snapshot_witness:
  "\<exists>a' regs'. action sample_pymodbus None 3 42 42 2 None (sample_adapter, [0, 0]) = ((a', regs'), Inr None) \<and>
     regs' = [5100, 6800]"
proof -
  obtain a' regs' where r: "action sample_pymodbus None 3 42 42 2 None (sample_adapter, [0, 0]) = ((a', regs'), Inr None)"
    "length regs' = 2" "regs' ! 0 = encode_register (the (abs_process default_process ''level_setpoint''))"
    "regs' ! 1 = encode_register (the (abs_process default_process ''pump_speed_setpoint''))"
    using register_read_serves_snapshot [OF sample_adapter_ok, where fc = 3 and ar = "''holding_register''" and
        env = sample_pymodbus and ctx = None and start = 42 and addr = 42 and n = 2 and vs = None and
        regs = "[0, 0]"]
    by (auto simp: numeral_2_eq_2 default_locations All_less_Suc2)
  with r default_setpoints have "regs' = [5100, 6800]"
    by (intro nth_equalityI) (auto simp: encode_register_def numeral_2_eq_2 less_Suc_eq)
  with r show ?thesis by blast
qed

text \<open>What the code relies on in \<open>SimUtils\<close>: sixteen bits to a register, and packing undoes unpacking.\<close>

definition packing_ok :: "'e pymodbus_scheme \<Rightarrow> bool" where
  "packing_ok env \<longleftrightarrow>
     (\<forall>rs. length (registersToBits env rs) = 16 * length rs) \<and>
     (\<forall>bs. length bs mod 16 = 0 \<longrightarrow> registersToBits env (bitsToRegisters env bs) = bs)"

text \<open>A bit read (FC 1, 2) succeeds, leaves the process alone, and the bits of the block are the
  snapshot's: bit i of a block starting at register \<open>start\<close> is point \<open>16 * start + i\<close> of the area,
  undefined points keep their bit, and the block keeps its size.\<close>

theorem bit_read_serves_snapshot:
  assumes "adapter_ok a" "fc = 1 \<or> fc = 2" "FUNCTION_AREA fc = Some ar" "packing_ok env"
  shows "case action env ctx fc start addr n vs (a, regs) of ((a', regs'), r) \<Rightarrow>
    r = Inr None \<and> model a' = model a \<and> length regs' = length regs \<and>
    (\<forall>i < 16 * length regs. registersToBits env regs' ! i =
      (case require_location (adapter_map a) ar (start * 16 + int i) of
         Inr d \<Rightarrow> raw_bool (the (abs_process (model a) (key d)))
       | Inl _ \<Rightarrow> registersToBits env regs ! i))"
proof -
  have no: "fc \<notin> set WRITE_FUNCTIONS" and ar: "ar = ''coil'' \<or> ar = ''discrete_input''"
    using assms(2,3) by (auto simp: WRITE_FUNCTIONS_def)
  let ?bits = "cells raw_bool (start * 16) (\<lambda>k. the (abs_process (model a) k))
      (location_of (register_map (model a)) ar) (registersToBits env regs)"
  let ?regs = "bitsToRegisters env ?bits"
  have len: "length (registersToBits env rs) = 16 * length rs" for rs
    using assms(4) by (simp add: packing_ok_def)
  have bits: "registersToBits env ?regs = ?bits"
    using assms(4) len by (simp add: packing_ok_def)
  have "length ?regs = length regs" using len [of ?regs] len [of regs] unfolding bits by simp
  moreover have "synced env (model a) ar start regs = ?regs" using ar by (auto simp: synced_def Let_def)
  ultimately show ?thesis
    using action_read_request [OF assms(1,3) no, of env ctx start addr n vs regs] bits len
      adapter_okD(2) [OF assms(1)]
    by (auto simp: nth_cells location_of_def split: sum.split)
qed

lemma length_bits_of [simp]: "length (bits_of r) = 16"
  by (simp add: bits_of_def)

lemma bits_of_horner:
  assumes "length bs = 16"
  shows "bits_of (horner_sum of_bool 2 bs) = bs"
proof -
  have "map (bit (horner_sum of_bool 2 bs :: int)) [0..<16] = map ((!) bs) [0..<16]"
    using assms by (intro map_cong refl) (simp add: bit_horner_sum_bit_iff)
  also have "\<dots> = bs" using map_nth [of bs] assms by simp
  finally show ?thesis by (simp only: bits_of_def)
qed

lemma unpack_pack_bits: "length bs = 16 * n \<Longrightarrow> concat (map bits_of (pack_bits n bs)) = bs"
  by (induction n bs rule: pack_bits.induct) (simp_all add: bits_of_horner)

lemma sample_packing_ok: "packing_ok sample_pymodbus"
proof -
  have "length (concat (map bits_of rs)) = 16 * length rs" for rs by (induction rs) simp_all
  moreover have "concat (map bits_of (pack_bits (length bs div 16) bs)) = bs" if "length bs mod 16 = 0" for bs
    using that by (intro unpack_pack_bits) auto
  ultimately show ?thesis by (simp add: packing_ok_def sample_pymodbus_def)
qed

theorem bit_read_serves_snapshot_witness:
  "\<exists>a' regs'. action sample_pymodbus None 1 0 12 3 None (sample_adapter, [0]) = ((a', regs'), Inr None) \<and>
     length regs' = 1 \<and> (\<not> registersToBits sample_pymodbus regs' ! 0)"
proof -
  have "require_location default_map ''coil'' 0 = Inl (KeyError ''coil'')"
    by (simp add: require_location_def default_map_def default_definitions_def)
  then show ?thesis
    using bit_read_serves_snapshot [OF sample_adapter_ok _ _ sample_packing_ok, where fc = 1 and
        ar = "''coil''" and ctx = None and start = 0 and addr = 12 and n = 3 and vs = None and regs = "[0]"]
    by (auto dest!: spec [of _ 0] simp: sample_pymodbus_def bits_of_def)
qed

section \<open>Sixteen bits carry every value\<close>

text \<open>The register encoding loses nothing: an unsigned value is the register itself, a value of
  an int16 register is read back by two's complement, booleans become 0 and 1, and whatever the
  process holds, the encoded register fits sixteen bits.\<close>

theorem register_encoding_lossless:
  "(0 \<le> i \<and> i < 65536 \<longrightarrow> encode_register (RInt i) = i) \<and>
   (- 32768 \<le> i \<and> i < 32768 \<longrightarrow> signed_take_bit 15 (encode_register (RInt i)) = i) \<and>
   encode_register (RBool b) = of_bool b \<and>
   0 \<le> encode_register v \<and> encode_register v < 65536"
proof -
  have enc: "encode_register v = take_bit 16 (raw_int v)" for v
    by (simp add: encode_register_def take_bit_eq_mask mask_eq_exp_minus_1)
  have "signed_take_bit 15 (take_bit 16 i) = i" if "- 32768 \<le> i" "i < 32768"
  proof -
    have "signed_take_bit 15 (take_bit 16 i) = signed_take_bit 15 i"
      by (simp add: signed_take_bit_take_bit)
    also have "\<dots> = i" using that by (simp add: signed_take_bit_int_eq_self)
    finally show ?thesis .
  qed
  moreover have "take_bit 16 i = i" if "0 \<le> i" "i < 65536"
    using that by (simp add: take_bit_int_eq_self)
  ultimately show ?thesis
    using take_bit_nonnegative [of 16 "raw_int v"] take_bit_int_less_exp [of 16 "raw_int v"]
    by (auto simp: enc)
qed

theorem register_encoding_lossless_witness:
  "signed_take_bit 15 (encode_register (RInt (- 2000))) = - 2000 \<and> encode_register (RInt 65535) = 65535"
  using register_encoding_lossless [of "- 2000" False "RBool False"]
    register_encoding_lossless [of 65535 False "RBool False"] by simp

section \<open>One event per request\<close>

lemma action_unknown_request:
  assumes "adapter_ok a" "FUNCTION_AREA fc = None"
  shows "\<exists>f. action env ctx fc start addr n vs (a, regs) =
    ((emit_event env ctx f a, regs), Inr (Some ILLEGAL_FUNCTION))"
proof -
  obtain u where u: "unit_id (adapter_map a) = Inr u"
    using adapter_okD(3) [OF assms(1)] by (auto simp: isOK_iff)
  show ?thesis using assms(2) by (auto simp: action_def failure_fields_def u Let_def)
qed

text \<open>PyModbus calls the hook again, without values, to read back what a write stored.\<close>

definition is_readback :: "int \<Rightarrow> pyval list option \<Rightarrow> bool" where
  "is_readback fc vs \<longleftrightarrow> fc \<in> set WRITE_FUNCTIONS \<and> vs = None"

lemma action_events:
  assumes "adapter_ok a"
  shows "\<exists>b f regs' r. action env ctx fc start addr n vs (a, regs) =
      ((if is_readback fc vs then a else emit_event env ctx f b, regs'), Inr r) \<and>
    event_sink b = event_sink a \<and> event_factory b = event_factory a \<and> sink_state b = sink_state a"
proof (cases "FUNCTION_AREA fc")
  case None
  then have "\<not> is_readback fc vs" by (auto simp: is_readback_def WRITE_FUNCTIONS_def)
  with action_unknown_request [OF assms None, of env ctx start addr n vs regs] show ?thesis by auto
next
  case (Some ar)
  show ?thesis
  proof (cases "fc \<in> set WRITE_FUNCTIONS")
    case False
    with action_read_request [OF assms Some False, of env ctx start addr n vs regs]
    show ?thesis by (auto simp: is_readback_def)
  next
    case True
    obtain snap where snap: "snapshot_raw (model a) = Inr snap" using adapter_snapshot [OF assms] by blast
    show ?thesis
    proof (cases vs)
      case None
      then show ?thesis
        using sync_area_eq [OF assms snap, of env ar start regs] Some True
        by (auto simp: action_def is_readback_def)
    next
      case vs: (Some ws)
      then have no: "\<not> is_readback fc vs" by (simp add: is_readback_def)
      show ?thesis
        using assms Some True
      proof (cases rule: write_request_cases [of a fc ar ws addr env ctx start n regs])
        case (success ds rs u p')
        have "action env ctx fc start addr n vs (a, regs) =
          ((if is_readback fc vs then a
            else emit_event env ctx (written_event u fc ar addr (map key ds) rs (model a) p') (a\<lparr>model := p'\<rparr>),
            synced env p' ar start (synced env (model a) ar start regs)), Inr None)"
          using success(7) vs no by simp
        then show ?thesis by (intro exI conjI) (assumption, simp_all)
      qed (use vs no in auto)
    qed
  qed
qed

text \<open>C8: Every request that reaches the adapter returns an answer and hands the sink exactly one
  event, numbered one after the last, carrying the identity of the request context; the second
  call PyModbus makes to read a write back is not a request and leaves no event.\<close>

theorem one_event_per_request:
  assumes "adapter_ok a" "event_sink a = Some sink"
  shows "case action env ctx fc start addr n vs (a, regs) of ((a', regs'), r) \<Rightarrow> isOK r \<and>
    (if is_readback fc vs then event_factory a' = event_factory a \<and> sink_state a' = sink_state a
     else \<exists>e. sink_state a' = fst (sink e (sink_state a)) \<and>
       sequence_no (event_factory a') = sequence_no (event_factory a) + 1 \<and>
       ev_sensor_sequence e = sequence_no (event_factory a') \<and>
       ev_source_ip e = map_option ctx_source_ip ctx \<and> ev_session_id e = map_option ctx_session_id ctx \<and>
       ev_transaction_id e = map_option ctx_transaction_id ctx)"
proof -
  obtain b f regs' r where eq: "action env ctx fc start addr n vs (a, regs) =
      ((if is_readback fc vs then a else emit_event env ctx f b, regs'), Inr r)"
    and b: "event_sink b = Some sink" "event_factory b = event_factory a" "sink_state b = sink_state a"
    using action_events [OF assms(1), of env ctx fc start addr n vs regs] assms(2) by auto
  show ?thesis
  proof (cases "is_readback fc vs")
    case False
    let ?e = "fst (create env ctx f (event_factory a))"
    have "sink_state (emit_event env ctx f b) = fst (sink ?e (sink_state a))"
      using emit_event_sink [OF b(1), of env ctx f] b by simp
    with False eq b show ?thesis by (auto intro!: exI [of _ ?e])
  qed (simp add: eq)
qed

theorem one_event_per_request_witness:
  "case action sample_pymodbus None 90 0 0 1 None (sample_adapter, []) of ((a', regs'), r) \<Rightarrow>
     isOK r \<and> sequence_no (event_factory a') = 1"
  using one_event_per_request [OF sample_adapter_ok, where sink = sample_sink and env = sample_pymodbus and
      ctx = None and fc = 90 and start = 0 and addr = 0 and n = 1 and vs = None and regs = "[]"]
  by (auto simp: is_readback_def WRITE_FUNCTIONS_def EventFactory_init_def)

section \<open>Telemetry cannot influence an answer\<close>

text \<open>What a client sees of a step: the process, the block and the answer, not the sink.\<close>

definition served ::
  "('w ProcessProtocolAdapter \<times> int list) \<times> ExcCodes option result \<Rightarrow>
     WetWellProcess \<times> RegisterMap \<times> int list \<times> ExcCodes option result" where
  "served res = (case res of ((a, regs), r) \<Rightarrow> (model a, adapter_map a, regs, r))"

lemma served_pair [simp]: "served ((a, regs), r) = (model a, adapter_map a, regs, r)"
  by (simp add: served_def)

lemma served_emit_return:
  assumes "model a = model b" "adapter_map a = adapter_map b"
  shows "served (case emit_return env ctx args ret a of (a', r) \<Rightarrow> ((a', regs), r)) =
    served (case emit_return env ctx args ret b of (a', r) \<Rightarrow> ((a', regs), r))"
  using assms by (cases args) (simp_all add: emit_return_def served_def)

lemma sync_area_served:
  assumes "model a = model b" "adapter_map a = adapter_map b"
  shows "sync_area env a = sync_area env b"
  by (intro ext) (simp only: sync_area_def assms)

lemma served_commit:
  assumes "model a = model b" "adapter_map a = adapter_map b"
  shows "served (action_commit env ctx fc ar start addr bs ds rs (a, regs)) =
    served (action_commit env ctx fc ar start addr bs ds rs (b, regs))"
proof -
  obtain p r where w: "write_all (zip ds rs) (model b) = (p, r)" by (cases "write_all (zip ds rs) (model b)")
  show ?thesis
  proof (cases r)
    case (Some e)
    with w assms show ?thesis by (simp add: action_commit_def served_def)
  next
    case None
    let ?a = "a\<lparr>model := p\<rparr>" and ?b = "b\<lparr>model := p\<rparr>"
    have sync: "sync_area env ?a = sync_area env ?b" using assms by (intro sync_area_served) simp_all
    have emit: "served (case emit_return env ctx args ret ?a of (a', r) \<Rightarrow> ((a', rg), r)) =
        served (case emit_return env ctx args ret ?b of (a', r) \<Rightarrow> ((a', rg), r))" for args ret rg
      using assms by (intro served_emit_return) simp_all
    show ?thesis
    proof (cases "sync_area env ?b ar start regs")
      case (Pair rg res)
      show ?thesis
        using None w assms sync Pair emit
        by (cases res; cases "snapshot_raw p") (simp_all add: action_commit_def Let_def served_def)
    qed
  qed
qed

lemma served_write:
  assumes "model a = model b" "adapter_map a = adapter_map b"
  shows "served (action_write env ctx fc ar start addr vs (a, regs)) =
    served (action_write env ctx fc ar start addr vs (b, regs))"
proof -
  let ?snap = "snapshot_raw (model b)" and ?loc = "locate (adapter_map b) ar addr (length vs) []"
  note emit = served_emit_return [OF assms] and commit = served_commit [OF assms]
  show ?thesis
  proof (cases ?snap)
    case (Inl e)
    with assms show ?thesis by (simp add: action_write_def served_def)
  next
    case snap: (Inr snap)
    show ?thesis
    proof (cases ?loc)
      case (Inl ks)
      with assms snap emit show ?thesis by (simp add: action_write_def Let_def)
    next
      case (Inr ds)
      show ?thesis
      proof (cases "mapE (\<lambda>(d, v). coerce_write d v) (zip ds vs)")
        case (Inl e)
        with assms snap Inr emit show ?thesis
          by (cases "is_write_error e") (simp_all add: action_write_def Let_def served_def)
      next
        case coerced: (Inr rs)
        with assms snap Inr commit show ?thesis by (simp add: action_write_def Let_def)
      qed
    qed
  qed
qed

text \<open>C26: Telemetry cannot influence the protocol: two adapters over the same process and map give
  the same answer, block and next process to every request, whatever their sinks are, whether the
  sinks raise or are absent, and whatever their event numbering.\<close>

theorem sink_cannot_influence_answers:
  assumes "model a = model b" "adapter_map a = adapter_map b"
  shows "served (action env ctx fc start addr n vs (a, regs)) = served (action env ctx fc start addr n vs (b, regs))"
proof (cases "FUNCTION_AREA fc")
  case None
  with assms served_emit_return [OF assms] show ?thesis by (simp add: action_def Let_def)
next
  case (Some ar)
  obtain rg res where sync: "sync_area env b ar start regs = (rg, res)"
    by (cases "sync_area env b ar start regs")
  then have eq: "sync_area env a ar start regs = (rg, res)" by (simp add: sync_area_served [OF assms])
  show ?thesis
  proof (cases res)
    case (Inl e)
    with Some sync eq assms show ?thesis by (simp add: action_def served_def)
  next
    case (Inr snap)
    show ?thesis
      using Some sync eq Inr assms(2)
      by (cases vs) (simp_all add: action_def action_read_def Let_def assms served_write [OF assms]
          served_emit_return [OF assms])
  qed
qed

theorem sink_cannot_influence_answers_witness:
  "served (action sample_pymodbus None 6 42 42 1 (Some [PInt 6000]) (sample_adapter, [0])) =
   served (action sample_pymodbus None 6 42 42 1 (Some [PInt 6000]) (sample_adapter\<lparr>event_sink := None\<rparr>, [0]))"
  by (rule sink_cannot_influence_answers) simp_all

section \<open>What a write event reports\<close>

text \<open>The event of a successful write names the registers in address order, the normalised values,
  and the readings of exactly those registers just before and just after the write.\<close>

theorem write_event_reports_change:
  assumes "adapter_ok a" "event_sink a = Some sink" "FUNCTION_AREA fc = Some ar" "fc \<in> set WRITE_FUNCTIONS"
    "action env ctx fc start addr n (Some vs) (a, regs) = ((a', regs'), Inr None)"
  shows "\<exists>e ds rs. sink_state a' = fst (sink e (sink_state a)) \<and>
    length ds = length vs \<and> located (adapter_map a) ar addr ds \<and> coerced ds vs rs \<and>
    ev_operation e = ''write'' \<and> ev_result e = ''ok'' \<and> ev_exception_code e = None \<and>
    ev_register_keys e = map key ds \<and> ev_requested_values e = Some (map raw_value rs) \<and>
    ev_before e = Some (readings (model a) (map key ds)) \<and>
    ev_after e = Some (readings (model a') (map key ds))"
  using assms(1,3,4)
proof (cases rule: write_request_cases [of a fc ar vs addr env ctx start n regs])
  case (success ds rs u p')
  let ?f = "written_event u fc ar addr (map key ds) rs (model a) p'"
  let ?e = "fst (create env ctx ?f (event_factory a))"
  have a': "a' = emit_event env ctx ?f (a\<lparr>model := p'\<rparr>)" using success(7) assms(5) by simp
  have trunc: "ev_operation e = ev_operation f \<and> ev_result e = ev_result f \<and>
      ev_exception_code e = ev_exception_code f \<and> ev_register_keys e = ev_register_keys f \<and>
      ev_requested_values e = ev_requested_values f \<and> ev_before e = ev_before f \<and> ev_after e = ev_after f"
    if "event_fields.truncate e = f" for e :: ProtocolEvent and f
    using that by (auto simp: event_fields.defs)
  have "sink_state a' = fst (sink ?e (sink_state a))"
    unfolding a' using assms(2) by (subst emit_event_sink [of _ sink]) simp_all
  moreover have "model a' = p'" by (simp add: a')
  moreover have "ev_operation ?f = ''write''" "ev_result ?f = ''ok''" "ev_exception_code ?f = None"
    "ev_register_keys ?f = map key ds" "ev_requested_values ?f = Some (map raw_value rs)"
    "ev_before ?f = Some (readings (model a) (map key ds))" "ev_after ?f = Some (readings p' (map key ds))"
    by (simp_all add: written_event_def with_request_def fields_of_def)
  ultimately show ?thesis
    using success(1-3) trunc [OF create_fields, of env ctx ?f "event_factory a"]
    by (intro exI [of _ ?e] exI [of _ ds] exI [of _ rs]) simp
qed (use assms(5) in auto)

theorem write_event_reports_change_witness:
  "\<exists>a' regs' e. action sample_pymodbus None 16 40 42 2 (Some [PInt 6000, PInt 7000]) (sample_adapter, replicate 7 0)
      = ((a', regs'), Inr None) \<and> sink_state a' = [e] \<and> ev_operation e = ''write'' \<and>
      ev_register_keys e = [''level_setpoint'', ''pump_speed_setpoint'']"
proof -
  obtain a' regs' where run: "action sample_pymodbus None 16 40 42 2 (Some [PInt 6000, PInt 7000])
      (sample_adapter, replicate 7 0) = ((a', regs'), Inr None)"
    using setpoints_written by blast
  obtain e ds where e: "sink_state a' = fst (sample_sink e [])" "ev_operation e = ''write''"
    "length ds = Suc (Suc 0)" "located default_map ''holding_register'' 42 ds" "ev_register_keys e = map key ds"
    using write_event_reports_change [OF sample_adapter_ok _ _ _ run, of sample_sink "''holding_register''"]
    by (auto simp: WRITE_FUNCTIONS_def sample_adapter_def)
  then have "map key ds = [''level_setpoint'', ''pump_speed_setpoint'']"
    by (auto simp: length_Suc_conv default_locations)
  with run e show ?thesis by (auto simp: sample_sink_def)
qed

section \<open>The device PyModbus is given\<close>

lemma build_block_total:
  assumes "profile_ok (register_map p)" "snapshot_raw p = Inr snap" "for_area (register_map p) ar \<noteq> []"
  shows "build_block (register_map p) snap ar =
    Inr (map (\<lambda>d. \<lparr>sim_address = address d, sim_values = the (abs_process p (key d)),
                  sim_type = sim_datatype d, sim_readonly = (\<not> writable d)\<rparr>) (for_area (register_map p) ar))"
proof -
  have "mapE (build_entry snap) (for_area (register_map p) ar) =
    Inr (map (\<lambda>d. \<lparr>sim_address = address d, sim_values = the (abs_process p (key d)),
                  sim_type = sim_datatype d, sim_readonly = (\<not> writable d)\<rparr>) (for_area (register_map p) ar))"
    using snapshot_has_keys [OF assms(1,2)]
    by (intro mapE_total) (auto simp: build_entry_def for_area_def)
  with assms(3) show ?thesis by (simp add: build_block_def)
qed

lemma build_device_eq:
  assumes "adapter_ok a" "\<forall>ar \<in> set AREA_ORDER. for_area (adapter_map a) ar \<noteq> []"
    "unit_id (adapter_map a) = Inr u"
  shows "build_device a = Inr \<lparr>sim_id = u,
    sim_blocks = map (\<lambda>ar. map (\<lambda>d. \<lparr>sim_address = address d,
        sim_values = the (abs_process (model a) (key d)), sim_type = sim_datatype d,
        sim_readonly = (\<not> writable d)\<rparr>) (for_area (adapter_map a) ar)) AREA_ORDER,
    sim_identity = identity a\<rparr>"
proof -
  note m = adapter_okD(2) [OF assms(1)]
  obtain snap where snap: "snapshot_raw (model a) = Inr snap" using adapter_snapshot [OF assms(1)] by blast
  let ?block = "\<lambda>ar. map (\<lambda>d. \<lparr>sim_address = address d, sim_values = the (abs_process (model a) (key d)),
        sim_type = sim_datatype d, sim_readonly = (\<not> writable d)\<rparr>) (for_area (adapter_map a) ar)"
  have "mapE (build_block (adapter_map a) snap) AREA_ORDER = Inr (map ?block AREA_ORDER)"
    using build_block_total [OF _ snap] adapter_okD(4) [OF assms(1)] assms(2) m
    by (intro mapE_total) auto
  then show ?thesis by (simp add: build_device_def snap assms(3))
qed

lemma default_areas: "\<forall>ar \<in> set AREA_ORDER. for_area default_map ar \<noteq> []"
  by (auto simp: AREA_ORDER_def for_area_def default_definitions_def)

text \<open>When every area has a register, the device publishes exactly the map: four blocks in
  PyModbus order, and each block holds one entry per definition of its area, with its address, its
  current value, and read-only exactly when the definition is not writable.\<close>

theorem device_publishes_map:
  assumes "adapter_ok a" "\<forall>ar \<in> set AREA_ORDER. for_area (adapter_map a) ar \<noteq> []"
  shows "\<exists>dev. build_device a = Inr dev \<and> unit_id (adapter_map a) = Inr (sim_id dev) \<and>
    sim_blocks dev = map (\<lambda>ar. map (\<lambda>d. \<lparr>sim_address = address d,
        sim_values = the (abs_process (model a) (key d)), sim_type = sim_datatype d,
        sim_readonly = (\<not> writable d)\<rparr>) (for_area (adapter_map a) ar))
      [''coil'', ''discrete_input'', ''holding_register'', ''input_register'']"
  using build_device_eq [OF assms] adapter_okD(3) [OF assms(1)] by (auto simp: isOK_iff AREA_ORDER_def)

theorem device_publishes_map_witness:
  "\<exists>dev. build_device sample_adapter = Inr dev \<and> sim_id dev = 7 \<and> length (sim_blocks dev) = 4"
  using device_publishes_map [OF sample_adapter_ok] default_areas by auto

end
