(* ===== verification/Protocol_Drift.thy ===== *)
theory Protocol_Drift
  imports Protocol_Claims
begin

text \<open>
  What happens when the manifest and the process model diverge: the validator lets a writable
  key through that \<open>write_raw\<close> has no handler for, and the adapter's loop is then no longer
  atomic and leaves no event.
\<close>

definition drift_definition :: "RegisterDefinition \<Rightarrow> RegisterDefinition" where
  "drift_definition d =
     (if key d = ''high_alarm_limit'' then d\<lparr>writable := True, write_effect := Some ''Moves the high alarm''\<rparr> else d)"

definition drifted_map :: RegisterMap where
  "drifted_map = \<lparr>document = default_document, definitions = map drift_definition default_definitions,
     by_key = map (\<lambda>(k, d). (k, drift_definition d)) (by_key default_map),
     by_location = map (\<lambda>(l, d). (l, drift_definition d)) (by_location default_map)\<rparr>"

definition drifted_adapter :: "ProtocolEvent list ProcessProtocolAdapter" where
  "drifted_adapter = sample_adapter\<lparr>model := default_process\<lparr>register_map := drifted_map\<rparr>,
     adapter_map := drifted_map\<rparr>"

lemma drift_definition_keeps [simp]:
  "key (drift_definition d) = key d" "default_value (drift_definition d) = default_value d"
  "area (drift_definition d) = area d" "address (drift_definition d) = address d"
  "data_type (drift_definition d) = data_type d" "minimum (drift_definition d) = minimum d"
  "maximum (drift_definition d) = maximum d"
  by (simp_all add: drift_definition_def)

lemma drifted_require_key:
  "require_key drifted_map k = (case require_key default_map k of Inl e \<Rightarrow> Inl e | Inr d \<Rightarrow> Inr (drift_definition d))"
  by (simp add: require_key_def drifted_map_def map_of_map split: option.split)

lemma drifted_require_location:
  "require_location drifted_map ar n =
     (case require_location default_map ar n of Inl e \<Rightarrow> Inl e | Inr d \<Rightarrow> Inr (drift_definition d))"
  by (simp add: require_location_def drifted_map_def map_of_map split: option.split)

lemma drifted_int_default [simp]: "int_default drifted_map k = int_default default_map k"
  by (simp add: int_default_def drifted_require_key split: sum.split)

lemma drifted_snapshot:
  assumes "register_map p = drifted_map"
  shows "snapshot_raw p = Inr (snapshot_values p 8200 1800 103)"
proof -
  have "fst ` set (by_key drifted_map) = fst ` set (by_key default_map)"
    by (force simp: drifted_map_def image_image case_prod_unfold)
  also have "\<dots> = set model_keys" by (rule profile_okD(2) [OF default_profile_ok])
  finally show ?thesis
    by (simp add: snapshot_raw_def assms Let_def snapshot_values_keys flip: set_map)
qed

lemma drifted_sync:
  assumes "register_map (model a) = drifted_map" "adapter_map a = drifted_map"
  shows "sync_area env a ''holding_register'' start [] =
    ([], Inr (snapshot_values (model a) 8200 1800 103))"
proof -
  have "sync_register start snap d [] = ([], None)" for snap d
    by (auto simp: sync_register_def Let_def)
  then have "run_stmts (map (sync_register start snap) ds) [] = ([], None)" for snap ds
    by (induction ds) (simp_all add: run_stmts.simps(2))
  then show ?thesis
    by (simp add: sync_area_def drifted_snapshot [OF assms(1)] sync_register_area_def)
qed

text \<open>The two registers of the request, as the drifted map defines them.\<close>

definition drifted_targets :: "RegisterDefinition list" where
  "drifted_targets = map (\<lambda>n. projr (require_location drifted_map ''holding_register'' n)) [43, 44]"

lemma drifted_located: "locate drifted_map ''holding_register'' 43 2 [] = Inr drifted_targets"
  by (simp add: numeral_2_eq_2 drifted_require_location default_locations drifted_targets_def)
    (simp add: drift_definition_def)

lemma drifted_coerced:
  "mapE (\<lambda>(d, v). coerce_write d v) (zip drifted_targets [PInt 9000, PInt 9000]) = Inr [RInt 9000, RInt 9000]"
  by (simp add: drifted_targets_def drifted_require_location default_locations coerce_write_def
      normalize_write_def range_check_def Let_def)

lemma drifted_writes:
  assumes "register_map p = drifted_map"
  shows "write_all (zip drifted_targets [RInt 9000, RInt 9000]) p =
    (p\<lparr>pump_speed_setpoint := 9000\<rparr>, Some (ProcessWriteError (NoWriteHandler ''high_alarm_limit'')))"
proof -
  have key: "require_key default_map ''pump_speed_setpoint'' =
      require_location default_map ''holding_register'' 43"
    "require_key default_map ''high_alarm_limit'' = require_location default_map ''holding_register'' 44"
    by (simp_all add: require_key_def require_location_def default_map_def default_definitions_def)
  have snap: "snapshot_get q ''pump_speed_setpoint'' = Inr (RInt (pump_speed_setpoint q))"
    "snapshot_get q ''high_alarm_limit'' = Inr (RInt 8200)" if "register_map q = drifted_map" for q
    using drifted_snapshot [OF that] by (simp_all add: snapshot_get_def snapshot_values_def)
  have coerce: "coerce_write (drift_definition (defn k ar n r ''uint16'' sc u lo hi df eff ds)) (PInt 9000) = Inr (RInt 9000)"
    if "lo \<le> 9000" "9000 \<le> hi" for k ar n r sc u lo hi df eff ds
    using that by (simp add: coerce_write_def normalize_write_def range_check_def Let_def)
  have first: "write_raw p ''pump_speed_setpoint'' (PInt 9000) =
      (p\<lparr>pump_speed_setpoint := 9000\<rparr>, snd (write_raw p ''pump_speed_setpoint'' (PInt 9000))) \<and>
      isOK (snd (write_raw p ''pump_speed_setpoint'' (PInt 9000)))"
    using assms by (simp add: write_raw_def drifted_require_key key default_locations coerce snap apply_write_def)
      (simp add: drift_definition_def)
  have second: "write_raw q ''high_alarm_limit'' (PInt 9000) =
      (q, Inl (ProcessWriteError (NoWriteHandler ''high_alarm_limit'')))" if "register_map q = drifted_map" for q
    using that by (simp add: write_raw_def drifted_require_key key default_locations coerce snap apply_write_def)
      (simp add: drift_definition_def)
  obtain t where t: "write_raw p ''pump_speed_setpoint'' (PInt 9000) = (p\<lparr>pump_speed_setpoint := 9000\<rparr>, Inr t)"
    using first by (auto simp: isOK_iff)
  show ?thesis
    using assms
    by (simp add: write_all_def drifted_targets_def drifted_require_location default_locations
        run_stmts.simps(2) write_stmt_def t second)
qed

text \<open>C37: On a manifest the validator accepts but the process model does not handle (a writable key
  without write handler), a multiple write is not atomic: the first register keeps its new value,
  the client is told SERVER FAILURE, and no event reports the change.\<close>

theorem drifted_manifest_breaks_atomicity:
  "action sample_pymodbus ctx 16 43 43 2 (Some [PInt 9000, PInt 9000]) (drifted_adapter, []) =
     ((drifted_adapter\<lparr>model := (model drifted_adapter)\<lparr>pump_speed_setpoint := 9000\<rparr>\<rparr>, []),
      Inr (Some SERVER_FAILURE)) \<and>
   pump_speed_setpoint (model drifted_adapter) = 6800 \<and> sink_state drifted_adapter = []"
proof -
  have map: "register_map (model drifted_adapter) = drifted_map" "adapter_map drifted_adapter = drifted_map"
    by (simp_all add: drifted_adapter_def)
  have "action_write sample_pymodbus ctx 16 ''holding_register'' 43 43 [PInt 9000, PInt 9000] (drifted_adapter, []) =
     ((drifted_adapter\<lparr>model := (model drifted_adapter)\<lparr>pump_speed_setpoint := 9000\<rparr>\<rparr>, []),
      Inr (Some SERVER_FAILURE))"
    using drifted_located drifted_coerced drifted_writes [OF map(1)]
    by (simp add: action_write_def action_commit_def map drifted_snapshot [OF map(1)] Let_def
        is_write_error_def numeral_2_eq_2)
  then show ?thesis
    by (simp add: action_def drifted_sync [OF map] WRITE_FUNCTIONS_def)
      (simp add: drifted_adapter_def sample_adapter_def default_process_def blank_process_def)
qed

end
