(* ===== verification/Server.thy ===== *)
theory Server
  imports Protocol "HOL-Library.Word"
begin

text \<open>
  \<open>server.py\<close>: one handler per TCP connection and the server that counts them.  What the
  handler inherits from PyModbus and asyncio is a parameter: the frame decoder with its state,
  the constructor of exception responses, what closing leaves in the receive buffer, and
  \<open>super().data_received\<close>.  Calls that leave the handler (\<open>server_send\<close>, closing, the base class's
  connection callbacks) are recorded in its trace, in order.  Timers are their deadlines on the
  loop's clock.  Every callback runs to completion before the next one, as on an event loop.
\<close>

section \<open>Limits and data\<close>

definition MAX_PENDING_REQUEST_BYTES :: nat where "MAX_PENDING_REQUEST_BYTES = 1024"
definition MAX_PENDING_REQUESTS :: nat where "MAX_PENDING_REQUESTS = 32"
definition DEFAULT_MAX_ACTIVE_CONNECTIONS :: int where "DEFAULT_MAX_ACTIVE_CONNECTIONS = 128"
definition DEFAULT_IDLE_TIMEOUT_SECONDS :: rat where "DEFAULT_IDLE_TIMEOUT_SECONDS = 120"
definition DEFAULT_INCOMPLETE_REQUEST_TIMEOUT_SECONDS :: rat where
  "DEFAULT_INCOMPLETE_REQUEST_TIMEOUT_SECONDS = 5"
definition COIL_ON :: int where "COIL_ON = 0xFF00"
definition COIL_OFF :: int where "COIL_OFF = 0x0000"
definition WRITE_SINGLE_COIL :: int where "WRITE_SINGLE_COIL = 5"
definition MBAP_UNIT_OFFSET :: nat where "MBAP_UNIT_OFFSET = 6"
definition FUNCTION_CODE_OFFSET :: nat where "FUNCTION_CODE_OFFSET = 7"

type_synonym byte = "8 word"
type_synonym peer_addr = "(string \<times> int) option"

record 'p ModbusPDU =
  transaction_id :: int
  dev_id :: int
  function_code :: int
  body :: 'p

text \<open>The second argument of \<open>server_send\<close>: an address, which TCP leaves \<open>None\<close>, or the 0 of the
  framing-error branch.\<close>

datatype target = To peer_addr | ToZero

datatype 'p out = Send "'p ModbusPDU" target | SuperClose bool | TransportClose | SuperMade | SuperLost

text \<open>One call of the decoder: bytes used with the PDU it left behind, or an exception.\<close>

datatype 'p decoded = Used int "'p ModbusPDU option" peer_addr | FramingError | DecoderError

record server =
  max_active_connections :: int
  idle_timeout_seconds :: rat
  incomplete_request_timeout_seconds :: rat
  broadcast_enable :: bool
  ignore_missing_devices :: bool
  served_devices :: "int list"
  active_connections :: "nat set"

record ('p, 'd) handler =
  handler_id :: nat
  session_id :: string
  source_ip :: "string option"
  source_port :: "int option"
  pending_requests :: "('p ModbusPDU \<times> peer_addr) list"
  draining :: bool
  idle_timer :: "rat option"
  incomplete_timer :: "rat option"
  registered :: bool
  recv_buffer :: "byte list"
  framer :: 'd
  trace :: "'p out list"

type_synonym ('p, 'd) conn = "server \<times> ('p, 'd) handler"

record ('p, 'd) pymodbus_server =
  decode_adu :: "byte list \<Rightarrow> peer_addr \<Rightarrow> 'd \<Rightarrow> 'd \<times> 'p decoded"
  exception_response :: "int \<Rightarrow> ExcCodes \<Rightarrow> 'p ModbusPDU"
  close_buffer :: "byte list \<Rightarrow> byte list"
  base_data_received ::
    "(byte list \<Rightarrow> peer_addr \<Rightarrow> ('p, 'd) conn \<Rightarrow> ('p, 'd) conn \<times> nat) \<Rightarrow> byte list \<Rightarrow>
       ('p, 'd) conn \<Rightarrow> ('p, 'd) conn"

definition emit :: "'p out \<Rightarrow> ('p, 'd) handler \<Rightarrow> ('p, 'd) handler" where
  "emit x h = h\<lparr>trace := trace h @ [x]\<rparr>"

section \<open>The server's connection registry\<close>

text \<open>The timeouts may be any float a caller passes; a NaN passes the checks as in Python.\<close>

definition check_limits :: "int \<Rightarrow> pyfloat \<Rightarrow> pyfloat \<Rightarrow> unit result" where
  "check_limits max_active idle incomplete =
     (if max_active \<le> 0 then Inl (ValueError ''max_active_connections must be positive'')
      else if idle \<le> Fin 0 then Inl (ValueError ''idle_timeout_seconds must be positive'')
      else if incomplete \<le> Fin 0 then Inl (ValueError ''incomplete_request_timeout_seconds must be positive'')
      else Inr ())"

definition server_init :: "int \<Rightarrow> rat \<Rightarrow> rat \<Rightarrow> bool \<Rightarrow> bool \<Rightarrow> int list \<Rightarrow> server result" where
  "server_init max_active idle incomplete bcast ignore devices =
     bindE (check_limits max_active (Fin idle) (Fin incomplete)) (\<lambda>_.
     Inr \<lparr>max_active_connections = max_active, idle_timeout_seconds = idle,
          incomplete_request_timeout_seconds = incomplete, broadcast_enable = bcast,
          ignore_missing_devices = ignore, served_devices = devices, active_connections = {}\<rparr>)"

definition register_connection :: "nat \<Rightarrow> server \<Rightarrow> server \<times> bool" where
  "register_connection hid srv =
     (if max_active_connections srv \<le> int (card (active_connections srv)) then (srv, False)
      else (srv\<lparr>active_connections := insert hid (active_connections srv)\<rparr>, True))"

definition unregister_connection :: "nat \<Rightarrow> server \<Rightarrow> server" where
  "unregister_connection hid srv = srv\<lparr>active_connections := active_connections srv - {hid}\<rparr>"

definition new_handler :: "nat \<Rightarrow> string \<Rightarrow> 'd \<Rightarrow> ('p, 'd) handler" where
  "new_handler hid sid d = \<lparr>handler_id = hid, session_id = sid, source_ip = None, source_port = None,
     pending_requests = [], draining = False, idle_timer = None, incomplete_timer = None,
     registered = False, recv_buffer = [], framer = d, trace = []\<rparr>"

section \<open>Connection lifecycle\<close>

definition unregister :: "('p, 'd) conn \<Rightarrow> ('p, 'd) conn" where
  "unregister st =
     (case st of (srv, h) \<Rightarrow>
      if registered h then (unregister_connection (handler_id h) srv, h\<lparr>registered := False\<rparr>) else (srv, h))"

definition cancel_timers :: "('p, 'd) handler \<Rightarrow> ('p, 'd) handler" where
  "cancel_timers h = h\<lparr>idle_timer := None, incomplete_timer := None\<rparr>"

definition arm_idle_timer :: "rat \<Rightarrow> ('p, 'd) conn \<Rightarrow> ('p, 'd) conn" where
  "arm_idle_timer now st =
     (case st of (srv, h) \<Rightarrow> (srv, h\<lparr>idle_timer := Some (now + idle_timeout_seconds srv)\<rparr>))"

definition close_connection :: "('p, 'd) pymodbus_server \<Rightarrow> bool \<Rightarrow> ('p, 'd) conn \<Rightarrow> ('p, 'd) conn" where
  "close_connection env reconnect st =
     (case st of (srv, h) \<Rightarrow>
      case unregister (srv, cancel_timers h) of (srv', h') \<Rightarrow>
      (srv', (emit (SuperClose reconnect) h')\<lparr>recv_buffer := close_buffer env (recv_buffer h')\<rparr>))"

definition connection_lost :: "('p, 'd) conn \<Rightarrow> ('p, 'd) conn" where
  "connection_lost st =
     (case st of (srv, h) \<Rightarrow>
      case unregister (srv, cancel_timers h) of (srv', h') \<Rightarrow> (srv', emit SuperLost h'))"

definition close_idle_connection :: "('p, 'd) pymodbus_server \<Rightarrow> ('p, 'd) conn \<Rightarrow> ('p, 'd) conn" where
  "close_idle_connection env = close_connection env False"

definition close_incomplete_request :: "('p, 'd) pymodbus_server \<Rightarrow> ('p, 'd) conn \<Rightarrow> ('p, 'd) conn" where
  "close_incomplete_request env = close_connection env False"

text \<open>\<open>peername\<close> is a tuple or something else; its port may fail to convert.\<close>

definition peer_port :: "pyval \<Rightarrow> int option result" where
  "peer_port v =
     (case py_int v of Inr i \<Rightarrow> Inr (Some i)
      | Inl TypeError \<Rightarrow> Inr None | Inl (ValueError _) \<Rightarrow> Inr None | Inl e \<Rightarrow> Inl e)"

definition note_peer :: "pyval list option \<Rightarrow> ('p, 'd) handler \<Rightarrow> ('p, 'd) handler result" where
  "note_peer peer h =
     (case peer of
        Some (p0 # p1 # ps) \<Rightarrow>
          bindE (py_str p0) (\<lambda>ip. bindE (peer_port p1) (\<lambda>port.
          Inr (h\<lparr>source_ip := Some ip, source_port := port\<rparr>)))
      | _ \<Rightarrow> Inr h)"

definition connection_made ::
  "rat \<Rightarrow> pyval list option \<Rightarrow> ('p, 'd) conn \<Rightarrow> ('p, 'd) conn \<times> exn option" where
  "connection_made now peer st =
     (case st of (srv, h) \<Rightarrow>
      case note_peer peer h of Inl e \<Rightarrow> ((srv, h), Some e) | Inr h1 \<Rightarrow>
      case register_connection (handler_id h1) srv of
        (srv', False) \<Rightarrow> ((srv', emit TransportClose h1), None)
      | (srv', True) \<Rightarrow> (arm_idle_timer now (srv', emit SuperMade (h1\<lparr>registered := True\<rparr>)), None))"

section \<open>Decoding one delivery\<close>

text \<open>\<open>int.from_bytes(bs, "big")\<close>.\<close>

definition from_bytes :: "byte list \<Rightarrow> int" where
  "from_bytes bs = foldl (\<lambda>acc b. acc * 256 + uint b) 0 bs"

definition requested_coil_value :: "byte list \<Rightarrow> int option" where
  "requested_coil_value frame =
     (if length frame < 12 \<or> uint (frame ! FUNCTION_CODE_OFFSET) \<noteq> WRITE_SINGLE_COIL then None
      else Some (from_bytes (take 2 (drop 10 frame))))"

text \<open>The answer to a frame the decoder raised on.\<close>

definition undecodable_refusal :: "('p, 'd) pymodbus_server \<Rightarrow> byte list \<Rightarrow> 'p ModbusPDU" where
  "undecodable_refusal env frame =
     (let claimed = (if FUNCTION_CODE_OFFSET < length frame then uint (frame ! FUNCTION_CODE_OFFSET) else 0);
          r0 = exception_response env claimed ILLEGAL_VALUE;
          r1 = (if 2 \<le> length frame then r0\<lparr>transaction_id := from_bytes (take 2 frame)\<rparr> else r0)
      in if MBAP_UNIT_OFFSET < length frame then r1\<lparr>dev_id := uint (frame ! MBAP_UNIT_OFFSET)\<rparr> else r1)"

definition coil_refusal :: "('p, 'd) pymodbus_server \<Rightarrow> 'p ModbusPDU \<Rightarrow> 'p ModbusPDU" where
  "coil_refusal env pdu =
     (exception_response env WRITE_SINGLE_COIL ILLEGAL_VALUE)
       \<lparr>transaction_id := transaction_id pdu, dev_id := dev_id pdu\<rparr>"

text \<open>What happens to one decoded PDU; \<open>None\<close> means the connection was closed.\<close>

definition accept_pdu ::
  "('p, 'd) pymodbus_server \<Rightarrow> byte list \<Rightarrow> 'p ModbusPDU \<Rightarrow> peer_addr \<Rightarrow> ('p, 'd) conn \<Rightarrow>
     ('p, 'd) conn \<times> bool" where
  "accept_pdu env frame pdu pdu_addr st =
     (case st of (srv, h) \<Rightarrow>
      let refused = (case requested_coil_value frame of None \<Rightarrow> False
            | Some v \<Rightarrow> v \<noteq> COIL_ON \<and> v \<noteq> COIL_OFF)
      in if refused then ((srv, emit (Send (coil_refusal env pdu) (To pdu_addr)) h), True)
         else if MAX_PENDING_REQUESTS \<le> length (pending_requests h)
         then (close_connection env False (srv, h\<lparr>pending_requests := []\<rparr>), False)
         else ((srv, h\<lparr>pending_requests := pending_requests h @ [(pdu, pdu_addr)]\<rparr>), True))"

text \<open>
  The loop: \<open>Inl n\<close> is an early return of \<open>n\<close>, \<open>Inr total\<close> leaves the loop.  Every turn uses at
  least one byte, which is why it ends.
\<close>

function callback_loop ::
  "('p, 'd) pymodbus_server \<Rightarrow> peer_addr \<Rightarrow> nat \<Rightarrow> byte list \<Rightarrow> nat \<Rightarrow> ('p, 'd) conn \<Rightarrow>
     ('p, 'd) conn \<times> (nat + nat)" where
  "callback_loop env addr len remaining total_used st =
     (if remaining = [] then (st, Inr total_used) else
      case st of (srv, h) \<Rightarrow>
      case decode_adu env remaining addr (framer h) of
        (d, FramingError) \<Rightarrow>
          ((srv, emit (Send (exception_response env 40 ILLEGAL_FUNCTION) ToZero) (h\<lparr>framer := d\<rparr>)), Inl len)
      | (d, DecoderError) \<Rightarrow>
          ((srv, emit (Send (undecodable_refusal env remaining) (To addr)) (h\<lparr>framer := d\<rparr>)), Inl len)
      | (d, Used used opdu pdu_addr) \<Rightarrow>
          let st1 = (srv, h\<lparr>framer := d\<rparr>) in
          if used \<le> 0 then (st1, Inr total_used)
          else
            (case opdu of
               None \<Rightarrow> callback_loop env addr len (drop (nat used) remaining) (total_used + nat used) st1
             | Some pdu \<Rightarrow>
                 (case accept_pdu env (take (nat used) remaining) pdu pdu_addr st1 of
                    (st2, False) \<Rightarrow> (st2, Inl len)
                  | (st2, True) \<Rightarrow>
                      callback_loop env addr len (drop (nat used) remaining) (total_used + nat used) st2)))"
  by pat_completeness auto

termination
  by (relation "measure (\<lambda>(env, addr, len, remaining, total, st). length remaining)") auto

declare callback_loop.simps [simp del]

definition callback_data ::
  "('p, 'd) pymodbus_server \<Rightarrow> byte list \<Rightarrow> peer_addr \<Rightarrow> ('p, 'd) conn \<Rightarrow> ('p, 'd) conn \<times> nat" where
  "callback_data env data addr st =
     (case callback_loop env addr (length data) data 0 st of
        (st', Inl n) \<Rightarrow> (st', n)
      | ((srv, h), Inr total_used) \<Rightarrow>
          ((srv, if pending_requests h \<noteq> [] \<and> \<not> draining h then h\<lparr>draining := True\<rparr> else h), total_used))"

definition data_received ::
  "('p, 'd) pymodbus_server \<Rightarrow> rat \<Rightarrow> byte list \<Rightarrow> ('p, 'd) conn \<Rightarrow> ('p, 'd) conn" where
  "data_received env now data st =
     (let pending_size = length (recv_buffer (snd st)) + length data in
      if MAX_PENDING_REQUEST_BYTES < pending_size then close_connection env False st
      else
        case arm_idle_timer now (base_data_received env (callback_data env) data st) of (srv, h) \<Rightarrow>
        if recv_buffer h \<noteq> []
        then if incomplete_timer h = None
             then (srv, h\<lparr>incomplete_timer := Some (now + incomplete_request_timeout_seconds srv)\<rparr>) else (srv, h)
        else (srv, h\<lparr>incomplete_timer := None\<rparr>))"

section \<open>Executing requests\<close>

text \<open>PyModbus's \<open>datastore_update\<close> of a PDU is a parameter: a task over the datastore's world.\<close>

type_synonym ('p, 'w) datastore = "'p ModbusPDU \<Rightarrow> int \<Rightarrow> ('w, 'p ModbusPDU option) task"

fun broadcast_update :: "('p, 'w) datastore \<Rightarrow> 'p ModbusPDU \<Rightarrow> int list \<Rightarrow> ('w, 'p ModbusPDU option) task" where
  "broadcast_update ds pdu [] st = (st, Inr None)"
| "broadcast_update ds pdu (i # is) st =
     (case ds pdu i st of (st', Inl e) \<Rightarrow> (st', Inl e) | (st', Inr _) \<Rightarrow> broadcast_update ds pdu is st')"

definition datastore_update ::
  "('p, 'd) pymodbus_server \<Rightarrow> ('p, 'w) datastore \<Rightarrow> server \<Rightarrow> 'p ModbusPDU \<Rightarrow> ('w, 'p ModbusPDU option) task" where
  "datastore_update env ds srv pdu st =
     (case (if broadcast_enable srv \<and> dev_id pdu = 0
            then broadcast_update ds pdu (device_ids (served_devices srv)) st
            else ds pdu (dev_id pdu) st) of
        (st', Inr r) \<Rightarrow> (st', Inr r)
      | (st', Inl NoSuchIdException) \<Rightarrow>
          (st', Inr (if ignore_missing_devices srv then None
                     else Some (exception_response env (function_code pdu) GATEWAY_NO_RESPONSE)))
      | (st', Inl _) \<Rightarrow> (st', Inr (Some (exception_response env (function_code pdu) DEVICE_FAILURE))))"

definition request_context :: "('p, 'd) handler \<Rightarrow> 'p ModbusPDU \<Rightarrow> RequestTransportContext option" where
  "request_context h pdu =
     (case (source_ip h, source_port h) of
        (Some ip, Some port) \<Rightarrow>
          Some \<lparr>ctx_source_ip = ip, ctx_source_port = port, ctx_transaction_id = transaction_id pdu,
                ctx_session_id = session_id h\<rparr>
      | _ \<Rightarrow> None)"

definition execute_request ::
  "('p, 'd) pymodbus_server \<Rightarrow> ('p, 'w) datastore \<Rightarrow> server \<Rightarrow> 'p ModbusPDU \<times> peer_addr \<Rightarrow>
     (ctxvar \<times> 'w) \<times> ('p, 'd) handler \<Rightarrow> (ctxvar \<times> 'w) \<times> ('p, 'd) handler" where
  "execute_request env ds srv req st =
     (case req of (pdu, addr) \<Rightarrow> case st of (task, h) \<Rightarrow>
      case (case request_context h pdu of
              None \<Rightarrow> datastore_update env ds srv pdu task
            | Some context \<Rightarrow> bind_transport_context context (datastore_update env ds srv pdu) task) of
        (task', Inr (Some response)) \<Rightarrow>
          (task', emit (Send (response\<lparr>transaction_id := transaction_id pdu, dev_id := dev_id pdu\<rparr>) (To addr)) h)
      | (task', _) \<Rightarrow> (task', h))"

lemma execute_request_pending [frame, simp]:
  "pending_requests (snd (execute_request env ds srv req st)) = pending_requests (snd st)"
  by (simp add: execute_request_def emit_def split: prod.split sum.split option.split)

text \<open>The drain task, between two arrivals of data: it stops when the queue is empty.\<close>

function drain_requests ::
  "('p, 'd) pymodbus_server \<Rightarrow> ('p, 'w) datastore \<Rightarrow> server \<Rightarrow>
     (ctxvar \<times> 'w) \<times> ('p, 'd) handler \<Rightarrow> (ctxvar \<times> 'w) \<times> ('p, 'd) handler" where
  "drain_requests env ds srv (task, h) =
     (case pending_requests h of
        [] \<Rightarrow> (task, h\<lparr>draining := False\<rparr>)
      | req # reqs \<Rightarrow>
          drain_requests env ds srv (execute_request env ds srv req (task, h\<lparr>pending_requests := reqs\<rparr>)))"
  by pat_completeness auto

termination
  by (relation "measure (\<lambda>(env, ds, srv, st). length (pending_requests (snd st)))") auto

declare drain_requests.simps [simp del]

end
