(* ===== verification/Server_Props.thy ===== *)
theory Server_Props
  imports Server
begin

text \<open>
  The lemmas of the server: the registry meets its contract, every handler callback touches
  the registry only at its own entry and keeps the connection's invariant, and the decode loop
  either extends the queue or closes the connection.
\<close>

section \<open>The connection registry\<close>

interpretation connections: registry register_connection unregister_connection active_connections
    "\<lambda>srv. nat (max_active_connections srv)"
  by unfold_locales (auto simp: register_connection_def unregister_connection_def)

text \<open>A handler changes the server only by entering or leaving the registry itself.\<close>

definition own_change :: "nat \<Rightarrow> server \<Rightarrow> server \<Rightarrow> bool" where
  "own_change hid srv srv' \<longleftrightarrow>
     srv' = srv\<lparr>active_connections := active_connections srv'\<rparr> \<and>
     active_connections srv' - {hid} = active_connections srv - {hid}"

lemma own_change_refl [simp]: "own_change hid srv srv"
  by (simp add: own_change_def)

lemma own_change_register: "own_change hid srv (fst (register_connection hid srv))"
  by (auto simp: own_change_def register_connection_def)

lemma own_change_unregister: "own_change hid srv (unregister_connection hid srv)"
  by (auto simp: own_change_def unregister_connection_def)

lemma own_change_other: "own_change hid srv srv' \<Longrightarrow> i \<noteq> hid \<Longrightarrow>
    i \<in> active_connections srv' \<longleftrightarrow> i \<in> active_connections srv"
  by (auto simp: own_change_def)

lemma own_change_limits:
  assumes "own_change hid srv srv'"
  shows "max_active_connections srv' = max_active_connections srv"
    "idle_timeout_seconds srv' = idle_timeout_seconds srv"
    "incomplete_request_timeout_seconds srv' = incomplete_request_timeout_seconds srv"
proof -
  from assms have eq: "srv' = srv\<lparr>active_connections := active_connections srv'\<rparr>"
    by (simp add: own_change_def)
  show "max_active_connections srv' = max_active_connections srv"
    "idle_timeout_seconds srv' = idle_timeout_seconds srv"
    "incomplete_request_timeout_seconds srv' = incomplete_request_timeout_seconds srv"
    by (subst eq; simp)+
qed

section \<open>The invariant of a connection\<close>

definition conn_ok :: "('p, 'd) conn \<Rightarrow> bool" where
  "conn_ok st \<longleftrightarrow>
     (case st of (srv, h) \<Rightarrow>
      connections.bounded srv \<and>
      (registered h \<longleftrightarrow> handler_id h \<in> active_connections srv) \<and>
      length (pending_requests h) \<le> MAX_PENDING_REQUESTS \<and>
      length (recv_buffer h) \<le> MAX_PENDING_REQUEST_BYTES \<and>
      (registered h \<longrightarrow> idle_timer h \<noteq> None \<and> (recv_buffer h \<noteq> [] \<longrightarrow> incomplete_timer h \<noteq> None)))"

lemma emit_sel [simp]:
  "pending_requests (emit x h) = pending_requests h" "registered (emit x h) = registered h"
  "handler_id (emit x h) = handler_id h" "recv_buffer (emit x h) = recv_buffer h"
  "idle_timer (emit x h) = idle_timer h" "incomplete_timer (emit x h) = incomplete_timer h"
  "trace (emit x h) = trace h @ [x]" "framer (emit x h) = framer h" "draining (emit x h) = draining h"
  "session_id (emit x h) = session_id h" "source_ip (emit x h) = source_ip h"
  "source_port (emit x h) = source_port h"
  by (simp_all add: emit_def)

text \<open>Closing a connection, in closed form.\<close>

lemma close_connection_eq:
  "close_connection env b (srv, h) =
    (if registered h then unregister_connection (handler_id h) srv else srv,
     h\<lparr>idle_timer := None, incomplete_timer := None, registered := False,
       trace := trace h @ [SuperClose b], recv_buffer := close_buffer env (recv_buffer h)\<rparr>)"
  by (simp add: close_connection_def unregister_def cancel_timers_def emit_def)

lemma connection_lost_eq:
  "connection_lost (srv, h) =
    (if registered h then unregister_connection (handler_id h) srv else srv,
     h\<lparr>idle_timer := None, incomplete_timer := None, registered := False, trace := trace h @ [SuperLost]\<rparr>)"
  by (simp add: connection_lost_def unregister_def cancel_timers_def emit_def)

text \<open>What the code relies on in PyModbus: closing never grows the buffer, and \<open>data_received\<close>
  appends the delivery, calls back with everything buffered and drops what was used.\<close>

definition base_contract :: "('p, 'd) pymodbus_server \<Rightarrow> bool" where
  "base_contract env \<longleftrightarrow>
     (\<forall>bs. close_buffer env bs = []) \<and>
     (\<forall>cb data srv h. base_data_received env cb data (srv, h) =
        (let buffered = recv_buffer h @ data in
         case cb buffered None (srv, h\<lparr>recv_buffer := buffered\<rparr>) of
           ((srv', h'), used) \<Rightarrow> (srv', h'\<lparr>recv_buffer := drop used (recv_buffer h')\<rparr>)))"

lemma close_connection_ok:
  assumes "base_contract env" "connections.bounded srv"
    "registered h \<longleftrightarrow> handler_id h \<in> active_connections srv"
    "length (pending_requests h) \<le> MAX_PENDING_REQUESTS"
  shows "conn_ok (close_connection env b (srv, h))"
  using assms connections.remove_bounded [of srv "handler_id h"]
  by (auto simp: close_connection_eq conn_ok_def base_contract_def connections.remove_members)

section \<open>The decode loop\<close>

text \<open>Either the connection stays and only the queue, the framer and the trace move, or it was closed
  with an empty queue.\<close>

definition loop_outcome :: "('p, 'd) pymodbus_server \<Rightarrow> ('p, 'd) conn \<Rightarrow> ('p, 'd) conn \<Rightarrow> bool" where
  "loop_outcome env st st' \<longleftrightarrow>
     (case st of (srv, h) \<Rightarrow>
      (\<exists>ps d t. st' = (srv, h\<lparr>pending_requests := ps, framer := d, trace := t\<rparr>) \<and>
         (length (pending_requests h) \<le> MAX_PENDING_REQUESTS \<longrightarrow> length ps \<le> MAX_PENDING_REQUESTS)) \<or>
      (\<exists>d t. st' = close_connection env False (srv, h\<lparr>pending_requests := [], framer := d, trace := t\<rparr>)))"

lemma loop_outcome_stay:
  "st' = (srv, h\<lparr>pending_requests := ps, framer := d, trace := t\<rparr>) \<Longrightarrow>
   (length (pending_requests h) \<le> MAX_PENDING_REQUESTS \<longrightarrow> length ps \<le> MAX_PENDING_REQUESTS) \<Longrightarrow>
   loop_outcome env (srv, h) st'"
  by (auto simp: loop_outcome_def)

lemma loop_outcome_refl: "loop_outcome env (srv, h) (srv, h)"
  by (rule loop_outcome_stay [where ps = "pending_requests h" and d = "framer h" and t = "trace h"]) simp_all

lemma loop_outcome_framer: "loop_outcome env (srv, h) (srv, h\<lparr>framer := d\<rparr>)"
  by (rule loop_outcome_stay [where ps = "pending_requests h" and d = d and t = "trace h"]) simp_all

lemma loop_outcome_closed:
  "st' = close_connection env False (srv, h\<lparr>pending_requests := [], framer := d, trace := t\<rparr>) \<Longrightarrow>
   loop_outcome env (srv, h) st'"
  by (auto simp: loop_outcome_def)

lemma loop_outcome_move:
  assumes "loop_outcome env (srv, h\<lparr>pending_requests := ps, framer := d, trace := t\<rparr>) st'"
    and "length (pending_requests h) \<le> MAX_PENDING_REQUESTS \<longrightarrow> length ps \<le> MAX_PENDING_REQUESTS"
  shows "loop_outcome env (srv, h) st'"
  using assms by (fastforce simp: loop_outcome_def)

lemma handler_move_simps:
  "h\<lparr>framer := d\<rparr> = h\<lparr>pending_requests := pending_requests h, framer := d, trace := trace h\<rparr>"
  "emit x (h\<lparr>framer := d\<rparr>) = h\<lparr>pending_requests := pending_requests h, framer := d, trace := trace h @ [x]\<rparr>"
  "h\<lparr>framer := d, pending_requests := ps\<rparr> = h\<lparr>pending_requests := ps, framer := d, trace := trace h\<rparr>"
  by (simp_all add: emit_def)

lemma accept_pdu_cases:
  assumes "accept_pdu env frame pdu a (srv, h) = (st', go)"
  obtains
    (refused) "go" "st' = (srv, emit (Send (coil_refusal env pdu) (To a)) h)"
  | (full) "\<not> go" "MAX_PENDING_REQUESTS \<le> length (pending_requests h)"
      "st' = close_connection env False (srv, h\<lparr>pending_requests := []\<rparr>)"
  | (queued) "go" "length (pending_requests h) < MAX_PENDING_REQUESTS"
      "st' = (srv, h\<lparr>pending_requests := pending_requests h @ [(pdu, a)]\<rparr>)"
  using assms by (auto simp: accept_pdu_def Let_def split: if_splits)

lemma callback_loop_outcome:
  "loop_outcome env st (fst (callback_loop env addr len remaining n0 st))"
proof (induction env addr len remaining n0 st rule: callback_loop.induct)
  case (1 env addr len remaining n0 st)
  obtain srv h where st: "st = (srv, h)" by (cases st)
  obtain d res where dec: "decode_adu env remaining addr (framer h) = (d, res)" by (cases "decode_adu env remaining addr (framer h)")
  let ?h = "h\<lparr>framer := d\<rparr>"
  show ?case
  proof (cases "remaining = []")
    case True
    then show ?thesis by (subst callback_loop.simps) (simp add: st loop_outcome_refl)
  next
    case rem: False
    show ?thesis
    proof (cases res)
      case FramingError
      with rem dec show ?thesis
        by (subst callback_loop.simps)
          (auto simp: st handler_move_simps(2) intro!: loop_outcome_stay)
    next
      case DecoderError
      with rem dec show ?thesis
        by (subst callback_loop.simps)
          (auto simp: st handler_move_simps(2) intro!: loop_outcome_stay)
    next
      case (Used used opdu a)
      show ?thesis
      proof (cases "used \<le> 0")
        case True
        with rem dec Used show ?thesis
          by (subst callback_loop.simps) (simp add: st Let_def loop_outcome_framer)
      next
        case pos: False
        show ?thesis
        proof (cases opdu)
          case None
          with rem dec Used pos st have "callback_loop env addr len remaining n0 st =
              callback_loop env addr len (drop (nat used) remaining) (n0 + nat used) (srv, ?h)"
            by (subst callback_loop.simps) (simp add: Let_def)
          moreover have "loop_outcome env (srv, ?h)
              (fst (callback_loop env addr len (drop (nat used) remaining) (n0 + nat used) (srv, ?h)))"
            using 1(1) rem st dec Used pos None by simp
          ultimately show ?thesis
            unfolding st using loop_outcome_move [where ps = "pending_requests h" and d = d and t = "trace h"] by simp
        next
          case (Some pdu)
          obtain st2 go where acc: "accept_pdu env (take (nat used) remaining) pdu a (srv, ?h) = (st2, go)"
            by (cases "accept_pdu env (take (nat used) remaining) pdu a (srv, ?h)")
          have loop: "callback_loop env addr len remaining n0 st =
              (if go then callback_loop env addr len (drop (nat used) remaining) (n0 + nat used) st2
               else (st2, Inl len))"
            using rem dec Used pos st Some acc by (subst callback_loop.simps) (simp add: Let_def)
          have IH: "go \<Longrightarrow> loop_outcome env st2
              (fst (callback_loop env addr len (drop (nat used) remaining) (n0 + nat used) st2))"
            using 1(2) rem st dec Used pos Some acc by simp
          from acc show ?thesis
          proof (cases rule: accept_pdu_cases)
            case refused
            with IH have "loop_outcome env (srv, h\<lparr>pending_requests := pending_requests h, framer := d,
                trace := trace h @ [Send (coil_refusal env pdu) (To a)]\<rparr>)
              (fst (callback_loop env addr len remaining n0 st))"
              by (simp add: loop emit_def)
            then show ?thesis unfolding st by (rule loop_outcome_move) simp
          next
            case full
            then have "fst (callback_loop env addr len remaining n0 st) =
                close_connection env False (srv, h\<lparr>pending_requests := [], framer := d, trace := trace h\<rparr>)"
              by (simp add: loop handler_move_simps(3))
            then show ?thesis unfolding st by (rule loop_outcome_closed)
          next
            case queued
            with IH have "loop_outcome env (srv, h\<lparr>pending_requests := pending_requests h @ [(pdu, a)], framer := d,
                trace := trace h\<rparr>) (fst (callback_loop env addr len remaining n0 st))"
              by (simp add: loop handler_move_simps(3))
            then show ?thesis unfolding st by (rule loop_outcome_move) (use queued in simp)
          qed
        qed
      qed
    qed
  qed
qed

lemma callback_data_outcome:
  obtains ps b d t where "fst (callback_data env data a (srv, h)) =
      (srv, h\<lparr>pending_requests := ps, draining := b, framer := d, trace := t\<rparr>)"
    "length (pending_requests h) \<le> MAX_PENDING_REQUESTS \<Longrightarrow> length ps \<le> MAX_PENDING_REQUESTS"
  | b d t where "fst (callback_data env data a (srv, h)) =
      close_connection env False (srv, h\<lparr>pending_requests := [], draining := b, framer := d, trace := t\<rparr>)"
proof -
  obtain srv' h' r where run: "callback_loop env a (length data) data 0 (srv, h) = ((srv', h'), r)"
    by (cases "callback_loop env a (length data) data 0 (srv, h)") auto
  let ?b = "case r of Inl _ \<Rightarrow> draining h' | Inr _ \<Rightarrow> draining h' \<or> pending_requests h' \<noteq> []"
  have res: "fst (callback_data env data a (srv, h)) = (srv', h'\<lparr>draining := ?b\<rparr>)"
    by (cases r) (simp_all add: callback_data_def run)
  from callback_loop_outcome [of env "(srv, h)" a "length data" data 0] run
  have "loop_outcome env (srv, h) (srv', h')" by simp
  then consider (stay) ps d t where "(srv', h') = (srv, h\<lparr>pending_requests := ps, framer := d, trace := t\<rparr>)"
      "length (pending_requests h) \<le> MAX_PENDING_REQUESTS \<longrightarrow> length ps \<le> MAX_PENDING_REQUESTS"
    | (closed) d t where "(srv', h') = close_connection env False (srv, h\<lparr>pending_requests := [], framer := d, trace := t\<rparr>)"
    by (auto simp: loop_outcome_def)
  then show thesis
  proof cases
    case stay
    then show thesis using res by (intro that(1) [where ps = ps and b = ?b and d = d and t = t]) auto
  next
    case closed
    then show thesis using res by (intro that(2) [where b = ?b and d = d and t = t]) (auto simp: close_connection_eq)
  qed
qed

section \<open>Every callback keeps the invariant\<close>

lemma conn_okD:
  assumes "conn_ok (srv, h)"
  shows "connections.bounded srv" "registered h \<longleftrightarrow> handler_id h \<in> active_connections srv"
    "length (pending_requests h) \<le> MAX_PENDING_REQUESTS"
  using assms by (simp_all add: conn_ok_def)

lemma connection_lost_ok: "conn_ok (srv, h) \<Longrightarrow> conn_ok (connection_lost (srv, h))"
  using connections.remove_bounded [of srv "handler_id h"]
  by (auto simp: connection_lost_eq conn_ok_def connections.remove_members)

lemma connection_made_ok:
  assumes "conn_ok (srv, h)" "\<not> registered h" "recv_buffer h = []"
  shows "conn_ok (fst (connection_made now peer (srv, h)))"
proof (cases "note_peer peer h")
  case (Inl e)
  with assms show ?thesis by (simp add: connection_made_def)
next
  case (Inr h1)
  then have h1: "handler_id h1 = handler_id h" "registered h1 = registered h" "recv_buffer h1 = []"
    "pending_requests h1 = pending_requests h"
    using assms by (auto simp: note_peer_def bindE_eq_Inr split: option.splits list.splits)
  obtain srv' ok where r: "register_connection (handler_id h) srv = (srv', ok)" by force
  then have "connections.bounded srv'" "ok \<Longrightarrow> handler_id h \<in> active_connections srv'"
    "\<not> ok \<Longrightarrow> srv' = srv"
    using connections.add_bounded [OF conn_okD(1) [OF assms(1)], of "handler_id h"]
    by (auto simp: register_connection_def split: if_splits)
  with assms h1 r Inr show ?thesis
    by (cases ok) (auto simp: connection_made_def arm_idle_timer_def conn_ok_def)
qed

lemma data_received_ok:
  assumes "conn_ok (srv, h)" "base_contract env"
  shows "conn_ok (data_received env now data (srv, h))"
proof (cases "MAX_PENDING_REQUEST_BYTES < length (recv_buffer h) + length data")
  case True
  with close_connection_ok [OF assms(2) conn_okD [OF assms(1)]] show ?thesis
    by (simp add: data_received_def Let_def)
next
  case False
  let ?buf = "recv_buffer h @ data"
  obtain st used where cb: "callback_data env ?buf None (srv, h\<lparr>recv_buffer := ?buf\<rparr>) = (st, used)"
    by (cases "callback_data env ?buf None (srv, h\<lparr>recv_buffer := ?buf\<rparr>)")
  obtain srv' h' where st: "st = (srv', h')" by (cases st)
  have base: "base_data_received env (callback_data env) data (srv, h) =
      (srv', h'\<lparr>recv_buffer := drop used (recv_buffer h')\<rparr>)"
    using assms(2) cb st by (simp add: base_contract_def Let_def)
  have "connections.bounded srv' \<and> (registered h' \<longleftrightarrow> handler_id h' \<in> active_connections srv') \<and>
      length (pending_requests h') \<le> MAX_PENDING_REQUESTS \<and> length (recv_buffer h') \<le> MAX_PENDING_REQUEST_BYTES"
  proof (rule callback_data_outcome [of env ?buf None srv "h\<lparr>recv_buffer := ?buf\<rparr>"])
    fix ps b d t
    assume "fst (callback_data env ?buf None (srv, h\<lparr>recv_buffer := ?buf\<rparr>)) =
        (srv, h\<lparr>recv_buffer := ?buf, pending_requests := ps, draining := b, framer := d, trace := t\<rparr>)"
      and "length (pending_requests (h\<lparr>recv_buffer := ?buf\<rparr>)) \<le> MAX_PENDING_REQUESTS \<Longrightarrow>
        length ps \<le> MAX_PENDING_REQUESTS"
    with cb st False conn_okD [OF assms(1)] show ?thesis by auto
  next
    fix b d t
    assume "fst (callback_data env ?buf None (srv, h\<lparr>recv_buffer := ?buf\<rparr>)) =
        close_connection env False (srv, h\<lparr>recv_buffer := ?buf, pending_requests := [], draining := b, framer := d, trace := t\<rparr>)"
    with cb st close_connection_ok [OF assms(2) conn_okD(1) [OF assms(1)], of
        "h\<lparr>recv_buffer := ?buf, pending_requests := [], draining := b, framer := d, trace := t\<rparr>" False]
      conn_okD [OF assms(1)]
    show ?thesis by (auto simp: conn_ok_def)
  qed
  then show ?thesis
    using False base by (auto simp: data_received_def Let_def arm_idle_timer_def conn_ok_def)
qed

end
