(* ===== verification/Server_System.thy ===== *)
theory Server_System
  imports Server_Props
begin

text \<open>
  The event loop over all connections: accepts, deliveries, losses, timers, served requests and
  the passing of time interleave in any order.  Time never passes an armed deadline, which is
  the loop's promise that a due timer runs before anything later.
\<close>

section \<open>Steps of the event loop\<close>

record ('p, 'd, 'w) system =
  srv_of :: server
  conns :: "nat \<Rightarrow> ('p, 'd) handler option"
  world :: 'w
  clock :: rat

definition put_conn :: "nat \<Rightarrow> ('p, 'd) conn \<Rightarrow> ('p, 'd, 'w) system \<Rightarrow> ('p, 'd, 'w) system" where
  "put_conn i st s = s\<lparr>srv_of := fst st, conns := (conns s)(i \<mapsto> snd st)\<rparr>"

definition due_after :: "rat \<Rightarrow> ('p, 'd) handler \<Rightarrow> bool" where
  "due_after c h \<longleftrightarrow>
     (\<forall>t. idle_timer h = Some t \<longrightarrow> c \<le> t) \<and> (\<forall>t. incomplete_timer h = Some t \<longrightarrow> c \<le> t)"

inductive loop_step ::
  "('p, 'd) pymodbus_server \<Rightarrow> ('p, 'w) datastore \<Rightarrow> ('p, 'd, 'w) system \<Rightarrow> ('p, 'd, 'w) system \<Rightarrow> bool"
  for env ds where
  accepted: "conns s i = None \<Longrightarrow>
    connection_made (clock s) peer (srv_of s, new_handler i sid d) = (st, None) \<Longrightarrow>
    loop_step env ds s (put_conn i st s)"
| delivered: "conns s i = Some h \<Longrightarrow> registered h \<Longrightarrow>
    loop_step env ds s (put_conn i (data_received env (clock s) data (srv_of s, h)) s)"
| lost: "conns s i = Some h \<Longrightarrow> loop_step env ds s (put_conn i (connection_lost (srv_of s, h)) s)"
| idle_fires: "conns s i = Some h \<Longrightarrow> idle_timer h = Some t \<Longrightarrow> t \<le> clock s \<Longrightarrow>
    loop_step env ds s (put_conn i (close_idle_connection env (srv_of s, h)) s)"
| incomplete_fires: "conns s i = Some h \<Longrightarrow> incomplete_timer h = Some t \<Longrightarrow> t \<le> clock s \<Longrightarrow>
    loop_step env ds s (put_conn i (close_incomplete_request env (srv_of s, h)) s)"
| served: "conns s i = Some h \<Longrightarrow> draining h \<Longrightarrow> pending_requests h = req # reqs \<Longrightarrow>
    execute_request env ds (srv_of s) req
      ((None, world s), h\<lparr>pending_requests := reqs, draining := (reqs \<noteq> [])\<rparr>) = ((v, w), h') \<Longrightarrow>
    loop_step env ds s (put_conn i (srv_of s, h') (s\<lparr>world := w\<rparr>))"
| passes: "clock s \<le> c \<Longrightarrow> (\<And>i h. conns s i = Some h \<Longrightarrow> due_after c h) \<Longrightarrow>
    loop_step env ds s (s\<lparr>clock := c\<rparr>)"

definition fresh_system :: "server \<Rightarrow> 'w \<Rightarrow> ('p, 'd, 'w) system" where
  "fresh_system srv w = \<lparr>srv_of = srv, conns = (\<lambda>_. None), world = w, clock = 0\<rparr>"

section \<open>Callbacks stay in their own connection\<close>

definition stays_own :: "('p, 'd) conn \<Rightarrow> ('p, 'd) conn \<Rightarrow> bool" where
  "stays_own st st' \<longleftrightarrow>
     handler_id (snd st') = handler_id (snd st) \<and> own_change (handler_id (snd st)) (fst st) (fst st')"

lemma close_connection_own: "stays_own (srv, h) (close_connection env b (srv, h))"
  using own_change_unregister by (simp add: stays_own_def close_connection_eq)

lemma connection_lost_own: "stays_own (srv, h) (connection_lost (srv, h))"
  using own_change_unregister by (simp add: stays_own_def connection_lost_eq)

lemma connection_made_own: "stays_own (srv, h) (fst (connection_made now peer (srv, h)))"
proof (cases "note_peer peer h")
  case (Inl e)
  then show ?thesis by (simp add: connection_made_def stays_own_def)
next
  case (Inr h1)
  then have "handler_id h1 = handler_id h"
    by (auto simp: note_peer_def bindE_eq_Inr split: option.splits list.splits)
  moreover obtain srv' ok where "register_connection (handler_id h) srv = (srv', ok)" by force
  ultimately show ?thesis
    using Inr own_change_register [of "handler_id h" srv]
    by (cases ok) (simp_all add: connection_made_def stays_own_def arm_idle_timer_def)
qed

lemma callback_data_own: "stays_own (srv, h) (fst (callback_data env data a (srv, h)))"
  by (rule callback_data_outcome [of env data a srv h])
    (simp_all add: stays_own_def close_connection_eq own_change_unregister)

lemma data_received_own:
  assumes "base_contract env"
  shows "stays_own (srv, h) (data_received env now data (srv, h))"
proof (cases "MAX_PENDING_REQUEST_BYTES < length (recv_buffer h) + length data")
  case True
  then show ?thesis using close_connection_own by (simp add: data_received_def Let_def)
next
  case False
  let ?h = "h\<lparr>recv_buffer := recv_buffer h @ data\<rparr>"
  obtain srv' h' used where cb: "callback_data env (recv_buffer h @ data) None (srv, ?h) = ((srv', h'), used)"
    by (metis surj_pair)
  with callback_data_own [of srv ?h env "recv_buffer h @ data" None]
  have "handler_id h' = handler_id h" "own_change (handler_id h) srv srv'"
    by (simp_all add: stays_own_def)
  then show ?thesis
    using assms cb False
    by (simp add: data_received_def base_contract_def Let_def arm_idle_timer_def stays_own_def)
qed

lemma execute_request_frame [frame, simp]:
  "registered (snd (execute_request env ds srv req st)) = registered (snd st)"
  "handler_id (snd (execute_request env ds srv req st)) = handler_id (snd st)"
  "recv_buffer (snd (execute_request env ds srv req st)) = recv_buffer (snd st)"
  "idle_timer (snd (execute_request env ds srv req st)) = idle_timer (snd st)"
  "incomplete_timer (snd (execute_request env ds srv req st)) = incomplete_timer (snd st)"
  "draining (snd (execute_request env ds srv req st)) = draining (snd st)"
  by (simp_all add: execute_request_def split: prod.split sum.split option.split)

section \<open>Deadlines\<close>

definition deadlines_ok :: "rat \<Rightarrow> server \<Rightarrow> ('p, 'd) handler \<Rightarrow> bool" where
  "deadlines_ok c srv h \<longleftrightarrow> due_after c h \<and>
     (\<forall>t. idle_timer h = Some t \<longrightarrow> t \<le> c + idle_timeout_seconds srv) \<and>
     (\<forall>t. incomplete_timer h = Some t \<longrightarrow> t \<le> c + incomplete_request_timeout_seconds srv)"

definition timeouts_ok :: "server \<Rightarrow> bool" where
  "timeouts_ok srv \<longleftrightarrow> 0 < idle_timeout_seconds srv \<and> 0 < incomplete_request_timeout_seconds srv"

lemma deadlines_cleared:
  "idle_timer h = None \<Longrightarrow> incomplete_timer h = None \<Longrightarrow> deadlines_ok c srv h"
  by (simp add: deadlines_ok_def due_after_def)

lemma deadlines_own_change:
  "own_change hid srv srv' \<Longrightarrow> deadlines_ok c srv' h = deadlines_ok c srv h"
  by (simp add: deadlines_ok_def own_change_limits)

lemma data_received_deadlines:
  assumes "deadlines_ok c srv h" "timeouts_ok srv" "base_contract env"
  shows "deadlines_ok c srv (snd (data_received env c data (srv, h)))"
proof (cases "MAX_PENDING_REQUEST_BYTES < length (recv_buffer h) + length data")
  case True
  then show ?thesis
    by (simp add: data_received_def Let_def close_connection_eq deadlines_cleared)
next
  case False
  let ?h = "h\<lparr>recv_buffer := recv_buffer h @ data\<rparr>"
  obtain srv' h' used where cb: "callback_data env (recv_buffer h @ data) None (srv, ?h) = ((srv', h'), used)"
    by (metis surj_pair)
  have own: "own_change (handler_id h) srv srv'"
    using callback_data_own [of srv ?h env "recv_buffer h @ data" None] cb by (simp add: stays_own_def)
  have timer: "incomplete_timer h' = incomplete_timer h \<or> incomplete_timer h' = None"
    by (rule callback_data_outcome [of env "recv_buffer h @ data" None srv ?h])
      (use cb in \<open>auto simp: close_connection_eq\<close>)
  show ?thesis
    using assms cb False timer own_change_limits [OF own]
    by (auto simp: data_received_def base_contract_def Let_def arm_idle_timer_def deadlines_ok_def
        due_after_def timeouts_ok_def)
qed

section \<open>The invariant of the loop\<close>

definition system_ok :: "('p, 'd, 'w) system \<Rightarrow> bool" where
  "system_ok s \<longleftrightarrow>
     connections.bounded (srv_of s) \<and> timeouts_ok (srv_of s) \<and>
     active_connections (srv_of s) \<subseteq> dom (conns s) \<and>
     (\<forall>i h. conns s i = Some h \<longrightarrow>
        handler_id h = i \<and> conn_ok (srv_of s, h) \<and> deadlines_ok (clock s) (srv_of s) h)"

lemma system_okD:
  assumes "system_ok s"
  shows "connections.bounded (srv_of s)" "timeouts_ok (srv_of s)"
    "active_connections (srv_of s) \<subseteq> dom (conns s)"
    "conns s i = Some h \<Longrightarrow> handler_id h = i" "conns s i = Some h \<Longrightarrow> conn_ok (srv_of s, h)"
    "conns s i = Some h \<Longrightarrow> deadlines_ok (clock s) (srv_of s) h"
  using assms by (simp_all add: system_ok_def)

lemma conn_ok_other:
  "conn_ok (srv, h) \<Longrightarrow> handler_id h \<noteq> hid \<Longrightarrow> own_change hid srv srv' \<Longrightarrow>
   connections.bounded srv' \<Longrightarrow> conn_ok (srv', h)"
  by (simp add: conn_ok_def own_change_other)

text \<open>One connection's callback, seen from the whole loop.\<close>

lemma put_conn_ok:
  assumes ok: "system_ok s" and own: "stays_own (srv_of s, h) st" and hid: "handler_id h = i"
    and conn: "conn_ok st" and dead: "deadlines_ok (clock s) (srv_of s) (snd st)"
  shows "system_ok (put_conn i st s)"
proof -
  obtain srv' h' where st: "st = (srv', h')" by (cases st)
  note own' = own [unfolded st stays_own_def, simplified, unfolded hid]
  have act: "active_connections srv' \<subseteq> insert i (active_connections (srv_of s))"
    using own' by (auto simp: own_change_def)
  have "timeouts_ok srv'"
    using system_okD(2) [OF ok] own_change_limits [OF conjunct2 [OF own']] by (simp add: timeouts_ok_def)
  moreover have b: "connections.bounded srv'" using conn conn_okD(1) [of srv' h'] by (simp add: st)
  moreover have "conn_ok (srv', k)" if "conns s j = Some k" "j \<noteq> i" for j k
    using conn_ok_other [OF system_okD(5) [OF ok that(1)] _ _ b, of i] system_okD(4) [OF ok that(1)] that(2) own'
    by simp
  moreover have "deadlines_ok (clock s) srv' k" if "conns s j = Some k" for j k
    using system_okD(6) [OF ok that] own' deadlines_own_change by blast
  moreover have "deadlines_ok (clock s) srv' h'"
    using dead by (simp add: st deadlines_own_change [OF conjunct2 [OF own']])
  ultimately show ?thesis
    using conn act system_okD(3,4) [OF ok] own' conn_okD(1) [of srv' h']
    by (auto simp: put_conn_def system_ok_def st)
qed

lemma execute_request_ok:
  assumes "conn_ok (srv, h)" "pending_requests h = req # reqs"
    "execute_request env ds srv req (task, h\<lparr>pending_requests := reqs, draining := b\<rparr>) = (task', h')"
  shows "conn_ok (srv, h')" "handler_id h' = handler_id h"
    "idle_timer h' = idle_timer h" "incomplete_timer h' = incomplete_timer h"
proof -
  let ?run = "execute_request env ds srv req (task, h\<lparr>pending_requests := reqs, draining := b\<rparr>)"
  have h': "h' = snd ?run" by (simp add: assms(3))
  show "handler_id h' = handler_id h" "idle_timer h' = idle_timer h" "incomplete_timer h' = incomplete_timer h"
    unfolding h' by simp_all
  show "conn_ok (srv, h')"
    using assms(1,2) unfolding h' by (simp add: conn_ok_def)
qed

lemma loop_step_ok:
  assumes "loop_step env ds s s'" "base_contract env" "system_ok s"
  shows "system_ok s'"
  using assms(1)
proof cases
  case (accepted i peer sid d st)
  let ?h = "new_handler i sid d :: ('a, 'b) handler"
  have h: "\<not> registered ?h" "recv_buffer ?h = []" "handler_id ?h = i" by (simp_all add: new_handler_def)
  have i: "i \<notin> active_connections (srv_of s)" using accepted(2) system_okD(3) [OF assms(3)] by auto
  have "conn_ok (srv_of s, ?h)"
    using i system_okD(1) [OF assms(3)] by (simp add: conn_ok_def new_handler_def)
  from connection_made_ok [OF this h(1,2), of "clock s" peer] accepted(3) have conn: "conn_ok st" by simp
  have own: "stays_own (srv_of s, ?h) st"
    using connection_made_own [of "srv_of s" ?h "clock s" peer] accepted(3) by simp
  have "deadlines_ok (clock s) (srv_of s) (snd st)"
    using accepted(3) system_okD(2) [OF assms(3)]
    by (auto simp: connection_made_def note_peer_def new_handler_def register_connection_def arm_idle_timer_def
        deadlines_ok_def due_after_def timeouts_ok_def bindE_eq_Inr
        split: sum.splits option.splits list.splits if_splits)
  with accepted(1) show ?thesis using put_conn_ok [OF assms(3) own h(3) conn] by simp
next
  case (delivered i h data)
  note ok = system_okD [OF assms(3)]
  show ?thesis unfolding delivered(1)
    by (rule put_conn_ok [OF assms(3) data_received_own [OF assms(2)] ok(4) [OF delivered(2)]
          data_received_ok [OF ok(5) [OF delivered(2)] assms(2)]
          data_received_deadlines [OF ok(6) [OF delivered(2)] ok(2) assms(2)]])
next
  case (lost i h)
  note ok = system_okD [OF assms(3)]
  show ?thesis unfolding lost(1)
    by (rule put_conn_ok [OF assms(3) connection_lost_own ok(4) [OF lost(2)] connection_lost_ok [OF ok(5) [OF lost(2)]]])
      (simp add: connection_lost_eq deadlines_cleared)
next
  case (idle_fires i h t)
  note ok = system_okD [OF assms(3)]
  note c = conn_okD [OF ok(5) [OF idle_fires(2)]]
  show ?thesis unfolding idle_fires(1) close_idle_connection_def
    by (rule put_conn_ok [OF assms(3) close_connection_own ok(4) [OF idle_fires(2)] close_connection_ok [OF assms(2) c]])
      (simp add: close_connection_eq deadlines_cleared)
next
  case (incomplete_fires i h t)
  note ok = system_okD [OF assms(3)]
  note c = conn_okD [OF ok(5) [OF incomplete_fires(2)]]
  show ?thesis unfolding incomplete_fires(1) close_incomplete_request_def
    by (rule put_conn_ok [OF assms(3) close_connection_own ok(4) [OF incomplete_fires(2)] close_connection_ok [OF assms(2) c]])
      (simp add: close_connection_eq deadlines_cleared)
next
  case (served i h req reqs v w h')
  note ok = system_okD [OF assms(3)]
  note e = execute_request_ok [OF ok(5) [OF served(2)] served(4,5)]
  have ok': "system_ok (s\<lparr>world := w\<rparr>)" using assms(3) by (simp add: system_ok_def)
  have own: "stays_own (srv_of (s\<lparr>world := w\<rparr>), h) (srv_of s, h')" by (simp add: stays_own_def e(2))
  show ?thesis unfolding served(1)
    by (rule put_conn_ok [OF ok' own ok(4) [OF served(2)] e(1)])
      (use ok(6) [OF served(2)] e(3,4) in \<open>simp add: deadlines_ok_def due_after_def\<close>)
next
  case (passes c)
  note ok = system_okD [OF assms(3)]
  have "deadlines_ok c (srv_of s) h" if "conns s i = Some h" for i h
    using ok(6) [OF that] passes(2,3) that by (fastforce simp: deadlines_ok_def)
  with assms(3) show ?thesis unfolding passes(1) by (auto simp: system_ok_def)
qed

lemma reachable_ok:
  assumes "(loop_step env ds)\<^sup>*\<^sup>* s s'" "base_contract env" "system_ok s"
  shows "system_ok s'"
  using assms by (induction rule: rtranclp_induct) (auto intro: loop_step_ok)

lemma fresh_system_ok:
  assumes "server_init mx idle incomplete b ig devs = Inr srv"
  shows "system_ok (fresh_system srv w)"
proof -
  have "\<not> mx \<le> 0" "\<not> idle \<le> 0" "\<not> incomplete \<le> 0" "active_connections srv = {}"
    "idle_timeout_seconds srv = idle" "incomplete_request_timeout_seconds srv = incomplete"
    using assms by (auto simp: server_init_def check_limits_def bindE_eq_Inr split: if_splits)
  then show ?thesis
    by (simp add: system_ok_def fresh_system_def connections.bounded_def timeouts_ok_def)
qed

end
