(* ===== verification/Server_Claims.thy ===== *)
theory Server_Claims
  imports Server_System "HOL-Library.Sublist"
begin

text \<open>
  What the server promises: bounded connections, queues and buffers in every reachable state,
  deadlines that a slow client cannot push back, requests queued and answered in order with
  their own identifiers, and an answer to frames that cannot be decoded.
\<close>

section \<open>A concrete PyModbus\<close>

text \<open>Twelve-byte frames, every complete one decoded; longer deliveries are cut one by one.\<close>

definition sample_decode :: "byte list \<Rightarrow> peer_addr \<Rightarrow> unit \<Rightarrow> unit \<times> unit decoded" where
  "sample_decode bs a d = (d,
     if length bs < 12 then Used 0 None None
     else Used 12 (Some \<lparr>transaction_id = from_bytes (take 2 bs), dev_id = uint (bs ! 6),
                        function_code = uint (bs ! 7), body = ()\<rparr>) a)"

definition sample_server :: "(unit, unit) pymodbus_server" where
  "sample_server = \<lparr>decode_adu = sample_decode,
     exception_response = (\<lambda>fc code. \<lparr>transaction_id = 0, dev_id = 0, function_code = fc + 128, body = ()\<rparr>),
     close_buffer = (\<lambda>bs. []),
     base_data_received = (\<lambda>cb data (srv, h).
       let buffered = recv_buffer h @ data in
       case cb buffered None (srv, h\<lparr>recv_buffer := buffered\<rparr>) of
         ((srv', h'), used) \<Rightarrow> (srv', h'\<lparr>recv_buffer := drop used (recv_buffer h')\<rparr>))\<rparr>"

lemma sample_contract: "base_contract sample_server"
  by (simp add: base_contract_def sample_server_def Let_def)

definition plain_server :: server where
  "plain_server = \<lparr>max_active_connections = 1, idle_timeout_seconds = 120,
     incomplete_request_timeout_seconds = 5, broadcast_enable = False, ignore_missing_devices = True,
     served_devices = [7], active_connections = {}\<rparr>"

lemma plain_server_init: "server_init 1 120 5 False True [7] = Inr plain_server"
  by (simp add: server_init_def check_limits_def plain_server_def)

definition idle_datastore :: "(unit, unit) datastore" where
  "idle_datastore pdu i st = (st, Inr (Some pdu))"

section \<open>Every reachable state\<close>

text \<open>C5: In every state the event loop can reach from a fresh server, whatever clients send and
  however callbacks interleave, the registry holds exactly the open connections and never more than
  the limit, no connection queues more than 32 requests, and no buffer exceeds 1024 bytes.\<close>

theorem reachable_limits:
  assumes "server_init mx idle incomplete b ig devs = Inr srv0" "base_contract env"
    "(loop_step env ds)\<^sup>*\<^sup>* (fresh_system srv0 w) s"
  shows "active_connections (srv_of s) = {i. \<exists>h. conns s i = Some h \<and> registered h} \<and>
    card (active_connections (srv_of s)) \<le> nat (max_active_connections (srv_of s)) \<and>
    (\<forall>i h. conns s i = Some h \<longrightarrow> length (pending_requests h) \<le> 32 \<and> length (recv_buffer h) \<le> 1024)"
proof -
  have ok: "system_ok s" by (rule reachable_ok [OF assms(3,2) fresh_system_ok [OF assms(1)]])
  have "active_connections (srv_of s) = {i. \<exists>h. conns s i = Some h \<and> registered h}"
    using system_okD(3-5) [OF ok] conn_okD(2) by (fastforce simp: dom_def)
  moreover have "card (active_connections (srv_of s)) \<le> nat (max_active_connections (srv_of s))"
    using system_okD(1) [OF ok] by (simp add: connections.bounded_def)
  moreover have "length (pending_requests h) \<le> 32 \<and> length (recv_buffer h) \<le> 1024" if "conns s i = Some h" for i h
    using system_okD(5) [OF ok that] by (simp add: conn_ok_def MAX_PENDING_REQUESTS_def MAX_PENDING_REQUEST_BYTES_def)
  ultimately show ?thesis by blast
qed

text \<open>One step of the sample server: a client connects.\<close>

lemma sample_accept:
  "(loop_step sample_server idle_datastore)\<^sup>*\<^sup>* (fresh_system plain_server ())
     (put_conn 4 (fst (connection_made 0 None (plain_server, new_handler 4 ''s'' ()))) (fresh_system plain_server ()))"
  by (rule r_into_rtranclp [of "loop_step sample_server idle_datastore"], rule loop_step.accepted [where i = 4 and peer = None and sid = "''s''" and d = "()"])
    (simp_all add: fresh_system_def connection_made_def note_peer_def new_handler_def register_connection_def
      plain_server_def)

theorem reachable_limits_witness:
  "active_connections (srv_of (put_conn 4 (fst (connection_made 0 None (plain_server, new_handler 4 ''s'' ())))
     (fresh_system plain_server () :: (unit, unit, unit) system))) =
   {i. \<exists>h. conns (put_conn 4 (fst (connection_made 0 None (plain_server, new_handler 4 ''s'' ())))
     (fresh_system plain_server () :: (unit, unit, unit) system)) i = Some h \<and> registered h}"
  using reachable_limits [OF plain_server_init sample_contract sample_accept] by blast

text \<open>C23: In every reachable state an open connection has an idle deadline that has not passed and is
  at most the idle timeout away; if it holds bytes of an incomplete request, it also has such a
  deadline for completing it.  No connection can stay open silently or half-sent for ever.\<close>

theorem reachable_deadlines:
  assumes "server_init mx idle incomplete b ig devs = Inr srv0" "base_contract env"
    "(loop_step env ds)\<^sup>*\<^sup>* (fresh_system srv0 w) s" "conns s i = Some h" "registered h"
  shows "(\<exists>t. idle_timer h = Some t \<and> clock s \<le> t \<and> t \<le> clock s + idle_timeout_seconds (srv_of s)) \<and>
    (recv_buffer h \<noteq> [] \<longrightarrow>
      (\<exists>t. incomplete_timer h = Some t \<and> clock s \<le> t \<and>
           t \<le> clock s + incomplete_request_timeout_seconds (srv_of s)))"
proof -
  have ok: "system_ok s" by (rule reachable_ok [OF assms(3,2) fresh_system_ok [OF assms(1)]])
  note dead = system_okD(6) [OF ok assms(4)] and conn = system_okD(5) [OF ok assms(4)]
  show ?thesis
    using dead conn assms(5) by (auto simp: conn_ok_def deadlines_ok_def due_after_def)
qed

theorem reachable_deadlines_witness:
  "\<exists>t. idle_timer (snd (fst (connection_made 0 None (plain_server, new_handler 4 ''s'' () :: (unit, unit) handler)))) =
     Some t \<and> 0 \<le> t \<and> t \<le> 120"
  using reachable_deadlines [OF plain_server_init sample_contract sample_accept, of 4
      "snd (fst (connection_made 0 None (plain_server, new_handler 4 ''s'' () :: (unit, unit) handler)))"]
  by (simp add: put_conn_def fresh_system_def connection_made_def note_peer_def new_handler_def
      register_connection_def plain_server_def arm_idle_timer_def emit_def)

section \<open>Slow and oversized input\<close>

text \<open>The deadline of an incomplete request is absolute: as long as the connection stays open with
  an incomplete request, further bytes never move it, so a client trickling bytes is closed no later
  than one that stops.\<close>

theorem incomplete_deadline_is_absolute:
  assumes "base_contract env" "incomplete_timer h = Some t" "registered h"
    "registered (snd (data_received env now data (srv, h)))"
    "recv_buffer (snd (data_received env now data (srv, h))) \<noteq> []"
  shows "incomplete_timer (snd (data_received env now data (srv, h))) = Some t"
proof -
  have small: "\<not> MAX_PENDING_REQUEST_BYTES < length (recv_buffer h) + length data"
    using assms(4) by (auto simp: data_received_def Let_def close_connection_eq)
  let ?h = "h\<lparr>recv_buffer := recv_buffer h @ data\<rparr>"
  obtain srv' h' used where cb: "callback_data env (recv_buffer h @ data) None (srv, ?h) = ((srv', h'), used)"
    by (metis surj_pair)
  have reg: "registered h'" and buf: "drop used (recv_buffer h') \<noteq> []"
    using assms(1,4,5) small cb
    by (auto simp: data_received_def base_contract_def Let_def arm_idle_timer_def split: if_splits)
  have "incomplete_timer h' = Some t"
    by (rule callback_data_outcome [of env "recv_buffer h @ data" None srv ?h])
      (use cb reg assms(2) in \<open>auto simp: close_connection_eq\<close>)
  then show ?thesis
    using assms(1) small cb buf by (simp add: data_received_def base_contract_def Let_def arm_idle_timer_def)
qed

definition trickling :: "(unit, unit) handler" where
  "trickling = (new_handler 4 ''s'' ())\<lparr>registered := True, recv_buffer := [0, 1, 0],
     idle_timer := Some 120, incomplete_timer := Some 5\<rparr>"

lemma trickle_step:
  "data_received sample_server 3 [0] (plain_server, trickling) =
     (plain_server, trickling\<lparr>recv_buffer := [0, 1, 0, 0], idle_timer := Some 123\<rparr>)"
  by (simp add: data_received_def sample_server_def trickling_def new_handler_def MAX_PENDING_REQUEST_BYTES_def
      callback_data_def callback_loop.simps sample_decode_def arm_idle_timer_def plain_server_def Let_def)

theorem incomplete_deadline_is_absolute_witness:
  "incomplete_timer (snd (data_received sample_server 3 [0] (plain_server, trickling))) = Some 5"
  by (rule incomplete_deadline_is_absolute [OF sample_contract])
    (unfold trickle_step, simp_all add: trickling_def new_handler_def)

text \<open>A delivery that would take the buffered input beyond 1024 bytes is not even decoded: the
  connection is closed at once, leaves the registry and has no timer left.\<close>

theorem oversized_input_closes:
  assumes "1024 < length (recv_buffer h) + length data" "conn_ok (srv, h)"
  shows "case data_received env now data (srv, h) of (srv', h') \<Rightarrow>
    \<not> registered h' \<and> handler_id h \<notin> active_connections srv' \<and> idle_timer h' = None \<and>
    incomplete_timer h' = None \<and> framer h' = framer h \<and> pending_requests h' = pending_requests h \<and>
    trace h' = trace h @ [SuperClose False]"
  using assms conn_okD(2) [OF assms(2)]
  by (auto simp: data_received_def MAX_PENDING_REQUEST_BYTES_def close_connection_eq unregister_connection_def)

theorem oversized_input_closes_witness:
  "\<not> registered (snd (data_received sample_server 0 (replicate 1025 0) (plain_server, new_handler 4 ''s'' ())))"
  using oversized_input_closes [of "new_handler 4 ''s'' ()" "replicate 1025 0" plain_server sample_server 0]
  by (simp add: conn_ok_def new_handler_def connections.bounded_def plain_server_def case_prod_unfold)

section \<open>Pipelined requests\<close>

text \<open>A delivery the decoder cuts into the frames \<open>fs\<close>, each carrying a PDU, before \<open>rest\<close>.\<close>

fun decodes ::
  "('p, 'd) pymodbus_server \<Rightarrow> peer_addr \<Rightarrow> byte list list \<Rightarrow> 'p ModbusPDU list \<Rightarrow> byte list \<Rightarrow> bool" where
  "decodes env a [] [] rest = True"
| "decodes env a (f # fs) (p # ps) rest =
     (f \<noteq> [] \<and>
      (\<forall>d. \<exists>d'. decode_adu env (concat (f # fs) @ rest) a d = (d', Used (int (length f)) (Some p) a)) \<and>
      decodes env a fs ps rest)"
| "decodes env a _ _ rest = False"

definition bad_coil :: "byte list \<Rightarrow> bool" where
  "bad_coil f \<longleftrightarrow> (\<exists>v. requested_coil_value f = Some v \<and> v \<noteq> COIL_ON \<and> v \<noteq> COIL_OFF)"

definition good_requests :: "byte list list \<Rightarrow> 'p ModbusPDU list \<Rightarrow> 'p ModbusPDU list" where
  "good_requests fs ps = map snd [(f, p) \<leftarrow> zip fs ps. \<not> bad_coil f]"

definition bad_requests :: "byte list list \<Rightarrow> 'p ModbusPDU list \<Rightarrow> 'p ModbusPDU list" where
  "bad_requests fs ps = map snd [(f, p) \<leftarrow> zip fs ps. bad_coil f]"

lemma accept_pdu_eq:
  "accept_pdu env f p a (srv, h) =
    (if bad_coil f then ((srv, emit (Send (coil_refusal env p) (To a)) h), True)
     else if MAX_PENDING_REQUESTS \<le> length (pending_requests h)
     then (close_connection env False (srv, h\<lparr>pending_requests := []\<rparr>), False)
     else ((srv, h\<lparr>pending_requests := pending_requests h @ [(p, a)]\<rparr>), True))"
  by (simp add: accept_pdu_def bad_coil_def Let_def split: option.split)

lemma callback_loop_decodes:
  assumes "decodes env a fs ps rest"
    "length (pending_requests h) + length (good_requests fs ps) \<le> MAX_PENDING_REQUESTS"
  shows "\<exists>d. callback_loop env a len (concat fs @ rest) n (srv, h) =
    callback_loop env a len rest (n + length (concat fs))
     (srv, h\<lparr>framer := d, pending_requests := pending_requests h @ map (\<lambda>p. (p, a)) (good_requests fs ps),
         trace := trace h @ map (\<lambda>p. Send (coil_refusal env p) (To a)) (bad_requests fs ps)\<rparr>)"
  using assms
proof (induction env a fs ps rest arbitrary: h n rule: decodes.induct)
  case (1 env a rest)
  then show ?case
    by (auto simp: good_requests_def bad_requests_def intro!: exI [of _ "framer h"])
next
  case (2 env a f fs p ps rest)
  obtain d where d: "decode_adu env (f @ concat fs @ rest) a (framer h) = (d, Used (int (length f)) (Some p) a)"
    using 2(2) by auto
  have f: "f \<noteq> []" "decodes env a fs ps rest" using 2(2) by auto
  let ?h = "if bad_coil f then emit (Send (coil_refusal env p) (To a)) (h\<lparr>framer := d\<rparr>)
    else h\<lparr>framer := d, pending_requests := pending_requests h @ [(p, a)]\<rparr>"
  have room: "bad_coil f \<or> length (pending_requests h) < MAX_PENDING_REQUESTS"
    "length (pending_requests ?h) + length (good_requests fs ps) \<le> MAX_PENDING_REQUESTS"
    using 2(3) by (auto simp: good_requests_def split: if_splits)
  have "callback_loop env a len (concat (f # fs) @ rest) n (srv, h) =
      callback_loop env a len (concat fs @ rest) (n + length f) (srv, ?h)"
    using f d room(1) by (subst callback_loop.simps) (auto simp: accept_pdu_eq)
  moreover from 2(1) [OF f(2) room(2)] obtain e where
    "callback_loop env a len (concat fs @ rest) (n + length f) (srv, ?h) =
      callback_loop env a len rest (n + length f + length (concat fs))
     (srv, ?h\<lparr>framer := e, pending_requests := pending_requests ?h @ map (\<lambda>p. (p, a)) (good_requests fs ps),
         trace := trace ?h @ map (\<lambda>p. Send (coil_refusal env p) (To a)) (bad_requests fs ps)\<rparr>)" by blast
  ultimately show ?case
    by (intro exI [of _ e]) (simp add: good_requests_def bad_requests_def emit_def add.assoc)
qed simp_all

text \<open>The rest of a delivery that the decoder is still waiting to complete.\<close>

definition incomplete_tail :: "('p, 'd) pymodbus_server \<Rightarrow> peer_addr \<Rightarrow> byte list \<Rightarrow> bool" where
  "incomplete_tail env a rest \<longleftrightarrow>
     rest = [] \<or> (\<forall>d. \<exists>d' u q b. decode_adu env rest a d = (d', Used u q b) \<and> u \<le> 0)"

lemma callback_loop_tail:
  assumes "incomplete_tail env a rest"
  shows "\<exists>d. callback_loop env a len rest n (srv, h) = ((srv, h\<lparr>framer := d\<rparr>), Inr n)"
proof (cases "rest = []")
  case True
  then show ?thesis by (subst callback_loop.simps) (auto intro!: exI [of _ "framer h"])
next
  case False
  with assms obtain d u q b where "decode_adu env rest a (framer h) = (d, Used u q b)" "u \<le> 0"
    unfolding incomplete_tail_def by blast
  with False show ?thesis by (subst callback_loop.simps) (auto simp: Let_def)
qed

text \<open>C9: Pipelined requests of one delivery are queued completely and in order, as long as the queue
  has room; single-coil writes with an undefined value are refused on the spot, with their own
  identifiers, without holding up the others.  Exactly the complete frames are consumed, the bytes
  of an incomplete one stay for the next delivery, and a drain task is running whenever something
  is queued.\<close>

theorem pipelined_requests_in_order:
  assumes "decodes env a fs ps rest" "incomplete_tail env a rest"
    "length (pending_requests h) + length (good_requests fs ps) \<le> 32"
  shows "case callback_data env (concat fs @ rest) a (srv, h) of ((srv', h'), used) \<Rightarrow>
    srv' = srv \<and> used = length (concat fs) \<and>
    pending_requests h' = pending_requests h @ map (\<lambda>p. (p, a)) (good_requests fs ps) \<and>
    trace h' = trace h @ map (\<lambda>p. Send (coil_refusal env p) (To a)) (bad_requests fs ps) \<and>
    (draining h' \<longleftrightarrow> draining h \<or> pending_requests h' \<noteq> [])"
proof -
  let ?len = "length (concat fs @ rest)"
  let ?moved = "\<lambda>d. h\<lparr>framer := d, pending_requests := pending_requests h @ map (\<lambda>p. (p, a)) (good_requests fs ps),
         trace := trace h @ map (\<lambda>p. Send (coil_refusal env p) (To a)) (bad_requests fs ps)\<rparr>"
  obtain d where "callback_loop env a ?len (concat fs @ rest) 0 (srv, h) =
      callback_loop env a ?len rest (length (concat fs)) (srv, ?moved d)"
    using callback_loop_decodes [OF assms(1), of h ?len 0 srv] assms(3)
    by (auto simp: MAX_PENDING_REQUESTS_def)
  moreover obtain e where "callback_loop env a ?len rest (length (concat fs)) (srv, ?moved d) =
      ((srv, ?moved d\<lparr>framer := e\<rparr>), Inr (length (concat fs)))"
    using callback_loop_tail [OF assms(2)] by blast
  ultimately show ?thesis by (auto simp: callback_data_def)
qed

text \<open>A read of function 3 and a coil write of the undefined value 0x1234, both for unit 7.\<close>

definition read_frame :: "byte list" where
  "read_frame = [0, 1, 0, 0, 0, 6, 7, 3, 0, 42, 0, 1]"

definition odd_coil_frame :: "byte list" where
  "odd_coil_frame = [0, 2, 0, 0, 0, 6, 7, 5, 0, 13, 0x12, 0x34]"

definition sample_pdu :: "int \<Rightarrow> int \<Rightarrow> unit ModbusPDU" where
  "sample_pdu tid fc = \<lparr>transaction_id = tid, dev_id = 7, function_code = fc, body = ()\<rparr>"

lemma sample_decodes:
  "decodes sample_server None [read_frame, odd_coil_frame] [sample_pdu 1 3, sample_pdu 2 5] [0, 3]"
  by (simp add: sample_server_def sample_decode_def read_frame_def odd_coil_frame_def sample_pdu_def from_bytes_def)

lemma sample_bad_coils: "\<not> bad_coil read_frame" "bad_coil odd_coil_frame"
  by (simp_all add: bad_coil_def requested_coil_value_def read_frame_def odd_coil_frame_def FUNCTION_CODE_OFFSET_def
      WRITE_SINGLE_COIL_def COIL_ON_def COIL_OFF_def from_bytes_def)

lemma sample_tail: "incomplete_tail sample_server None [0, 3]"
  by (simp add: incomplete_tail_def sample_server_def sample_decode_def)

theorem pipelined_requests_in_order_witness:
  "case callback_data sample_server (read_frame @ odd_coil_frame @ [0, 3]) None (plain_server, new_handler 4 ''s'' ())
   of ((srv', h'), used) \<Rightarrow> used = 24 \<and> pending_requests h' = [(sample_pdu 1 3, None)] \<and>
     trace h' = [Send (coil_refusal sample_server (sample_pdu 2 5)) (To None)]"
  using pipelined_requests_in_order [OF sample_decodes sample_tail, of "new_handler 4 ''s'' ()" plain_server]
  by (simp add: good_requests_def bad_requests_def sample_bad_coils new_handler_def case_prod_unfold)
    (simp add: read_frame_def odd_coil_frame_def)

text \<open>C27: A frame the decoder raises on is answered, not dropped: one exception response with code
  ILLEGAL VALUE for the function the frame claims, carrying the frame's transaction and unit
  identifiers.  The rest of the delivery is discarded, the requests before it stay queued, and the
  connection stays open.\<close>

theorem undecodable_frame_answered:
  assumes "decodes env a fs ps bad" "length (pending_requests h) + length (good_requests fs ps) \<le> 32"
    "8 \<le> length bad" "\<And>d. snd (decode_adu env bad a d) = DecoderError"
  shows "case callback_data env (concat fs @ bad) a (srv, h) of ((srv', h'), used) \<Rightarrow>
    srv' = srv \<and> registered h' = registered h \<and> used = length (concat fs @ bad) \<and>
    pending_requests h' = pending_requests h @ map (\<lambda>p. (p, a)) (good_requests fs ps) \<and>
    trace h' = trace h @ map (\<lambda>p. Send (coil_refusal env p) (To a)) (bad_requests fs ps) @
      [Send ((exception_response env (uint (bad ! 7)) ILLEGAL_VALUE)
         \<lparr>transaction_id := uint (bad ! 0) * 256 + uint (bad ! 1), dev_id := uint (bad ! 6)\<rparr>) (To a)]"
proof -
  let ?len = "length (concat fs @ bad)"
  let ?moved = "\<lambda>d. h\<lparr>framer := d, pending_requests := pending_requests h @ map (\<lambda>p. (p, a)) (good_requests fs ps),
         trace := trace h @ map (\<lambda>p. Send (coil_refusal env p) (To a)) (bad_requests fs ps)\<rparr>"
  obtain d where loop: "callback_loop env a ?len (concat fs @ bad) 0 (srv, h) =
      callback_loop env a ?len bad (length (concat fs)) (srv, ?moved d)"
    using callback_loop_decodes [OF assms(1), of h ?len 0 srv] assms(2)
    by (auto simp: MAX_PENDING_REQUESTS_def)
  obtain e where e: "decode_adu env bad a d = (e, DecoderError)"
    using assms(4) [of d] by (metis surjective_pairing)
  have ids: "take 2 bad = [bad ! 0, bad ! 1]"
    using assms(3) by (cases bad; cases "tl bad") (auto simp: numeral_2_eq_2)
  have "bad \<noteq> []" using assms(3) by auto
  with e have "callback_loop env a ?len bad (length (concat fs)) (srv, ?moved d) =
      ((srv, emit (Send (undecodable_refusal env bad) (To a)) (?moved d\<lparr>framer := e\<rparr>)), Inl ?len)"
    by (subst callback_loop.simps) simp
  moreover have "undecodable_refusal env bad = (exception_response env (uint (bad ! 7)) ILLEGAL_VALUE)
         \<lparr>transaction_id := uint (bad ! 0) * 256 + uint (bad ! 1), dev_id := uint (bad ! 6)\<rparr>"
    using assms(3) ids
    by (simp add: undecodable_refusal_def FUNCTION_CODE_OFFSET_def MBAP_UNIT_OFFSET_def from_bytes_def)
  ultimately show ?thesis using loop by (simp add: callback_data_def)
qed

definition strict_server :: "(unit, unit) pymodbus_server" where
  "strict_server = sample_server\<lparr>decode_adu := (\<lambda>bs a d.
     if 7 < length bs \<and> bs ! 7 = 99 then (d, DecoderError) else sample_decode bs a d)\<rparr>"

theorem undecodable_frame_answered_witness:
  "case callback_data strict_server (read_frame @ [0, 9, 0, 0, 0, 2, 7, 99]) None (plain_server, new_handler 4 ''s'' ())
   of ((srv', h'), used) \<Rightarrow> used = 20 \<and> pending_requests h' = [(sample_pdu 1 3, None)] \<and>
     (\<exists>r. trace h' = [Send r (To None)] \<and> transaction_id r = 9 \<and> dev_id r = 7)"
proof -
  have "decodes strict_server None [read_frame] [sample_pdu 1 3] [0, 9, 0, 0, 0, 2, 7, 99]"
    by (simp add: strict_server_def sample_decode_def read_frame_def sample_pdu_def from_bytes_def)
  from undecodable_frame_answered [OF this, of "new_handler 4 ''s'' ()" plain_server] show ?thesis
    by (simp add: good_requests_def bad_requests_def sample_bad_coils new_handler_def case_prod_unfold
        strict_server_def) (simp add: read_frame_def)
qed

section \<open>Serving the queue\<close>

text \<open>C14: A request runs with its own identity and nothing else: the datastore sees the peer, the
  transaction and the session of this connection as its transport context, the context is gone
  afterwards, and the only thing sent is at most one response, which carries the request's own
  transaction and unit identifiers and goes to the request's address.  An unknown unit is silently
  ignored when the server is configured so; any other failure is answered DEVICE FAILURE.\<close>

theorem request_runs_under_its_identity:
  assumes "source_ip h = Some ip" "source_port h = Some port" "\<not> (broadcast_enable srv \<and> dev_id pdu = 0)"
    "ds pdu (dev_id pdu) (Some \<lparr>ctx_source_ip = ip, ctx_source_port = port,
       ctx_transaction_id = transaction_id pdu, ctx_session_id = session_id h\<rparr>, w) = ((v', w'), res)"
  shows "execute_request env ds srv (pdu, a) ((v, w), h) =
    ((v, w'),
     case (case res of Inr r \<Rightarrow> r
           | Inl NoSuchIdException \<Rightarrow>
               if ignore_missing_devices srv then None
               else Some (exception_response env (function_code pdu) GATEWAY_NO_RESPONSE)
           | Inl _ \<Rightarrow> Some (exception_response env (function_code pdu) DEVICE_FAILURE)) of
       None \<Rightarrow> h
     | Some r \<Rightarrow> h\<lparr>trace := trace h @
         [Send (r\<lparr>transaction_id := transaction_id pdu, dev_id := dev_id pdu\<rparr>) (To a)]\<rparr>)"
  using assms
  by (auto simp: execute_request_def request_context_def bind_transport_context_def datastore_update_def emit_def
      split: sum.split exn.split option.split if_splits)

definition peer_handler :: "(unit, unit) handler" where
  "peer_handler = (new_handler 4 ''s'' ())\<lparr>source_ip := Some ''10.0.0.9'', source_port := Some 50123,
     registered := True, pending_requests := [(sample_pdu 1 3, None), (sample_pdu 2 3, None)], draining := True\<rparr>"

theorem request_runs_under_its_identity_witness:
  "execute_request sample_server idle_datastore plain_server (sample_pdu 1 3, None) ((None, ()), peer_handler) =
     ((None, ()), peer_handler\<lparr>trace := trace peer_handler @ [Send (sample_pdu 1 3) (To None)]\<rparr>)"
  using request_runs_under_its_identity [of peer_handler "''10.0.0.9''" 50123 plain_server "sample_pdu 1 3"
      idle_datastore "()" _ _ "Inr (Some (sample_pdu 1 3))" sample_server None None]
  by (simp add: peer_handler_def plain_server_def idle_datastore_def sample_pdu_def new_handler_def)

definition answer_of :: "('p ModbusPDU \<times> peer_addr) \<times> 'p ModbusPDU \<Rightarrow> 'p out" where
  "answer_of qr = (case qr of ((pdu, a), r) \<Rightarrow>
     Send (r\<lparr>transaction_id := transaction_id pdu, dev_id := dev_id pdu\<rparr>) (To a))"

lemma execute_request_trace:
  assumes "source_ip h \<noteq> None" "source_port h \<noteq> None"
    "execute_request env ds srv req ((v, w), h) = ((v', w'), h')"
  shows "v' = v \<and> source_ip h' = source_ip h \<and> source_port h' = source_port h \<and>
    (trace h' = trace h \<or> (\<exists>r. trace h' = trace h @ [answer_of (req, r)]))"
  using assms
  by (auto simp: execute_request_def request_context_def bind_transport_context_def answer_of_def emit_def
      split: prod.splits sum.splits option.splits)

text \<open>C28: The drain task empties the queue and answers in arrival order: what it sends are responses to a
  subsequence of the queued requests, at most one each, with the identifiers and the address of the
  request it answers; afterwards no request context is left and the task has ended.\<close>

theorem drain_answers_in_order:
  assumes "source_ip h \<noteq> None" "source_port h \<noteq> None"
  shows "case drain_requests env ds srv ((v, w), h) of ((v', w'), h') \<Rightarrow>
    v' = v \<and> pending_requests h' = [] \<and> \<not> draining h' \<and>
    (\<exists>qrs. trace h' = trace h @ map answer_of qrs \<and> subseq (map fst qrs) (pending_requests h))"
  using assms
proof (induction "pending_requests h" arbitrary: h w)
  case Nil
  then show ?case by (subst drain_requests.simps) (simp split: list.split)
next
  case (Cons req reqs)
  obtain v1 w1 h1 where run: "execute_request env ds srv req ((v, w), h\<lparr>pending_requests := reqs\<rparr>) = ((v1, w1), h1)"
    by (metis surj_pair)
  from execute_request_trace [OF _ _ run] Cons.prems have e: "v1 = v" "source_ip h1 \<noteq> None" "source_port h1 \<noteq> None"
    "trace h1 = trace h \<or> (\<exists>r. trace h1 = trace h @ [answer_of (req, r)])" by auto
  have p: "reqs = pending_requests h1"
    using execute_request_pending [of env ds srv req "((v, w), h\<lparr>pending_requests := reqs\<rparr>)"] run by simp
  have step: "drain_requests env ds srv ((v, w), h) = drain_requests env ds srv ((v, w1), h1)"
    using Cons(2) run e(1) by (subst drain_requests.simps) (simp add: Cons(2) [symmetric])
  obtain w2 h2 where r: "drain_requests env ds srv ((v, w1), h1) = ((v, w2), h2)" "pending_requests h2 = []"
    "\<not> draining h2" and "\<exists>qrs. trace h2 = trace h1 @ map answer_of qrs \<and> subseq (map fst qrs) reqs"
    using Cons(1) [OF p e(2,3), of w1] p by (auto split: prod.splits)
  then obtain qrs where q: "trace h2 = trace h1 @ map answer_of qrs" "subseq (map fst qrs) reqs" by blast
  have "\<exists>qrs. trace h2 = trace h @ map answer_of qrs \<and> subseq (map fst qrs) (req # reqs)"
    using e(4)
  proof
    assume "trace h1 = trace h"
    with q show ?thesis by (auto intro!: exI [of _ qrs])
  next
    assume "\<exists>r. trace h1 = trace h @ [answer_of (req, r)]"
    then obtain x where "trace h1 = trace h @ [answer_of (req, x)]" by blast
    with q show ?thesis by (intro exI [of _ "(req, x) # qrs"]) simp
  qed
  with r step Cons(2) show ?case by simp
qed

theorem drain_answers_in_order_witness:
  "case drain_requests sample_server idle_datastore plain_server ((None, ()), peer_handler) of ((v', w'), h') \<Rightarrow>
    v' = None \<and> pending_requests h' = [] \<and> \<not> draining h'"
  using drain_answers_in_order [where h = peer_handler and env = sample_server and ds = idle_datastore and
      srv = plain_server and v = None and w = "()"]
  by (simp add: peer_handler_def case_prod_unfold)

section \<open>Admission\<close>

text \<open>A connection is admitted exactly while fewer than the limit are open, a refused one is told by
  closing its transport and leaves no timer, and every connection that ends makes room for one more.\<close>

theorem admission_follows_limit:
  assumes "finite (active_connections srv)" "int (card (active_connections srv)) \<le> max_active_connections srv"
    "\<not> registered h" "idle_timer h = None" "incomplete_timer h = None" "note_peer peer h = Inr h1"
  shows "(registered (snd (fst (connection_made now peer (srv, h)))) \<longleftrightarrow>
      int (card (active_connections srv)) < max_active_connections srv) \<and>
    (\<not> registered (snd (fst (connection_made now peer (srv, h)))) \<longrightarrow>
      fst (fst (connection_made now peer (srv, h))) = srv \<and>
      idle_timer (snd (fst (connection_made now peer (srv, h)))) = None \<and>
      trace (snd (fst (connection_made now peer (srv, h)))) = trace h @ [TransportClose]) \<and>
    (k \<in> active_connections srv \<longrightarrow>
      snd (register_connection j (unregister_connection k srv)))"
proof -
  have h1: "registered h1 = registered h" "idle_timer h1 = None" "trace h1 = trace h"
    using assms(4,6) by (auto simp: note_peer_def bindE_eq_Inr split: option.splits list.splits)
  have b: "connections.bounded srv"
    using assms(1,2) by (simp add: connections.bounded_def nat_le_iff le_nat_iff)
  show ?thesis
    using h1 assms(3,6) connections.remove_makes_room [OF b, of k j]
    by (auto simp: connection_made_def register_connection_def arm_idle_timer_def)
qed

theorem admission_follows_limit_witness:
  "registered (snd (fst (connection_made 0 None (plain_server, new_handler 4 ''s'' () :: (unit, unit) handler))))"
  using admission_follows_limit [of plain_server "new_handler 4 ''s'' () :: (unit, unit) handler" None
      "new_handler 4 ''s'' ()" 0]
  by (simp add: plain_server_def new_handler_def note_peer_def)

end
