(* ===== verification/Runtime_Log.thy ===== *)
theory Runtime_Log
  imports Telemetry PyText
begin

text \<open>
  The logging of \<open>runtime.py\<close>: the line format of \<open>configure_logging\<close>, the filter that bounds
  PyModbus's messages, and \<open>_log_event\<close>, the sink that writes one JSON event per line.  A log
  record has its arguments merged by \<open>msg % args\<close>, a parameter that is not applied when there are
  none; the time stamp of a line is a parameter.
\<close>

section \<open>The filter\<close>

definition MAX_PYMODBUS_LOG_CHARS :: nat where "MAX_PYMODBUS_LOG_CHARS = 1024"

record LogRecord =
  log_name :: string
  record_msg :: string
  record_args :: "pyval list"

definition getMessage :: "(string \<Rightarrow> pyval list \<Rightarrow> string result) \<Rightarrow> LogRecord \<Rightarrow> string result" where
  "getMessage merge r = (if record_args r = [] then Inr (record_msg r) else merge (record_msg r) (record_args r))"

text \<open>The filter returns whether the record is kept, and may rewrite the record it is given.\<close>

definition log_filter ::
  "(string \<Rightarrow> pyval list \<Rightarrow> string result) \<Rightarrow> LogRecord \<Rightarrow> (LogRecord \<times> bool) result" where
  "log_filter merge r =
     (if \<not> starts ''pymodbus'' (log_name r) then Inr (r, True)
      else bindE (getMessage merge r) (\<lambda>message.
        if MAX_PYMODBUS_LOG_CHARS < length message
        then Inr (r\<lparr>record_msg := take MAX_PYMODBUS_LOG_CHARS message @ ''...[truncated]'', record_args := []\<rparr>, True)
        else Inr (r, True)))"

section \<open>Lines and events\<close>

definition log_line :: "string \<Rightarrow> string \<Rightarrow> string \<Rightarrow> string \<Rightarrow> string" where
  "log_line asctime level name message = asctime @ '' '' @ level @ '' '' @ name @ '' '' @ message"

text \<open>The sink appends to the log; \<open>logging\<close> itself never raises out of a call.\<close>

definition log_event :: "string \<Rightarrow> ProtocolEvent \<Rightarrow> string list \<Rightarrow> string list \<times> exn option" where
  "log_event asctime event out =
     (case to_json event of
        Inl e \<Rightarrow> (out, Some e)
      | Inr payload \<Rightarrow> (out @ [log_line asctime ''INFO'' ''simpleics_pot.event'' payload], None))"

end
