(* ===== verification/Runtime.thy ===== *)
theory Runtime
  imports Runtime_Log Protocol Server_System
begin

text \<open>
  \<open>runtime.py\<close>: the checks on the parsed command line, the task that advances the process, and
  how \<open>run_server\<close> puts the process, the adapter and the server together.  The running program
  is the event loop of \<open>Server_System\<close> whose world is the adapter and PyModbus's memory, with the
  process task beside it.
\<close>

section \<open>The command line\<close>

record Namespace =
  host :: string
  port :: int
  allow_non_loopback :: bool
  log_level :: string

definition DEFAULT_HOST :: string where "DEFAULT_HOST = ''127.0.0.1''"
definition DEFAULT_PORT :: int where "DEFAULT_PORT = 1502"

text \<open>\<open>ipaddress.ip_address(host).is_loopback\<close> is a parameter: no value when \<open>host\<close> is no address.\<close>

definition is_loopback :: "(string \<Rightarrow> bool option) \<Rightarrow> string \<Rightarrow> bool" where
  "is_loopback loopback_address h =
     (if lower h = ''localhost'' then True
      else case loopback_address h of Some b \<Rightarrow> b | None \<Rightarrow> False)"

text \<open>The checks of \<open>parse_args\<close> after argparse; \<open>parser.error\<close> ends the program with its text.\<close>

definition check_args :: "(string \<Rightarrow> bool option) \<Rightarrow> Namespace \<Rightarrow> string + Namespace" where
  "check_args loopback_address parsed =
     (if \<not> (1 \<le> port parsed \<and> port parsed \<le> 65535) then Inl ''--port must be between 1 and 65535''
      else if \<not> is_loopback loopback_address (host parsed) \<and> \<not> allow_non_loopback parsed
      then Inl ''non-loopback bind requires --allow-non-loopback''
      else Inr parsed)"

section \<open>The process task\<close>

text \<open>
  The task sleeps until a wake-up time with its schedule, or it has ended with an exception.
  \<open>process_rest\<close> is the top of the loop at clock reading \<open>now\<close>, \<open>process_wake\<close> what follows the
  sleep, up to the next one.
\<close>

datatype process_task = Sleeping (wake_up: rat) (next_tick: rat) | Failed exn

definition process_rest :: "rat \<Rightarrow> rat \<Rightarrow> process_task" where
  "process_rest now next = Sleeping (now + max 0 (fl (next - now))) next"

definition process_start :: "rat \<Rightarrow> rat \<Rightarrow> process_task" where
  "process_start interval now = process_rest now (fl (now + interval))"

definition process_wake :: "rat \<Rightarrow> rat \<Rightarrow> rat \<Rightarrow> WetWellProcess \<Rightarrow> WetWellProcess \<times> process_task" where
  "process_wake interval now next p =
     (case tick (PFloat (Fin interval)) p of
        (p', Some e) \<Rightarrow> (p', Failed e)
      | (p', None) \<Rightarrow> (p', process_rest now (fl (next + interval))))"

section \<open>The running program\<close>

text \<open>
  The world of the event loop is the adapter and PyModbus's own memory.  \<open>ticks\<close> counts the
  finished rounds of the process task; no code reads it.
\<close>

record ('p, 'd, 'w, 'm) runtime =
  event_loop :: "('p, 'd, 'w ProcessProtocolAdapter \<times> 'm) system"
  model_task :: process_task
  ticks :: nat

text \<open>\<open>run_server\<close> up to \<open>serve_forever\<close>: any exception ends the start.\<close>

definition start_runtime ::
  "pyval \<Rightarrow> 'w sink \<Rightarrow> 'w \<Rightarrow> (SimDevice \<Rightarrow> 'm) \<Rightarrow> ('p, 'd, 'w, 'm) runtime result" where
  "start_runtime doc sink w memory =
     bindE (RegisterMap_init doc) (\<lambda>m.
     bindE (WetWellProcess_init m) (\<lambda>p.
     bindE (ProcessProtocolAdapter_init p None (Some sink) w) (\<lambda>adapter.
     bindE (build_device adapter) (\<lambda>device.
     bindE (server_init DEFAULT_MAX_ACTIVE_CONNECTIONS DEFAULT_IDLE_TIMEOUT_SECONDS
              DEFAULT_INCOMPLETE_REQUEST_TIMEOUT_SECONDS False True [sim_id device]) (\<lambda>srv.
     Inr \<lparr>event_loop = fresh_system srv (adapter, memory device),
          model_task = process_start 1 0, ticks = 0\<rparr>)))))"

text \<open>One turn of the event loop for the process task: it runs when its wake-up time has come.\<close>

definition process_turn :: "rat \<Rightarrow> ('p, 'd, 'w, 'm) runtime \<Rightarrow> ('p, 'd, 'w, 'm) runtime" where
  "process_turn interval s =
     (case model_task s of
        Failed _ \<Rightarrow> s
      | Sleeping wake next \<Rightarrow>
          if clock (event_loop s) < wake then s
          else case world (event_loop s) of (a, memory) \<Rightarrow>
            case process_wake interval (clock (event_loop s)) next (model a) of (p, task) \<Rightarrow>
              s\<lparr>event_loop := (event_loop s)\<lparr>world := (a\<lparr>model := p\<rparr>, memory)\<rparr>, model_task := task,
                ticks := (case task of Failed _ \<Rightarrow> ticks s | Sleeping _ _ \<Rightarrow> Suc (ticks s))\<rparr>)"

inductive runtime_step ::
  "('p, 'd) pymodbus_server \<Rightarrow> ('p, 'w ProcessProtocolAdapter \<times> 'm) datastore \<Rightarrow>
     ('p, 'd, 'w, 'm) runtime \<Rightarrow> ('p, 'd, 'w, 'm) runtime \<Rightarrow> bool"
  for env ds where
  serving: "loop_step env ds (event_loop s) y \<Longrightarrow> runtime_step env ds s (s\<lparr>event_loop := y\<rparr>)"
| simulating: "runtime_step env ds s (process_turn 1 s)"

text \<open>
  What PyModbus does with a device: it changes the adapter only by calling its \<open>action\<close>, any
  number of times, with whatever arguments it computes from the request and its memory.
\<close>

inductive device_call ::
  "'e pymodbus_scheme \<Rightarrow> RequestTransportContext option \<Rightarrow> 'w ProcessProtocolAdapter \<Rightarrow>
     'w ProcessProtocolAdapter \<Rightarrow> bool"
  for env ctx where
  "device_call env ctx a (fst (fst (action env ctx fc start addr n vs (a, regs))))"

definition drives_device ::
  "'e pymodbus_scheme \<Rightarrow> ('p, 'w ProcessProtocolAdapter \<times> 'm) datastore \<Rightarrow> bool" where
  "drives_device env ds \<longleftrightarrow>
     (\<forall>pdu i ctx a memory ctx' a' memory' r.
        ds pdu i (ctx, (a, memory)) = ((ctx', (a', memory')), r) \<longrightarrow> (device_call env ctx)\<^sup>*\<^sup>* a a')"

end
