(* ===== verification/Runtime_Props.thy ===== *)
theory Runtime_Props
  imports Runtime Protocol_Claims
begin

text \<open>
  Lemmas of the running program: whatever clients ask for, the adapter keeps fitting its map; the
  process task therefore never ends, and its schedule counts whole seconds from the start.
\<close>

section \<open>What an action keeps\<close>

lemma emit_return_frame [frame]:
  "model (fst (emit_return env ctx fs code a)) = model a"
  "adapter_map (fst (emit_return env ctx fs code a)) = adapter_map a"
  by (simp_all add: emit_return_def frame split: sum.split)

lemma write_all_keeps:
  "process_ok p \<Longrightarrow> process_ok (fst (write_all dvs p)) \<and> register_map (fst (write_all dvs p)) = register_map p"
proof (induction dvs arbitrary: p)
  case (Cons dv dvs)
  have "process_ok (fst (write_stmt dv p)) \<and> register_map (fst (write_stmt dv p)) = register_map p"
    using write_raw_ok [OF Cons.prems] write_raw_map
    by (auto simp: write_stmt_def split: prod.split sum.split) (metis fst_conv)+
  with Cons.IH [of "fst (write_stmt dv p)"] show ?case
    by (cases "write_stmt dv p"; cases "snd (write_stmt dv p)") (auto simp: write_all_def run_stmts.simps)
qed (simp add: write_all_def)

definition keeps_adapter :: "'w ProcessProtocolAdapter \<Rightarrow> 'w ProcessProtocolAdapter \<Rightarrow> bool" where
  "keeps_adapter a a' \<longleftrightarrow>
     adapter_map a' = adapter_map a \<and>
     (process_ok (model a) \<longrightarrow> process_ok (model a') \<and> register_map (model a') = register_map (model a))"

lemma keeps_adapter_refl [simp]: "keeps_adapter a a"
  by (simp add: keeps_adapter_def)

lemma keeps_adapter_emit [simp]: "keeps_adapter a (fst (emit_return env ctx fs code a))"
  by (simp add: keeps_adapter_def frame)

lemma keeps_adapter_emit_eq: "emit_return env ctx fs code a = (a', r) \<Longrightarrow> keeps_adapter a a'"
  using keeps_adapter_emit [of a env ctx fs code] by simp

lemma keeps_adapter_trans: "keeps_adapter a b \<Longrightarrow> keeps_adapter b c \<Longrightarrow> keeps_adapter a c"
  by (auto simp: keeps_adapter_def)

lemma keeps_adapter_write: "write_all dvs (model a) = (p, e) \<Longrightarrow> keeps_adapter a (a\<lparr>model := p\<rparr>)"
  using write_all_keeps [of "model a" dvs] by (simp add: keeps_adapter_def)

lemma action_commit_keeps:
  "keeps_adapter a (fst (fst (action_commit env ctx fc ar start addr snap ds rs (a, regs))))"
  by (auto simp: action_commit_def Let_def split: prod.split sum.split option.split
      intro: keeps_adapter_write keeps_adapter_trans [OF keeps_adapter_write keeps_adapter_emit_eq])

lemma action_write_keeps:
  "keeps_adapter a (fst (fst (action_write env ctx fc ar start addr vs (a, regs))))"
  by (auto simp: action_write_def Let_def action_commit_keeps split: prod.split sum.split
      intro: keeps_adapter_emit_eq)

lemma action_read_keeps: "keeps_adapter a (fst (action_read env ctx fc ar addr n snap a))"
  by (simp add: action_read_def Let_def)

lemma action_read_keeps_eq: "action_read env ctx fc ar addr n snap a = (a', r) \<Longrightarrow> keeps_adapter a a'"
  using action_read_keeps [of a env ctx fc ar addr n snap] by simp

lemma action_keeps: "keeps_adapter a (fst (fst (action env ctx fc start addr n vs (a, regs))))"
  by (auto simp: action_def action_write_keeps split: option.split prod.split sum.split
      intro: keeps_adapter_emit_eq action_read_keeps_eq)

lemma device_calls_keep: "(device_call env ctx)\<^sup>*\<^sup>* a a' \<Longrightarrow> keeps_adapter a a'"
  by (induction rule: rtranclp_induct)
    (auto elim!: device_call.cases intro: keeps_adapter_trans action_keeps)

lemma keeps_adapter_ok: "keeps_adapter a a' \<Longrightarrow> adapter_ok a \<Longrightarrow> adapter_ok a'"
  by (auto simp: keeps_adapter_def adapter_ok_def)

section \<open>The event loop keeps what the datastore keeps\<close>

definition keeps_world :: "('w \<Rightarrow> bool) \<Rightarrow> ('p, 'w) datastore \<Rightarrow> bool" where
  "keeps_world Q ds \<longleftrightarrow> (\<forall>pdu i ctx w. Q w \<longrightarrow> Q (snd (fst (ds pdu i (ctx, w)))))"

lemma keeps_worldD: "keeps_world Q ds \<Longrightarrow> Q (snd st) \<Longrightarrow> Q (snd (fst (ds pdu i st)))"
  by (cases st) (simp add: keeps_world_def)

lemma broadcast_keeps:
  "keeps_world Q ds \<Longrightarrow> Q (snd st) \<Longrightarrow> Q (snd (fst (broadcast_update ds pdu ids st)))"
proof (induction ids arbitrary: st)
  case (Cons i ids)
  have "Q (snd (fst (ds pdu i st)))" by (rule keeps_worldD [OF Cons.prems])
  with Cons.IH [OF Cons.prems(1), of "fst (ds pdu i st)"] show ?case
    by (cases "ds pdu i st"; cases "snd (ds pdu i st)") simp_all
qed simp

lemma datastore_update_keeps:
  assumes "keeps_world Q ds" "Q (snd st)"
  shows "Q (snd (fst (datastore_update env ds srv pdu st)))"
proof -
  have "Q (snd (fst (if broadcast_enable srv \<and> dev_id pdu = 0
      then broadcast_update ds pdu (device_ids (served_devices srv)) st else ds pdu (dev_id pdu) st)))"
    using broadcast_keeps [OF assms] keeps_worldD [OF assms] by simp
  then show ?thesis
    by (auto simp: datastore_update_def split: prod.split sum.split exn.split)
qed

lemma execute_request_keeps:
  assumes "keeps_world Q ds" "Q (snd task)"
  shows "Q (snd (fst (execute_request env ds srv req (task, h))))"
proof -
  obtain pdu addr where req: "req = (pdu, addr)" by (cases req)
  obtain ctx w where task: "task = (ctx, w)" by (cases task)
  let ?run = "case request_context h pdu of
      None \<Rightarrow> datastore_update env ds srv pdu task
    | Some context \<Rightarrow> bind_transport_context context (datastore_update env ds srv pdu) task"
  have "Q (snd (fst ?run))"
    using datastore_update_keeps [OF assms(1)] assms(2)
    by (auto simp: bind_transport_context_body task split: option.split)
  moreover have "fst (execute_request env ds srv req (task, h)) = fst ?run"
    by (auto simp: execute_request_def req split: prod.split sum.split option.split)
  ultimately show ?thesis by simp
qed

lemma loop_step_keeps:
  assumes "loop_step env ds s s'" "keeps_world Q ds" "Q (world s)"
  shows "Q (world s')"
  using assms(1)
proof cases
  case (served i h req reqs v w h')
  then show ?thesis
    using execute_request_keeps [OF assms(2), of "(None, world s)" env "srv_of s" req
        "h\<lparr>pending_requests := reqs, draining := (reqs \<noteq> [])\<rparr>"] assms(3)
    by (simp add: put_conn_def)
qed (use assms(3) in \<open>simp_all add: put_conn_def\<close>)

text \<open>No callback changes the limits of the server.\<close>

lemma put_conn_limit:
  "stays_own (srv_of s, h) st \<Longrightarrow> max_active_connections (srv_of (put_conn i st s)) = max_active_connections (srv_of s)"
  using own_change_limits(1) by (auto simp: put_conn_def stays_own_def)

lemma loop_step_limit:
  assumes "loop_step env ds s s'" "base_contract env"
  shows "max_active_connections (srv_of s') = max_active_connections (srv_of s)"
  using assms(1)
proof cases
  case (accepted i peer sid d st)
  let ?h = "new_handler i sid d :: ('a, 'b) handler"
  have "stays_own (srv_of s, ?h) st"
    using connection_made_own [of "srv_of s" ?h "clock s" peer] accepted(3) by simp
  from put_conn_limit [OF this] accepted(1) show ?thesis by simp
next
  case (delivered i h data)
  then show ?thesis using put_conn_limit [OF data_received_own [OF assms(2)]] by simp
next
  case (lost i h)
  then show ?thesis using put_conn_limit [OF connection_lost_own] by simp
next
  case (idle_fires i h t)
  then show ?thesis using put_conn_limit [OF close_connection_own] by (simp add: close_idle_connection_def)
next
  case (incomplete_fires i h t)
  then show ?thesis using put_conn_limit [OF close_connection_own] by (simp add: close_incomplete_request_def)
qed (simp_all add: put_conn_def)

section \<open>The process task\<close>

lemma tick_map: "process_ok s \<Longrightarrow> register_map (fst (tick v s)) = register_map s"
  by (cases "tick_seconds v") (simp_all add: tick_invalid tick_eq(1) frame)

lemma tick_seconds_one: "tick_seconds (PFloat (Fin 1)) = Inr 1"
  by (simp add: tick_seconds_def)

text \<open>The schedule: one second after the start and every second from there, until floats run out.\<close>

definition schedule :: "nat \<Rightarrow> rat" where
  "schedule n = of_int (min (int n + 1) (2 ^ 53))"

lemma schedule_next: "fl (schedule n + 1) = schedule (Suc n)"
proof (cases "int n + 1 < 2 ^ 53")
  case True
  then have "schedule n + 1 = of_int (int n + 2)" "schedule (Suc n) = of_int (int n + 2)"
    by (simp_all add: schedule_def min_def)
  moreover have "is_f64 (of_int (int n + 2))" using True by (intro is_f64_of_int) simp
  ultimately show ?thesis by (simp only: fl_exact)
next
  case False
  then have "schedule n = 2 ^ 53" "schedule (Suc n) = 2 ^ 53" by (simp_all add: schedule_def min_def)
  moreover have "fl (2 ^ 53 + 1) = 2 ^ 53" by code_simp
  ultimately show ?thesis by simp
qed

lemma schedule_late: "schedule n \<le> c \<Longrightarrow> process_rest c (schedule n) = Sleeping c (schedule n)"
  using fl_mono [of "schedule n - c" 0] by (simp add: process_rest_def max_def)

lemma schedule_step: "schedule (Suc n) \<le> schedule n + 1"
proof -
  have "min (int (Suc n) + 1) (2 ^ 53) \<le> min (int n + 1) (2 ^ 53) + 1" by simp
  then have "schedule (Suc n) \<le> of_int (min (int n + 1) (2 ^ 53) + 1)"
    unfolding schedule_def by (simp only: of_int_le_iff)
  then show ?thesis by (simp add: schedule_def)
qed

text \<open>The task oversleeps by at most a second, so that at each wake-up the next is two seconds away at most.\<close>

definition rests_well :: "rat \<Rightarrow> rat \<Rightarrow> rat \<Rightarrow> bool" where
  "rests_well now wake next \<longleftrightarrow> next - wake \<le> 1 \<and> wake \<le> now + 2"

lemma rest_rests_well:
  assumes "next - now \<le> 2"
  shows "\<exists>wake. process_rest now next = Sleeping wake next \<and> rests_well now wake next"
proof -
  have f: "is_f64 1" "is_f64 2" using is_f64_of_int [of 1] is_f64_of_int [of 2] by simp_all
  have "fl (next - now) \<le> 2" using fl_mono [OF assms] fl_exact [OF f(2)] by simp
  moreover have "next - now - max 0 (fl (next - now)) \<le> 1"
  proof (cases "1 \<le> next - now")
    case True
    then have "1 \<le> fl (next - now)" using fl_mono [of 1 "next - now"] fl_exact [OF f(1)] by simp
    with assms show ?thesis by simp
  qed simp
  ultimately show ?thesis by (auto simp: process_rest_def rests_well_def)
qed

section \<open>The invariant of the running program\<close>

definition adapter_on :: "RegisterMap \<Rightarrow> 'w ProcessProtocolAdapter \<times> 'm \<Rightarrow> bool" where
  "adapter_on m w \<longleftrightarrow> adapter_ok (fst w) \<and> adapter_map (fst w) = m"

definition runtime_ok :: "RegisterMap \<Rightarrow> int \<Rightarrow> ('p, 'd, 'w, 'm) runtime \<Rightarrow> bool" where
  "runtime_ok m mx s \<longleftrightarrow>
     system_ok (event_loop s) \<and> max_active_connections (srv_of (event_loop s)) = mx \<and>
     adapter_on m (world (event_loop s)) \<and>
     (\<exists>wake. model_task s = Sleeping wake (schedule (ticks s)) \<and>
             rests_well (clock (event_loop s)) wake (schedule (ticks s)))"

lemma rests_well_later: "rests_well c wake next \<Longrightarrow> c \<le> d \<Longrightarrow> rests_well d wake next"
  by (simp add: rests_well_def)

lemma loop_step_clock: "loop_step env ds s s' \<Longrightarrow> clock s \<le> clock s'"
  by (erule loop_step.cases) (simp_all add: put_conn_def)

lemma process_turn_due:
  assumes "adapter_ok (fst (world (event_loop s)))" "model_task s = Sleeping wake (schedule (ticks s))"
    "wake \<le> clock (event_loop s)"
  shows "process_turn 1 s = s\<lparr>event_loop := (event_loop s)\<lparr>world :=
        (fst (world (event_loop s)) \<lparr>model := tick_result 1 (model (fst (world (event_loop s))))\<rparr>,
         snd (world (event_loop s)))\<rparr>,
      model_task := process_rest (clock (event_loop s)) (schedule (Suc (ticks s))), ticks := Suc (ticks s)\<rparr>"
proof -
  note tick = tick_eq(1) [OF adapter_okD(1) [OF assms(1)] tick_seconds_one]
  show ?thesis
    using assms(2,3)
    by (simp add: process_turn_def process_wake_def tick schedule_next process_rest_def case_prod_unfold)
qed

lemma process_turn_ok:
  assumes "runtime_ok m mx s"
  shows "runtime_ok m mx (process_turn 1 s)"
proof -
  from assms obtain wake where task: "model_task s = Sleeping wake (schedule (ticks s))"
    and rest: "rests_well (clock (event_loop s)) wake (schedule (ticks s))"
    and ok: "system_ok (event_loop s)" "max_active_connections (srv_of (event_loop s)) = mx"
    and on: "adapter_ok (fst (world (event_loop s)))" "adapter_map (fst (world (event_loop s))) = m"
    by (auto simp: runtime_ok_def adapter_on_def)
  show ?thesis
  proof (cases "wake \<le> clock (event_loop s)")
    case True
    note p = adapter_okD(1) [OF on(1)]
    have "adapter_ok ((fst (world (event_loop s)))\<lparr>model := tick_result 1 (model (fst (world (event_loop s))))\<rparr>)"
      using on tick_eq [OF p tick_seconds_one] tick_map [OF p, of "PFloat (Fin 1)"]
      by (auto simp: adapter_ok_def)
    moreover have "schedule (Suc (ticks s)) - clock (event_loop s) \<le> 2"
      using True rest schedule_step [of "ticks s"] by (simp add: rests_well_def)
    ultimately show ?thesis
      using ok on rest_rests_well
      by (simp add: process_turn_due [OF on(1) task True] runtime_ok_def adapter_on_def system_ok_def)
  next
    case False
    with task assms show ?thesis by (simp add: process_turn_def)
  qed
qed

lemma runtime_step_ok:
  assumes "runtime_step env ds s s'" "base_contract env" "keeps_world (adapter_on m) ds" "runtime_ok m mx s"
  shows "runtime_ok m mx s'"
  using assms(1)
proof cases
  case (serving y)
  then show ?thesis
    using loop_step_ok [OF serving(2) assms(2)] loop_step_keeps [OF serving(2) assms(3)]
      loop_step_limit [OF serving(2) assms(2)] rests_well_later [OF _ loop_step_clock [OF serving(2)]] assms(4)
    by (auto simp: runtime_ok_def)
next
  case simulating
  then show ?thesis using process_turn_ok [OF assms(4)] by simp
qed

lemma runtime_reachable_ok:
  assumes "(runtime_step env ds)\<^sup>*\<^sup>* s s'" "base_contract env" "keeps_world (adapter_on m) ds" "runtime_ok m mx s"
  shows "runtime_ok m mx s'"
  using assms by (induction rule: rtranclp_induct) (auto intro: runtime_step_ok)

lemma drives_device_keeps: "drives_device py ds \<Longrightarrow> keeps_world (adapter_on m) ds"
  unfolding keeps_world_def
proof (intro allI impI)
  fix pdu i ctx and w :: "'c ProcessProtocolAdapter \<times> 'd"
  assume d: "drives_device py ds" and ok: "adapter_on m w"
  obtain a memory where w: "w = (a, memory)" by (cases w)
  obtain ctx' a' memory' r where run: "ds pdu i (ctx, (a, memory)) = ((ctx', (a', memory')), r)"
    by (metis surj_pair)
  with d have "(device_call py ctx)\<^sup>*\<^sup>* a a'" unfolding drives_device_def by blast
  then have "keeps_adapter a a'" by (rule device_calls_keep)
  then have "adapter_ok a'" "adapter_map a' = m"
    using ok keeps_adapter_ok [of a a'] by (simp_all add: w adapter_on_def keeps_adapter_def)
  then show "adapter_on m (snd (fst (ds pdu i (ctx, w))))" by (simp add: w run adapter_on_def)
qed

text \<open>A late task catches up: rounds that are overdue do not wait.\<close>

lemma catches_up:
  assumes "runtime_ok m mx s" "model_task s = Sleeping wake (schedule (ticks s))" "wake \<le> clock (event_loop s)"
    "clock (event_loop s) < 2 ^ 53"
  shows "\<exists>k. \<lfloor>clock (event_loop s)\<rfloor> \<le> int (ticks ((process_turn 1 ^^ k) s))"
  using assms
proof (induction "nat (\<lfloor>clock (event_loop s)\<rfloor> - int (ticks s))" arbitrary: s wake rule: less_induct)
  case less
  show ?case
  proof (cases "\<lfloor>clock (event_loop s)\<rfloor> \<le> int (ticks s)")
    case True
    then show ?thesis by (intro exI [of _ 0]) simp
  next
    case False
    have ok: "adapter_ok (fst (world (event_loop s)))" using less.prems(1) by (simp add: runtime_ok_def adapter_on_def)
    note turn = process_turn_due [OF ok less.prems(2,3)]
    let ?s = "process_turn 1 s"
    have t: "ticks ?s = Suc (ticks s)" "clock (event_loop ?s) = clock (event_loop s)"
      "model_task ?s = process_rest (clock (event_loop s)) (schedule (Suc (ticks s)))"
      by (simp_all add: turn)
    show ?thesis
    proof (cases "schedule (Suc (ticks s)) \<le> clock (event_loop s)")
      case True
      then have "\<exists>k. \<lfloor>clock (event_loop ?s)\<rfloor> \<le> int (ticks ((process_turn 1 ^^ k) ?s))"
        using less.hyps [of ?s "clock (event_loop s)"] process_turn_ok [OF less.prems(1)] False t less.prems(4)
        by (simp add: schedule_late)
      then obtain k where "\<lfloor>clock (event_loop s)\<rfloor> \<le> int (ticks ((process_turn 1 ^^ Suc k) s))"
        using t by (auto simp: funpow_swap1)
      then show ?thesis by blast
    next
      case False
      have "\<lfloor>clock (event_loop s)\<rfloor> < 2 ^ 53" using less.prems(4) by (simp add: floor_less_iff)
      with False have "\<lfloor>clock (event_loop s)\<rfloor> \<le> int (Suc (ticks s))"
        by (auto simp: schedule_def min_def not_le floor_le_iff split: if_splits)
      then show ?thesis by (intro exI [of _ 1]) (simp add: t)
    qed
  qed
qed

end
