(* ===== verification/Runtime_Claims.thy ===== *)
theory Runtime_Claims
  imports Runtime_Props Server_Claims
begin

text \<open>
  What the running program promises: it starts on the shipped manifest, simulates for as long as it
  serves, stays within its limits whatever clients do, binds beyond loopback only on request, and
  cannot be made to write long log records.
\<close>

section \<open>Starting\<close>

definition sample_identity :: "(string \<times> string) list" where
  "sample_identity = identity sample_adapter"

definition fresh_adapter :: "'w sink \<Rightarrow> 'w \<Rightarrow> 'w ProcessProtocolAdapter" where
  "fresh_adapter sink w = \<lparr>model = default_process, adapter_map = default_map, identity = sample_identity,
     event_sink = Some sink, event_factory = EventFactory_init, sink_state = w\<rparr>"

lemma fresh_adapter_init: "ProcessProtocolAdapter_init default_process None (Some sink) w = Inr (fresh_adapter sink w)"
  by (simp add: ProcessProtocolAdapter_init_def build_identity_def default_document_def fresh_adapter_def
      sample_identity_def sample_adapter_def)

lemma fresh_adapter_ok: "adapter_ok (fresh_adapter sink w)"
  by (simp add: adapter_ok_def fresh_adapter_def default_process_ok)

definition runtime_server :: server where
  "runtime_server = \<lparr>max_active_connections = 128, idle_timeout_seconds = 120,
     incomplete_request_timeout_seconds = 5, broadcast_enable = False, ignore_missing_devices = True,
     served_devices = [7], active_connections = {}\<rparr>"

lemma process_start_1: "process_start 1 0 = Sleeping 1 1"
proof -
  have "is_f64 1" using is_f64_of_int [of 1] by simp
  then show ?thesis by (simp add: process_start_def process_rest_def fl_exact)
qed

lemma default_area_sizes: "map (\<lambda>ar. length (for_area default_map ar)) AREA_ORDER = [3, 6, 7, 5]"
  by (simp add: AREA_ORDER_def for_area_def default_definitions_def)

lemma fresh_device:
  obtains device where "build_device (fresh_adapter sink w) = Inr device" "sim_id device = 7"
    "map length (sim_blocks device) = [3, 6, 7, 5]"
proof -
  have m: "adapter_map (fresh_adapter sink w) = default_map" by (simp add: fresh_adapter_def)
  note eq = build_device_eq [OF fresh_adapter_ok [of sink w], unfolded m, OF default_areas default_unit_id]
  show ?thesis
    by (rule that [OF eq]) (simp_all add: comp_def default_area_sizes)
qed

lemma start_runtime_eq:
  assumes "build_device (fresh_adapter sink w) = Inr device" "sim_id device = 7"
  shows "start_runtime default_document sink w memory =
    Inr \<lparr>event_loop = fresh_system runtime_server (fresh_adapter sink w, memory device),
         model_task = Sleeping 1 1, ticks = 0\<rparr>"
  using assms
  by (simp add: start_runtime_def fresh_adapter_init server_init_def check_limits_def runtime_server_def
      DEFAULT_MAX_ACTIVE_CONNECTIONS_def DEFAULT_IDLE_TIMEOUT_SECONDS_def process_start_1
      DEFAULT_INCOMPLETE_REQUEST_TIMEOUT_SECONDS_def default_process_init default_map_init)

lemma runtime_server_init: "server_init 128 120 5 False True [7] = Inr runtime_server"
  by (simp add: server_init_def check_limits_def runtime_server_def)

lemma start_runtime_ok:
  assumes "start_runtime default_document sink w memory = Inr s"
  shows "runtime_ok default_map 128 s"
proof -
  obtain device where d: "build_device (fresh_adapter sink w) = Inr device" "sim_id device = 7"
    by (rule fresh_device [of sink w])
  have "system_ok (fresh_system runtime_server (fresh_adapter sink w, memory device))"
    by (rule fresh_system_ok [OF runtime_server_init])
  moreover have "adapter_on default_map (fresh_adapter sink w, memory device)"
    using fresh_adapter_ok by (simp add: adapter_on_def fresh_adapter_def)
  moreover have "Inr \<lparr>event_loop = fresh_system runtime_server (fresh_adapter sink w, memory device),
      model_task = Sleeping 1 1, ticks = 0\<rparr> = (Inr s :: _ result)"
    by (rule trans [OF start_runtime_eq [OF d, symmetric] assms])
  then have "s = \<lparr>event_loop = fresh_system runtime_server (fresh_adapter sink w, memory device),
      model_task = Sleeping 1 1, ticks = 0\<rparr>" by (simp only: sum.inject)
  ultimately show ?thesis
    by (simp add: runtime_ok_def schedule_def rests_well_def) (simp add: fresh_system_def runtime_server_def)
qed

text \<open>On the shipped manifest the program starts, whatever its log sink is: it serves unit 7 and no
  other, with every area of the map, silently ignores other units, admits 128 connections, and its
  process task will wake one second after the start.\<close>

theorem runtime_starts:
  "\<exists>device. build_device (fresh_adapter sink w) = Inr device \<and> sim_id device = 7 \<and>
     map length (sim_blocks device) = [3, 6, 7, 5] \<and>
     start_runtime default_document sink w memory =
       Inr \<lparr>event_loop = fresh_system runtime_server (fresh_adapter sink w, memory device),
            model_task = Sleeping 1 1, ticks = 0\<rparr>"
proof -
  obtain device where d: "build_device (fresh_adapter sink w) = Inr device" "sim_id device = 7"
    "map length (sim_blocks device) = [3, 6, 7, 5]"
    by (rule fresh_device)
  show ?thesis by (rule exI [of _ device]) (simp only: d start_runtime_eq [OF d(1,2)] simp_thms)
qed

section \<open>A datastore for the witnesses\<close>

text \<open>Every request reads the level setpoint through the device.\<close>

definition reading_datastore :: "(unit, 'w ProcessProtocolAdapter \<times> unit) datastore" where
  "reading_datastore pdu i st = (case st of (ctx, (a, memory)) \<Rightarrow>
     ((ctx, (fst (fst (action sample_pymodbus ctx 3 42 42 1 None (a, [0]))), memory)), Inr (Some pdu)))"

lemma reading_drives: "drives_device sample_pymodbus reading_datastore"
  by (auto simp: drives_device_def reading_datastore_def intro!: r_into_rtranclp device_call.intros)

definition quiet_sink :: "ProtocolEvent list sink" where
  "quiet_sink e seen = (seen @ [e], None)"

definition started :: "(unit, unit, ProtocolEvent list, unit) runtime" where
  "started = projr (start_runtime default_document quiet_sink [] (\<lambda>_. ()))"

lemma started_eq: "start_runtime default_document quiet_sink [] (\<lambda>_. ()) = Inr started"
  "event_loop started = fresh_system runtime_server (fresh_adapter quiet_sink [], ())"
  "model_task started = Sleeping 1 1" "ticks started = 0"
proof -
  obtain device where d: "build_device (fresh_adapter quiet_sink []) = Inr device" "sim_id device = 7"
    by (rule fresh_device)
  note eq = start_runtime_eq [OF d, of "\<lambda>_. ()"]
  show "start_runtime default_document quiet_sink [] (\<lambda>_. ()) = Inr started"
    "event_loop started = fresh_system runtime_server (fresh_adapter quiet_sink [], ())"
    "model_task started = Sleeping 1 1" "ticks started = 0"
    unfolding started_def eq by simp_all
qed

text \<open>One and a half seconds later, before the process task had its turn.\<close>

definition late :: "(unit, unit, ProtocolEvent list, unit) runtime" where
  "late = started\<lparr>event_loop := (event_loop started)\<lparr>clock := 3 / 2\<rparr>\<rparr>"

lemma late_reachable: "(runtime_step sample_server reading_datastore)\<^sup>*\<^sup>* started late"
  unfolding late_def
  by (rule r_into_rtranclp [of "runtime_step sample_server reading_datastore"], rule runtime_step.serving,
      rule loop_step.passes) (simp_all add: started_eq fresh_system_def)

section \<open>The process never stops\<close>

text \<open>C3: As long as the program runs, whatever clients do and however the tasks interleave, the process
  task is alive: it never ends with an exception, its next round is scheduled a whole number of
  seconds after the start and due at most two seconds from now, and when it has fallen behind, a
  number of rounds without waiting brings the simulation to one tick for every full second.\<close>

theorem simulation_keeps_running:
  assumes "start_runtime default_document sink w memory = Inr s0"
    "base_contract env" "drives_device py ds" "(runtime_step env ds)\<^sup>*\<^sup>* s0 s"
    "clock (event_loop s) < 2 ^ 53"
  shows "\<exists>wake. model_task s = Sleeping wake (of_int (min (int (ticks s) + 1) (2 ^ 53))) \<and>
    wake \<le> clock (event_loop s) + 2 \<and>
    (wake \<le> clock (event_loop s) \<longrightarrow>
      (\<exists>k. \<lfloor>clock (event_loop s)\<rfloor> \<le> int (ticks ((process_turn 1 ^^ k) s))))"
proof -
  have ok: "runtime_ok default_map 128 s"
    by (rule runtime_reachable_ok [OF assms(4,2) drives_device_keeps [OF assms(3)] start_runtime_ok [OF assms(1)]])
  then obtain wake where task: "model_task s = Sleeping wake (schedule (ticks s))"
    and rest: "rests_well (clock (event_loop s)) wake (schedule (ticks s))" by (auto simp: runtime_ok_def)
  then show ?thesis
    using catches_up [OF ok task _ assms(5)] by (auto simp: schedule_def rests_well_def)
qed

lemma late_sel: "clock (event_loop late) = 3 / 2" "model_task late = Sleeping 1 1"
  by (simp_all add: late_def started_eq)

theorem simulation_keeps_running_witness:
  "\<exists>k. 1 \<le> ticks ((process_turn 1 ^^ k) late)"
proof -
  obtain k where "\<lfloor>3 / 2 :: rat\<rfloor> \<le> int (ticks ((process_turn 1 ^^ k) late))"
    using simulation_keeps_running [OF started_eq(1) sample_contract reading_drives late_reachable]
    by (auto simp: late_sel)
  moreover have "\<lfloor>3 / 2 :: rat\<rfloor> = 1" by (simp add: floor_eq_iff)
  ultimately show ?thesis by (intro exI [of _ k]) simp
qed

section \<open>The whole program stays sound\<close>

text \<open>C2: In every state the running program can reach, the process is within its physical ranges and
  never reports a faulted pump as running, the device still serves the map it started with, and
  the server stays within its limits of 128 connections, 32 queued requests and 1024 buffered
  bytes: the components keep each other's invariants.\<close>

theorem running_program_sound:
  assumes "start_runtime default_document sink w memory = Inr s0"
    "base_contract env" "drives_device py ds" "(runtime_step env ds)\<^sup>*\<^sup>* s0 s"
  shows "let a = fst (world (event_loop s)); p = model a in
    0 \<le> level_raw p \<and> level_raw p \<le> 10000 \<and> control_mode p \<in> {0, 1} \<and>
    \<not> (pump_fault p \<and> pump_feedback p) \<and>
    adapter_map a = default_map \<and> register_map p = default_map \<and>
    card (active_connections (srv_of (event_loop s))) \<le> 128 \<and>
    (\<forall>i h. conns (event_loop s) i = Some h \<longrightarrow> length (pending_requests h) \<le> 32 \<and> length (recv_buffer h) \<le> 1024)"
proof -
  have ok: "runtime_ok default_map 128 s"
    by (rule runtime_reachable_ok [OF assms(4,2) drives_device_keeps [OF assms(3)] start_runtime_ok [OF assms(1)]])
  then have sys: "system_ok (event_loop s)" "max_active_connections (srv_of (event_loop s)) = 128"
    and a: "adapter_ok (fst (world (event_loop s)))" "adapter_map (fst (world (event_loop s))) = default_map"
    by (simp_all add: runtime_ok_def adapter_on_def)
  have "card (active_connections (srv_of (event_loop s))) \<le> 128"
    using system_okD(1) [OF sys(1)] sys(2) by (simp add: connections.bounded_def)
  moreover have "length (pending_requests h) \<le> 32 \<and> length (recv_buffer h) \<le> 1024"
    if "conns (event_loop s) i = Some h" for i h
    using system_okD(5) [OF sys(1) that]
    by (simp add: conn_ok_def MAX_PENDING_REQUESTS_def MAX_PENDING_REQUEST_BYTES_def)
  ultimately show ?thesis
    using adapter_okD(1,2) [OF a(1)] a(2) by (auto simp: Let_def process_ok_defs)
qed

theorem running_program_sound_witness:
  "level_raw (model (fst (world (event_loop late)))) \<le> 10000"
  using running_program_sound [OF started_eq(1) sample_contract reading_drives late_reachable]
  by (simp only: Let_def)

section \<open>The command line\<close>

text \<open>Command line arguments are accepted exactly when the port is a TCP port and the host is a
  loopback name or address or the operator has acknowledged leaving loopback; they are passed on
  unchanged, so without the flag the program only ever binds to loopback.\<close>

theorem binding_acknowledged:
  "check_args loopback_address parsed = Inr used \<longleftrightarrow>
     used = parsed \<and> 1 \<le> port parsed \<and> port parsed \<le> 65535 \<and>
     (allow_non_loopback parsed \<or> lower (host parsed) = ''localhost'' \<or>
      loopback_address (host parsed) = Some True)"
  by (auto simp: check_args_def is_loopback_def split: option.splits if_splits)

section \<open>Bounded log records\<close>

text \<open>The log filter keeps every record and leaves those of other loggers alone; a record of PyModbus
  goes on with at most 1038 characters, of which the first 1024 are the original message, is
  unchanged when the message was short enough, and passes further handlers unchanged.\<close>

theorem log_records_bounded:
  assumes "log_filter merge r = Inr (r', keep)"
  shows "keep \<and> log_name r' = log_name r \<and> log_filter merge r' = Inr (r', True) \<and>
    (if starts ''pymodbus'' (log_name r)
     then \<exists>m m'. getMessage merge r = Inr m \<and> getMessage merge r' = Inr m' \<and> length m' \<le> 1038 \<and>
       take 1024 m' = take 1024 m \<and> (length m \<le> 1024 \<longrightarrow> r' = r)
     else r' = r)"
proof (cases "starts ''pymodbus'' (log_name r)")
  case False
  with assms show ?thesis by (auto simp: log_filter_def)
next
  case True
  then obtain m where m: "getMessage merge r = Inr m"
    using assms by (auto simp: log_filter_def bindE_eq_Inr)
  show ?thesis
  proof (cases "length m \<le> 1024")
    case True
    with \<open>starts ''pymodbus'' (log_name r)\<close> m assms show ?thesis
      by (auto simp: log_filter_def MAX_PYMODBUS_LOG_CHARS_def)
  next
    case False
    let ?r = "r\<lparr>record_msg := take 1024 m @ ''...[truncated]'', record_args := []\<rparr>"
    have r': "r' = ?r" "keep" using True False m assms by (auto simp: log_filter_def MAX_PYMODBUS_LOG_CHARS_def)
    have "getMessage merge ?r = Inr (take 1024 m @ ''...[truncated]'')" by (simp add: getMessage_def)
    moreover have "log_filter merge ?r = Inr (?r, True)"
      using True False by (simp add: log_filter_def getMessage_def MAX_PYMODBUS_LOG_CHARS_def)
    ultimately show ?thesis using True False m r' by simp
  qed
qed

definition long_record :: LogRecord where
  "long_record = \<lparr>log_name = ''pymodbus.logging'', record_msg = replicate 5000 CHR ''x'', record_args = []\<rparr>"

theorem log_records_bounded_witness:
  "\<exists>r' m'. log_filter (\<lambda>_ _. Inl TypeError) long_record = Inr (r', True) \<and>
     getMessage (\<lambda>_ _. Inl TypeError) r' = Inr m' \<and> length m' \<le> 1038"
proof -
  obtain r' keep where f: "log_filter (\<lambda>_ _. Inl TypeError) long_record = Inr (r', keep)"
    by (simp add: log_filter_def long_record_def getMessage_def MAX_PYMODBUS_LOG_CHARS_def)
  have "starts ''pymodbus'' (log_name long_record)" by (simp add: long_record_def)
  with log_records_bounded [OF f] f show ?thesis by auto
qed

end
