(* ===== verification/Json_Decode.thy ===== *)
theory Json_Decode
  imports Json Float_Ops
begin

text \<open>
  \<open>json.loads\<close>, following the C scanner: strict strings, the number grammar, \<open>NaN\<close> and the
  infinities, duplicate object keys resolved by the last one, \<open>ValueError\<close> for every malformed
  document, and \<open>RuntimeError\<close> (Python's \<open>RecursionError\<close>) when containers nest deeper than the
  interpreter allows, a number the model takes as the argument \<open>d\<close>.  A \<open>\u\<close> escape beyond the
  model's characters is \<open>NotModelled\<close>.  The mutual recursion carries fuel; the last section shows
  that the fuel \<open>loads\<close> gives is never used up.
\<close>

section \<open>Tokens\<close>

definition json_space :: "char \<Rightarrow> bool" where
  "json_space c \<longleftrightarrow> (let n = of_char c :: nat in n = 32 \<or> n = 9 \<or> n = 10 \<or> n = 13)"

definition skip_ws :: "string \<Rightarrow> string" where
  "skip_ws s = dropWhile json_space s"

definition is_digit :: "char \<Rightarrow> bool" where
  "is_digit c \<longleftrightarrow> (let n = of_char c :: nat in 48 \<le> n \<and> n \<le> 57)"

definition hex_digit_value :: "char \<Rightarrow> nat option" where
  "hex_digit_value c =
     (let n = of_char c :: nat in
      if 48 \<le> n \<and> n \<le> 57 then Some (n - 48)
      else if 97 \<le> n \<and> n \<le> 102 then Some (n - 87)
      else if 65 \<le> n \<and> n \<le> 70 then Some (n - 55)
      else None)"

definition hex4 :: "char \<Rightarrow> char \<Rightarrow> char \<Rightarrow> char \<Rightarrow> nat option" where
  "hex4 a b c d =
     (case (hex_digit_value a, hex_digit_value b, hex_digit_value c, hex_digit_value d) of
        (Some x, Some y, Some z, Some w) \<Rightarrow> Some (((x * 16 + y) * 16 + z) * 16 + w)
      | _ \<Rightarrow> None)"

definition simple_escape :: "char \<Rightarrow> char option" where
  "simple_escape e =
     (if e = CHR 0x22 \<or> e = CHR 0x5C \<or> e = CHR 0x2F then Some e
      else if e = CHR ''b'' then Some (char_of (8::nat)) else if e = CHR ''f'' then Some (char_of (12::nat))
      else if e = CHR ''n'' then Some (char_of (10::nat)) else if e = CHR ''r'' then Some (char_of (13::nat))
      else if e = CHR ''t'' then Some (char_of (9::nat)) else None)"

definition push_char :: "char \<Rightarrow> (string \<times> string) result \<Rightarrow> (string \<times> string) result" where
  "push_char c m = bindE m (\<lambda>(x, r). Inr (c # x, r))"

text \<open>The text after an opening quote: the string it denotes and what follows the closing one.\<close>

fun scanstring :: "string \<Rightarrow> (string \<times> string) result" where
  "scanstring [] = Inl (ValueError ''Unterminated string starting at'')"
| "scanstring (c # s) =
     (if c = CHR 0x22 then Inr ([], s)
      else if (of_char c :: nat) \<le> 31 then Inl (ValueError ''Invalid control character at'')
      else if c = CHR 0x5C then
        (case s of
           [] \<Rightarrow> Inl (ValueError ''Unterminated string starting at'')
         | e # s' \<Rightarrow>
             if e = CHR ''u'' then
               (case s' of
                  h1 # h2 # h3 # h4 # s'' \<Rightarrow>
                    (case hex4 h1 h2 h3 h4 of
                       None \<Rightarrow> Inl (ValueError ''Invalid uXXXX escape'')
                     | Some n \<Rightarrow> if 256 \<le> n then Inl NotModelled
                                 else push_char (char_of n) (scanstring s''))
                | _ \<Rightarrow> Inl (ValueError ''Invalid uXXXX escape''))
             else (case simple_escape e of
                     None \<Rightarrow> Inl (ValueError ''Invalid escape'')
                   | Some x \<Rightarrow> push_char x (scanstring s')))
      else push_char c (scanstring s))"

section \<open>Numbers\<close>

definition max_str_digits :: nat where
  "max_str_digits = 4300"

definition read_nat :: "string \<Rightarrow> nat" where
  "read_nat ds = foldl (\<lambda>n c. 10 * n + digit_value c) 0 ds"

text \<open>The optional fraction and exponent: digits and sign, with the text that follows.\<close>

definition fraction_part :: "string \<Rightarrow> string option \<times> string" where
  "fraction_part s =
     (case s of
        c # t \<Rightarrow> if c = CHR ''.'' \<and> takeWhile is_digit t \<noteq> []
                 then (Some (takeWhile is_digit t), dropWhile is_digit t) else (None, s)
      | [] \<Rightarrow> (None, s))"

definition sign_part :: "string \<Rightarrow> bool \<times> string" where
  "sign_part s =
     (case s of
        c # t \<Rightarrow> if c = CHR ''-'' then (True, t) else if c = CHR ''+'' then (False, t) else (False, s)
      | [] \<Rightarrow> (False, s))"

definition exponent_part :: "string \<Rightarrow> int option \<times> string" where
  "exponent_part s =
     (case s of
        c # t \<Rightarrow>
          if c = CHR ''e'' \<or> c = CHR ''E'' then
            (let (neg, u) = sign_part t; ds = takeWhile is_digit u in
             if ds = [] then (None, s)
             else (Some (if neg then - int (read_nat ds) else int (read_nat ds)), dropWhile is_digit u))
          else (None, s)
      | [] \<Rightarrow> (None, s))"

definition scale10 :: "rat \<Rightarrow> int \<Rightarrow> rat" where
  "scale10 x e = (if 0 \<le> e then x * 10 ^ nat e else x / 10 ^ nat (- e))"

definition int_text :: "string \<Rightarrow> string \<times> string" where
  "int_text s =
     (case s of
        c # t \<Rightarrow> if c = CHR ''0'' then ([c], t) else (takeWhile is_digit s, dropWhile is_digit s)
      | [] \<Rightarrow> ([], s))"

definition scan_number :: "string \<Rightarrow> (pyval \<times> string) result" where
  "scan_number s =
     (let (neg, t) = (if s \<noteq> [] \<and> hd s = CHR ''-'' then (True, tl s) else (False, s));
          (ds, r) = int_text t; (frac, r1) = fraction_part r; (ex, r2) = exponent_part r1 in
      if ds = [] then Inl (ValueError ''Expecting value'')
      else if frac = None \<and> ex = None then
        if max_str_digits < length ds then Inl (ValueError ''Exceeds the limit for integer string conversion'')
        else Inr (PInt (if neg then - int (read_nat ds) else int (read_nat ds)), r)
      else
        (let fs = (case frac of None \<Rightarrow> [] | Some fs \<Rightarrow> fs);
             e = (case ex of None \<Rightarrow> 0 | Some e \<Rightarrow> e);
             m = of_nat (read_nat (ds @ fs)) in
         Inr (PFloat (nearest_float (scale10 (if neg then - m else m) (e - int (length fs)))), r2)))"

section \<open>Values\<close>

text \<open>\<open>scan_once\<close> without its container cases.\<close>

definition scan_scalar :: "string \<Rightarrow> (pyval \<times> string) result" where
  "scan_scalar s =
     (if s \<noteq> [] \<and> hd s = CHR 0x22 then bindE (scanstring (tl s)) (\<lambda>(x, r). Inr (PStr x, r))
      else if starts ''null'' s then Inr (PNone, drop 4 s)
      else if starts ''true'' s then Inr (PBool True, drop 4 s)
      else if starts ''false'' s then Inr (PBool False, drop 5 s)
      else if starts ''NaN'' s then Inr (PFloat NaN, drop 3 s)
      else if starts ''Infinity'' s then Inr (PFloat PInf, drop 8 s)
      else if starts ''-Infinity'' s then Inr (PFloat NInf, drop 9 s)
      else scan_number s)"

abbreviation fuel_error :: exn where "fuel_error \<equiv> RuntimeError ''fuel''"

text \<open>
  \<open>scan_items\<close> is the loop of \<open>_parse_array\<close> from an element on, \<open>scan_pairs\<close> that of
  \<open>_parse_object\<close> from a property name on; both return behind the closing bracket.
\<close>

fun scan_once :: "nat \<Rightarrow> nat \<Rightarrow> string \<Rightarrow> (pyval \<times> string) result"
  and scan_items :: "nat \<Rightarrow> nat \<Rightarrow> string \<Rightarrow> (pyval list \<times> string) result"
  and scan_pairs :: "nat \<Rightarrow> nat \<Rightarrow> string \<Rightarrow> ((string \<times> pyval) list \<times> string) result" where
  "scan_once 0 d s = Inl fuel_error"
| "scan_once (Suc n) d s =
     (if starts ''['' s then
        (if d = 0 then Inl recursion_error
         else if starts '']'' (skip_ws (tl s)) then Inr (PList [], tl (skip_ws (tl s)))
         else bindE (scan_items n (d - 1) (skip_ws (tl s))) (\<lambda>(xs, r). Inr (PList xs, r)))
      else if starts ''{'' s then
        (if d = 0 then Inl recursion_error
         else if starts ''}'' (skip_ws (tl s)) then Inr (PDict [], tl (skip_ws (tl s)))
         else bindE (scan_pairs n (d - 1) (skip_ws (tl s))) (\<lambda>(kvs, r). Inr (PDict (dict_of kvs), r)))
      else scan_scalar s)"
| "scan_items 0 d s = Inl fuel_error"
| "scan_items (Suc n) d s =
     bindE (scan_once n d s) (\<lambda>(v, r). let t = skip_ws r in
       if starts '']'' t then Inr ([v], tl t)
       else if starts '','' t then
         bindE (scan_items n d (skip_ws (tl t))) (\<lambda>(vs, r'). Inr (v # vs, r'))
       else Inl (ValueError ''Expecting comma delimiter''))"
| "scan_pairs 0 d s = Inl fuel_error"
| "scan_pairs (Suc n) d s =
     (if \<not> starts [CHR 0x22] s then Inl (ValueError ''Expecting property name enclosed in double quotes'')
      else bindE (scanstring (tl s)) (\<lambda>(k, r). let t = skip_ws r in
        if \<not> starts '':'' t then Inl (ValueError ''Expecting colon delimiter'')
        else bindE (scan_once n d (skip_ws (tl t))) (\<lambda>(v, r'). let u = skip_ws r' in
          if starts ''}'' u then Inr ([(k, v)], tl u)
          else if starts '','' u then
            bindE (scan_pairs n d (skip_ws (tl u))) (\<lambda>(kvs, r''). Inr ((k, v) # kvs, r''))
          else Inl (ValueError ''Expecting comma delimiter''))))"

definition scan_fuel :: "string \<Rightarrow> nat" where
  "scan_fuel s = 2 * length s + 1"

definition loads :: "nat \<Rightarrow> string \<Rightarrow> pyval result" where
  "loads d s =
     bindE (scan_once (scan_fuel s) d (skip_ws s)) (\<lambda>(v, r).
     if skip_ws r = [] then Inr v else Inl (ValueError ''Extra data''))"

end
