(* ===== verification/Json_Total.thy ===== *)
theory Json_Total
  imports Json_Decode "HOL-Library.Sublist"
begin

text \<open>
  The decoder always returns: every successful scan consumes text, so the fuel of \<open>loads\<close> is
  enough, and the only errors are \<open>ValueError\<close>, the recursion limit and the unmodelled escapes.
  The recursion limit is not reached when the text opens no more containers than it allows, and no
  value nests deeper than its text opens containers.
\<close>

section \<open>Scanning consumes\<close>

named_theorems consumed "what a successful scan leaves is a proper suffix of its input"

lemma skip_ws_suffix [simp]: "suffix (skip_ws s) s"
  by (simp add: skip_ws_def suffix_dropWhile)

lemma tl_suffix: "s \<noteq> [] \<Longrightarrow> strict_suffix (tl s) s"
  by (cases s) (simp_all add: strict_suffix_def suffix_def)

lemma starts_nonempty: "starts (c # w) s \<Longrightarrow> s \<noteq> []"
  by (auto simp: starts_def)

lemma starts_drop: "starts w s \<Longrightarrow> w \<noteq> [] \<Longrightarrow> n = length w \<Longrightarrow> strict_suffix (drop n s) s"
  by (auto simp: starts_def strict_suffix_def suffix_drop) (metis append_eq_conv_conj append_self_conv2 append_take_drop_id)

lemma suffix_strict: "suffix r s \<Longrightarrow> strict_suffix s t \<Longrightarrow> strict_suffix r t"
  by (simp add: suffix_order.le_less_trans)

lemma strict_suffix_step: "strict_suffix r s \<Longrightarrow> suffix s t \<Longrightarrow> strict_suffix r t"
  by (simp add: suffix_order.less_le_trans)

declare scanstring.simps(2) [simp del]

lemma strict_suffix_Cons: "strict_suffix r s \<Longrightarrow> strict_suffix r (c # s)"
  by (rule strict_suffix_step) (auto intro: suffix_ConsI)

lemma push_char_eq_Inr: "push_char c m = Inr (x, r) \<Longrightarrow> \<exists>x'. m = Inr (x', r)"
  by (cases m) (auto simp: push_char_def)

lemma scanstring_suffix [consumed]: "scanstring s = Inr (x, r) \<Longrightarrow> strict_suffix r s"
proof (induction s arbitrary: x r rule: length_induct)
  case (1 s)
  have IH: "strict_suffix r t" if "push_char c (scanstring t) = Inr (x, r)" "length t < length s" for c t x r
    using 1(1) push_char_eq_Inr [OF that(1)] that(2) by blast
  show ?case
  proof (cases s rule: scanstring.cases)
    case 1
    with \<open>scanstring s = Inr (x, r)\<close> show ?thesis by simp
  next
    case (2 c t)
    from 1(2) have "scanstring (c # t) = Inr (x, r)" by (simp only: 2)
    then consider
      (closed) "r = t"
    | (plain) "push_char c (scanstring t) = Inr (x, r)"
    | (simple) e t' y where "t = e # t'" "push_char y (scanstring t') = Inr (x, r)"
    | (unicode) e h1 h2 h3 h4 t' y where "t = e # h1 # h2 # h3 # h4 # t'"
        "push_char y (scanstring t') = Inr (x, r)"
      unfolding scanstring.simps(2) by (auto split: if_splits list.splits option.splits)
    then show ?thesis
    proof cases
      case closed
      with 2 show ?thesis by (simp add: strict_suffix_def suffix_def)
    next
      case plain
      with 2 IH show ?thesis by (auto intro: strict_suffix_Cons)
    next
      case simple
      with 2 IH [of y t' x r] show ?thesis by (auto intro!: strict_suffix_Cons)
    next
      case unicode
      with 2 IH [of y t' x r] show ?thesis by (auto intro!: strict_suffix_Cons)
    qed
  qed
qed

lemma int_text_suffix: "int_text s = (ds, r) \<Longrightarrow> ds \<noteq> [] \<Longrightarrow> strict_suffix r s"
proof -
  assume *: "int_text s = (ds, r)" "ds \<noteq> []"
  show "strict_suffix r s"
  proof (cases "s \<noteq> [] \<and> hd s = CHR ''0''")
    case True
    with * show ?thesis by (cases s) (auto simp: int_text_def strict_suffix_def suffix_def)
  next
    case False
    with * have eq: "ds = takeWhile is_digit s" "r = dropWhile is_digit s"
      by (cases s; simp add: int_text_def split: if_splits)+
    have "r \<noteq> s" using eq *(2) by (metis append_self_conv2 takeWhile_dropWhile_id)
    then show ?thesis by (simp add: strict_suffix_def eq suffix_dropWhile)
  qed
qed

lemma fraction_part_suffix: "suffix (snd (fraction_part s)) s"
  by (cases s) (simp_all add: fraction_part_def suffix_ConsI suffix_dropWhile)

lemma sign_part_suffix: "suffix (snd (sign_part s)) s"
  by (cases s) (simp_all add: sign_part_def suffix_ConsI)

lemma exponent_part_suffix: "suffix (snd (exponent_part s)) s"
proof (cases s)
  case (Cons c t)
  obtain neg u where u: "sign_part t = (neg, u)" by (cases "sign_part t")
  with sign_part_suffix [of t] have "suffix (dropWhile is_digit u) t"
    by (auto intro: suffix_order.trans suffix_dropWhile)
  then show ?thesis by (simp add: Cons exponent_part_def u Let_def suffix_ConsI)
qed (simp add: exponent_part_def)

lemma scan_number_suffix [consumed]: "scan_number s = Inr (v, r) \<Longrightarrow> strict_suffix r s"
proof -
  assume scan: "scan_number s = Inr (v, r)"
  define t where "t = (if s \<noteq> [] \<and> hd s = CHR ''-'' then tl s else s)"
  define neg where "neg = (s \<noteq> [] \<and> hd s = CHR ''-'')"
  have nt: "(if s \<noteq> [] \<and> hd s = CHR ''-'' then (True, tl s) else (False, s)) = (neg, t)"
    by (simp add: t_def neg_def)
  have ts: "suffix t s" by (simp add: t_def suffix_tl)
  obtain ds r0 where it: "int_text t = (ds, r0)" by (cases "int_text t")
  obtain f r1 where fp: "fraction_part r0 = (f, r1)" by (cases "fraction_part r0")
  obtain e r2 where ep: "exponent_part r1 = (e, r2)" by (cases "exponent_part r1")
  have "suffix r1 r0" "suffix r2 r1"
    using fraction_part_suffix [of r0] exponent_part_suffix [of r1] by (simp_all add: fp ep)
  then have "suffix r r0" "ds \<noteq> []"
    using scan unfolding scan_number_def nt Let_def prod.case it fp ep by (auto split: if_splits)
  then show ?thesis using int_text_suffix [OF it] ts by (meson strict_suffix_step suffix_strict)
qed

lemma scan_scalar_suffix [consumed]: "scan_scalar s = Inr (v, r) \<Longrightarrow> strict_suffix r s"
  by (auto simp: scan_scalar_def bindE_eq_Inr starts_drop split: if_splits
      dest!: consumed dest: strict_suffix_step [OF _ suffix_tl])

lemma tl_skip_ws_suffix: "starts (c # w) (skip_ws s) \<Longrightarrow> strict_suffix (tl (skip_ws s)) s"
  by (rule strict_suffix_step [OF tl_suffix skip_ws_suffix]) (auto simp: starts_def)

lemma skip_tl_skip_suffix: "starts (c # w) (skip_ws s) \<Longrightarrow> strict_suffix (skip_ws (tl (skip_ws s))) s"
  by (rule suffix_strict [OF skip_ws_suffix tl_skip_ws_suffix])

lemma starts_tl_suffix: "starts (c # w) s \<Longrightarrow> strict_suffix (tl s) s"
  by (rule tl_suffix) auto

lemmas step_suffixes =
  tl_skip_ws_suffix skip_tl_skip_suffix starts_tl_suffix
  suffix_strict [OF skip_ws_suffix] suffix_order.less_trans

lemma scan_suffix:
  "scan_once n d s = Inr (v, r) \<Longrightarrow> strict_suffix r s"
  "scan_items n d s = Inr (vs, r') \<Longrightarrow> strict_suffix r' s"
  "scan_pairs n d s = Inr (kvs, r'') \<Longrightarrow> strict_suffix r'' s"
proof (induction n d s and n d s and n d s arbitrary: v r and vs r' and kvs r''
    rule: scan_once_scan_items_scan_pairs.induct)
  case (2 n d s)
  then show ?case
    by (auto simp: bindE_eq_Inr split: if_splits intro: consumed)
      (meson step_suffixes)+
next
  case (4 n d s)
  then show ?case
    by (auto simp: bindE_eq_Inr Let_def split: if_splits) (meson step_suffixes)+
next
  case (6 n d s)
  then show ?case
    by (auto simp: bindE_eq_Inr Let_def split: if_splits dest!: scanstring_suffix) (meson step_suffixes)+
qed simp_all

section \<open>The errors of the decoder\<close>

text \<open>A text with a \<open>\u\<close> escape beyond the characters of the model.\<close>

fun wide_escape :: "string \<Rightarrow> bool" where
  "wide_escape (b # u # h1 # h2 # h3 # h4 # s) =
     (b = CHR 0x5C \<and> u = CHR ''u'' \<and> (case hex4 h1 h2 h3 h4 of None \<Rightarrow> False | Some n \<Rightarrow> 256 \<le> n) \<or>
      wide_escape (u # h1 # h2 # h3 # h4 # s))"
| "wide_escape s = False"

lemma wide_escape_Cons: "wide_escape s \<Longrightarrow> wide_escape (c # s)"
  by (cases s rule: wide_escape.cases) auto

lemma wide_escape_append: "wide_escape s \<Longrightarrow> wide_escape (s @ t)"
  by (induction s rule: wide_escape.induct) auto

lemma wide_escape_sublist: "wide_escape r \<Longrightarrow> sublist r s \<Longrightarrow> wide_escape s"
proof -
  assume r: "wide_escape r" "sublist r s"
  then obtain u v where s: "s = u @ r @ v" by (auto simp: sublist_def)
  have "wide_escape (u @ r @ v)"
    by (induction u) (use r(1) in \<open>simp_all add: wide_escape_append wide_escape_Cons\<close>)
  then show ?thesis by (simp add: s)
qed

lemma wide_escape_suffix: "wide_escape r \<Longrightarrow> suffix r s \<Longrightarrow> wide_escape s"
  using wide_escape_sublist suffix_imp_sublist by blast

definition format_error :: "string \<Rightarrow> exn \<Rightarrow> bool" where
  "format_error s e \<longleftrightarrow> (\<exists>m. e = ValueError m) \<or> e = NotModelled \<and> wide_escape s"

lemma format_error_simps [simp]:
  "format_error s (ValueError m)" "format_error s NotModelled \<longleftrightarrow> wide_escape s" "\<not> format_error s (RuntimeError m)"
  by (simp_all add: format_error_def)

lemma format_error_mono: "format_error r e \<Longrightarrow> suffix r s \<Longrightarrow> format_error s e"
  by (auto simp: format_error_def dest: wide_escape_suffix)

lemma scanstring_error: "scanstring s = Inl e \<Longrightarrow> format_error s e"
proof (induction s arbitrary: e rule: length_induct)
  case (1 s)
  have IH: "format_error s e" if "push_char c (scanstring t) = Inl e" "length t < length s" "suffix t s" for c t e
  proof -
    have "scanstring t = Inl e" using that(1) by (auto simp: push_char_def bindE_eq_Inl)
    with 1(1) that(2) have "format_error t e" by blast
    then show ?thesis using that(3) by (rule format_error_mono)
  qed
  show ?case
  proof (cases s rule: scanstring.cases)
    case 1
    with \<open>scanstring s = Inl e\<close> show ?thesis by auto
  next
    case (2 c t)
    from 1(2) have "scanstring (c # t) = Inl e" by (simp only: 2)
    then consider (invalid) m where "e = ValueError m"
    | (wide) h1 h2 h3 h4 t' n where "e = NotModelled" "c = CHR 0x5C" "t = CHR ''u'' # h1 # h2 # h3 # h4 # t'"
        "hex4 h1 h2 h3 h4 = Some n" "256 \<le> n"
    | (rest) y w t' where "t = w @ t'" "push_char y (scanstring t') = Inl e"
      unfolding scanstring.simps(2)
      by (auto split: if_splits list.splits option.splits) (metis append_Nil append_Cons)+
    then show ?thesis
    proof cases
      case (rest y w t')
      then have "length t' < length s" "suffix t' s" by (auto simp: 2 suffix_def intro: exI [of _ "c # w"])
      with IH rest(2) show ?thesis by blast
    qed (simp_all add: 2)
  qed
qed

lemma scan_number_error: "scan_number s = Inl e \<Longrightarrow> format_error s e"
  by (auto simp: scan_number_def Let_def split: if_splits prod.splits)

lemma scan_scalar_error: "scan_scalar s = Inl e \<Longrightarrow> format_error s e"
  by (auto simp: scan_scalar_def bindE_eq_Inl split: if_splits
      dest!: scanstring_error dest: scan_number_error intro: format_error_mono [OF _ suffix_tl])

text \<open>How many containers a text opens, at most.\<close>

definition opens :: "string \<Rightarrow> nat" where
  "opens s = length (filter (\<lambda>c. c = CHR ''['' \<or> c = CHR ''{'') s)"

lemma opens_suffix: "suffix r s \<Longrightarrow> opens r \<le> opens s"
  by (auto simp: opens_def suffix_def)

lemma opens_sublist: "sublist r s \<Longrightarrow> opens r \<le> opens s"
  by (auto simp: opens_def sublist_def)

lemma opens_tl: "starts ''['' s \<or> starts ''{'' s \<Longrightarrow> opens s = Suc (opens (tl s))"
  by (cases s) (auto simp: starts_def opens_def)

lemma suffix_bounds: "strict_suffix r s \<Longrightarrow> length r < length s \<and> opens r \<le> opens s"
  by (auto simp: strict_suffix_def suffix_length_less dest: opens_suffix intro: suffix_length_less)

definition scan_error :: "nat \<Rightarrow> string \<Rightarrow> exn \<Rightarrow> bool" where
  "scan_error d s e \<longleftrightarrow> format_error s e \<or> e = recursion_error \<and> d < opens s"

lemma scan_error_format [intro]: "format_error s e \<Longrightarrow> scan_error d s e"
  by (simp add: scan_error_def)

lemma scan_error_mono: "scan_error d r e \<Longrightarrow> strict_suffix r s \<Longrightarrow> scan_error d s e"
  using suffix_bounds [of r s] format_error_mono [of r e s]
  by (auto simp: scan_error_def strict_suffix_def)

lemma scan_error_nested:
  "scan_error (d - 1) r e \<Longrightarrow> suffix r (tl s) \<Longrightarrow> starts ''['' s \<or> starts ''{'' s \<Longrightarrow> scan_error d s e"
  using opens_suffix [of r "tl s"] opens_tl [of s] format_error_mono [of r e s] suffix_order.trans [OF _ suffix_tl]
  by (auto simp: scan_error_def)

lemma length_skip_ws: "length (skip_ws s) \<le> length s"
  by (rule suffix_length_le) simp

lemma length_tl_starts: "starts (c # w) s \<Longrightarrow> Suc (length (tl s)) = length s"
  by (cases s) auto

lemma scan_errors:
  "2 * length s < n \<Longrightarrow> scan_once n d s = Inl e \<Longrightarrow> scan_error d s e"
  "2 * length s + 1 < n \<Longrightarrow> scan_items n d s = Inl e' \<Longrightarrow> scan_error d s e'"
  "2 * length s + 1 < n \<Longrightarrow> scan_pairs n d s = Inl e'' \<Longrightarrow> scan_error d s e''"
proof (induction n d s and n d s and n d s arbitrary: e and e' and e''
    rule: scan_once_scan_items_scan_pairs.induct)
  case (2 n d s)
  have shorter: "2 * length (skip_ws (tl s)) + 1 < n" if "starts ''['' s \<or> starts ''{'' s"
    using length_skip_ws [of "tl s"] length_tl_starts [of _ _ s] that 2(3) by fastforce
  have limit: "scan_error 0 s recursion_error" if "starts ''['' s \<or> starts ''{'' s"
    using opens_tl [OF that] by (simp add: scan_error_def)
  from 2 shorter show ?case
    by (auto simp: bindE_eq_Inl limit split: if_splits intro: scan_scalar_error
        scan_error_nested [OF _ skip_ws_suffix])
next
  case (4 n d s)
  have shorter: "strict_suffix r s \<Longrightarrow> 2 * length r + 1 < n" for r
    using 4(3) suffix_bounds [of r s] by simp
  show ?case
  proof (cases "scan_once n d s")
    case (Inl e)
    with 4 show ?thesis by auto
  next
    case (Inr vr)
    obtain v r where vr: "vr = (v, r)" by (cases vr)
    note r = scan_suffix(1) [OF Inr [unfolded vr]]
    have rest: "strict_suffix (skip_ws (tl (skip_ws r))) s" if "starts '','' (skip_ws r)"
      by (rule suffix_order.less_trans [OF skip_tl_skip_suffix [OF that] r])
    from 4(4) show ?thesis
      using 4(2) [OF Inr vr [THEN sym] refl] rest shorter
      by (auto simp: Inr vr Let_def bindE_eq_Inl split: if_splits intro: scan_error_mono)
  qed
next
  case (6 n d s)
  have shorter: "strict_suffix r s \<Longrightarrow> 2 * length r + 1 < n" for r
    using 6(3) suffix_bounds [of r s] by simp
  show ?case
  proof (cases "starts [CHR 0x22] s \<and> isOK (scanstring (tl s))")
    case False
    with 6(4) show ?thesis by (auto simp: bindE_eq_Inl isOK_iff split: if_splits
        dest!: scanstring_error intro!: scan_error_format intro: format_error_mono [OF _ suffix_tl])
  next
    case True
    then obtain k r where k: "scanstring (tl s) = Inr (k, r)" by (auto simp: isOK_iff)
    have r: "strict_suffix r s"
      using scanstring_suffix [OF k] starts_tl_suffix [of _ _ s] True by (auto intro: suffix_order.less_trans)
    show ?thesis
    proof (cases "starts '':'' (skip_ws r)")
      case False
      with 6(4) True k show ?thesis by auto
    next
      case colon: True
      let ?t = "skip_ws (tl (skip_ws r))"
      have t: "strict_suffix ?t s"
        by (rule suffix_order.less_trans [OF skip_tl_skip_suffix [OF colon] r])
      have IH1: "scan_error d ?t e" if "scan_once n d ?t = Inl e" for e
        using 6(1) [OF _ k refl refl] that colon True shorter [OF t] by simp
      show ?thesis
      proof (cases "scan_once n d ?t")
        case (Inl e)
        with 6(4) True k colon IH1 t show ?thesis by (auto intro: scan_error_mono)
      next
        case (Inr vr)
        obtain v r' where vr: "vr = (v, r')" by (cases vr)
        have r': "strict_suffix r' s"
          by (rule suffix_order.less_trans [OF scan_suffix(1) [OF Inr [unfolded vr]] t])
        have rest: "strict_suffix (skip_ws (tl (skip_ws r'))) s" if "starts '','' (skip_ws r')"
          by (rule suffix_order.less_trans [OF skip_tl_skip_suffix [OF that] r'])
        show ?thesis
          using 6(4) 6(2) [OF _ k refl refl _ Inr vr [THEN sym] refl] True k colon rest shorter
          by (auto simp: Inr vr Let_def bindE_eq_Inl split: if_splits intro: scan_error_mono)
      qed
    qed
  qed
qed simp_all

section \<open>Totality\<close>

lemma loads_error:
  assumes "loads d s = Inl e"
  shows "format_error s e \<or> e = recursion_error \<and> d < opens s"
proof -
  have "scan_error d s e"
  proof (cases "scan_once (scan_fuel s) d (skip_ws s)")
    case (Inl e')
    have "scan_error d (skip_ws s) e'"
      using length_skip_ws [of s] by (intro scan_errors(1) [OF _ Inl]) (simp add: scan_fuel_def)
    then show ?thesis
      using assms Inl opens_suffix [OF skip_ws_suffix [of s]] format_error_mono [OF _ skip_ws_suffix [of s]]
      by (auto simp: loads_def scan_error_def)
  next
    case (Inr vr)
    with assms show ?thesis by (cases vr) (auto simp: loads_def split: if_splits)
  qed
  then show ?thesis by (auto simp: scan_error_def)
qed

section \<open>How deeply the value nests\<close>

lemma set_update: "set (AList.update k v d) \<subseteq> insert (k, v) (set d)"
  by (induction d) auto

lemma set_fold_update: "set (fold (\<lambda>(k, v) d. AList.update k v d) kvs d) \<subseteq> set kvs \<union> set d"
proof (induction kvs arbitrary: d)
  case (Cons kv kvs)
  obtain k v where kv: "kv = (k, v)" by (cases kv)
  from Cons [of "AList.update k v d"] set_update [of k v d] show ?case by (auto simp: kv)
qed simp

lemma set_dict_of: "set (dict_of kvs) \<subseteq> set kvs"
  using set_fold_update [of kvs "[]"] by (simp add: dict_of_def)

lemma opens_shorter: "strict_suffix r s \<Longrightarrow> opens s \<le> k \<Longrightarrow> opens r \<le> k"
  using suffix_bounds by fastforce

lemma opens_inside: "starts ''['' s \<or> starts ''{'' s \<Longrightarrow> opens s \<le> k \<Longrightarrow> 0 < k \<and> opens (skip_ws (tl s)) \<le> k - 1"
  using opens_tl [of s] opens_suffix [OF skip_ws_suffix [of "tl s"]] by auto

lemma scan_scalar_nests: "scan_scalar s = Inr (v, r) \<Longrightarrow> nests_within k v"
  by (auto simp: scan_scalar_def scan_number_def bindE_eq_Inr Let_def split: if_splits prod.splits)

lemma scan_nests:
  "scan_once n d s = Inr (v, r) \<Longrightarrow> opens s \<le> k \<Longrightarrow> nests_within k v"
  "scan_items n d s = Inr (vs, r') \<Longrightarrow> opens s \<le> k \<Longrightarrow> list_all (nests_within k) vs"
  "scan_pairs n d s = Inr (kvs, r'') \<Longrightarrow> opens s \<le> k \<Longrightarrow> list_all (nests_within k \<circ> snd) kvs"
proof (induction n d s and n d s and n d s arbitrary: v r k and vs r' k and kvs r'' k
    rule: scan_once_scan_items_scan_pairs.induct)
  case (2 n d s)
  have dict: "list_all (nests_within j \<circ> snd) kvs \<Longrightarrow> list_all (\<lambda>(k, v). nests_within j v) (dict_of kvs)" for j kvs
    using set_dict_of [of kvs] by (fastforce simp: list_all_iff)
  from 2(3) opens_inside [of s, OF _ 2(4)] show ?case
    by (auto simp: bindE_eq_Inr split: if_splits intro: scan_scalar_nests 2(1) 2(1) [simplified] intro!: dict 2(2))
next
  case (4 n d s)
  from 4(3) obtain v r where v: "scan_once n d s = Inr (v, r)" by (auto simp: bindE_eq_Inr)
  note r = scan_suffix(1) [OF v]
  have rest: "opens (skip_ws (tl (skip_ws r))) \<le> k" if "starts '','' (skip_ws r)"
    by (rule opens_shorter [OF suffix_order.less_trans [OF skip_tl_skip_suffix [OF that] r] 4(4)])
  from 4(3) rest show ?case
    using 4(1) [OF v 4(4)] 4(2) [OF v [THEN sym, THEN sym] refl refl]
    by (auto simp: v Let_def bindE_eq_Inr split: if_splits)
next
  case (6 n d s)
  from 6(3) obtain k' r where q: "starts [CHR 0x22] s" and key: "scanstring (tl s) = Inr (k', r)"
    by (auto simp: bindE_eq_Inr split: if_splits)
  have r: "strict_suffix r s"
    using scanstring_suffix [OF key] starts_tl_suffix [OF q] by (rule suffix_order.less_trans)
  from 6(3) q key have colon: "starts '':'' (skip_ws r)" by (auto simp: Let_def split: if_splits)
  let ?t = "skip_ws (tl (skip_ws r))"
  have t: "strict_suffix ?t s" by (rule suffix_order.less_trans [OF skip_tl_skip_suffix [OF colon] r])
  from 6(3) q key colon obtain v r' where v: "scan_once n d ?t = Inr (v, r')" by (auto simp: Let_def bindE_eq_Inr)
  have r': "strict_suffix r' s" by (rule suffix_order.less_trans [OF scan_suffix(1) [OF v] t])
  have rest: "opens (skip_ws (tl (skip_ws r'))) \<le> k" if "starts '','' (skip_ws r')"
    by (rule opens_shorter [OF suffix_order.less_trans [OF skip_tl_skip_suffix [OF that] r'] 6(4)])
  have here: "nests_within k v"
    using 6(1) [OF _ key refl refl _ v opens_shorter [OF t 6(4)]] q colon by simp
  from 6(3) rest here show ?case
    using 6(2) [OF _ key refl refl _ v refl refl] q colon
    by (auto simp: key v Let_def bindE_eq_Inr split: if_splits)
qed simp_all

text \<open>Nothing that was read nests deeper than its text opens containers.\<close>

lemma loads_nests: "loads d s = Inr v \<Longrightarrow> opens s \<le> k \<Longrightarrow> nests_within k v"
  using opens_suffix [OF skip_ws_suffix [of s]]
  by (auto simp: loads_def bindE_eq_Inr split: if_splits intro: scan_nests(1))

end
