(* ===== verification/Json_Roundtrip.thy ===== *)
theory Json_Roundtrip
  imports Json_Total "HOL-Library.Multiset"
begin

text \<open>
  What \<open>json.dumps\<close> writes, \<open>json.loads\<close> reads back: the same value with every object's items
  sorted by key.
\<close>

section \<open>Strings\<close>

lemma hex_digit_value_hex_digit: "d < 16 \<Longrightarrow> hex_digit_value (hex_digit d) = Some d"
  by (simp add: hex_digit_value_def hex_digit_def)

lemma hex_digit_value_zero: "hex_digit_value CHR ''0'' = Some 0"
  by (simp add: hex_digit_value_def)

lemma hex4_code: "n < 256 \<Longrightarrow> hex4 CHR ''0'' CHR ''0'' (hex_digit (n div 16)) (hex_digit (n mod 16)) = Some n"
  by (simp add: hex4_def hex_digit_value_hex_digit hex_digit_value_zero less_mult_imp_div_less)

lemma of_charD: "(of_char c :: nat) = n \<Longrightarrow> c = char_of n"
  by (metis char_of_char)

lemma char_codes:
  "char_of (92::nat) = CHR 0x5C" "char_of (34::nat) = CHR 0x22" "char_of (48::nat) = CHR ''0''"
  by (simp_all add: char_of_def bit_0)

lemma scanstring_escape:
  "e \<noteq> CHR ''u'' \<Longrightarrow> simple_escape e = Some x \<Longrightarrow>
     scanstring (CHR 0x5C # e # t) = push_char x (scanstring t)"
  by (subst scanstring.simps(2)) simp

lemma scanstring_unicode:
  "n < 256 \<Longrightarrow> scanstring ([CHR 0x5C, CHR ''u'', CHR ''0'', CHR ''0'', hex_digit (n div 16), hex_digit (n mod 16)] @ t) =
     push_char (char_of n) (scanstring t)"
  by (subst append_Cons, subst scanstring.simps(2)) (simp add: hex4_code)

lemma scanstring_plain:
  "32 \<le> (of_char c :: nat) \<Longrightarrow> c \<noteq> CHR 0x22 \<Longrightarrow> c \<noteq> CHR 0x5C \<Longrightarrow>
     scanstring (c # t) = push_char c (scanstring t)"
  by (subst scanstring.simps(2)) simp

lemma scanstring_json_char: "scanstring (json_char c @ t) = push_char c (scanstring t)"
proof -
  have n: "(of_char c :: nat) < 256" by (rule nat_of_char_less_256)
  show ?thesis
  proof (cases "(of_char c :: nat) \<in> {92, 34, 8, 12, 10, 13, 9}")
    case True
    then show ?thesis
      by (auto dest!: of_charD simp: char_codes json_char_def Let_def scanstring_escape simple_escape_def)
  next
    case False
    then have "c \<noteq> CHR 0x22" "c \<noteq> CHR 0x5C" by auto
    with False n scanstring_unicode [OF n, of t] show ?thesis
      by (simp add: json_char_def Let_def scanstring_plain)
  qed
qed

lemma scanstring_json_string:
  "scanstring (concat (map json_char s) @ CHR 0x22 # r) = Inr (s, r)"
proof (induction s)
  case Nil
  show ?case by (simp add: scanstring.simps(2))
next
  case (Cons c s)
  then show ?case by (simp add: scanstring_json_char push_char_def)
qed

section \<open>Integers\<close>

lemma is_digit_digit: "d < 10 \<Longrightarrow> is_digit (digit d)"
  by (simp add: is_digit_def digit_def Let_def)

lemma show_nat_is_digit: "c \<in> set (show_nat n) \<Longrightarrow> is_digit c"
  using show_nat_digits is_digit_digit by blast

lemma digit_zero_iff: "d < 10 \<Longrightarrow> digit d = CHR ''0'' \<longleftrightarrow> d = 0"
proof -
  assume d: "d < 10"
  have "digit d = CHR ''0'' \<longleftrightarrow> (of_char (digit d) :: nat) = of_char (CHR ''0'')" by (simp only: of_char_eq_iff)
  with d show ?thesis by (simp add: digit_def)
qed

lemma show_nat_head: "0 < n \<Longrightarrow> hd (show_nat n) \<noteq> CHR ''0''"
proof (induction n rule: show_nat.induct)
  case (1 n)
  show ?case
  proof (cases "n < 10")
    case True
    with 1 show ?thesis by (simp add: show_nat.simps [of n] digit_zero_iff)
  next
    case False
    with 1 show ?thesis by (simp add: show_nat.simps [of n] show_nat_nonempty)
  qed
qed

lemma show_nat_length: "n < 10 ^ k \<Longrightarrow> 0 < k \<Longrightarrow> length (show_nat n) \<le> k"
proof (induction k arbitrary: n)
  case 0
  then show ?case by simp
next
  case (Suc k)
  show ?case
  proof (cases "n < 10")
    case True
    then show ?thesis by (simp add: show_nat.simps [of n])
  next
    case False
    then have "0 < k" using Suc.prems by (cases k) simp_all
    moreover have "n div 10 < 10 ^ k" using Suc.prems by (simp add: less_mult_imp_div_less mult.commute)
    ultimately have "length (show_nat (n div 10)) \<le> k" using Suc.IH by blast
    with False show ?thesis by (simp add: show_nat.simps [of n])
  qed
qed

definition stops :: "string \<Rightarrow> bool" where
  "stops r \<longleftrightarrow> r = [] \<or> hd r = CHR '','' \<or> hd r = CHR '']'' \<or> hd r = CHR ''}''"

lemma stops_simps [simp]:
  "stops []" "stops (CHR '','' # r)" "stops (CHR '']'' # r)" "stops (CHR ''}'' # r)"
  by (simp_all add: stops_def)

lemma int_text_show_nat: "stops r \<Longrightarrow> int_text (show_nat n @ r) = (show_nat n, r)"
proof -
  assume r: "stops r"
  have nd: "r = [] \<or> \<not> is_digit (hd r)" using r by (auto simp: stops_def is_digit_def)
  show ?thesis
  proof (cases "n = 0")
    case True
    then show ?thesis by (simp add: int_text_def show_nat.simps [of 0] digit_def char_codes)
  next
    case False
    then have hd: "hd (show_nat n) \<noteq> CHR ''0''" using show_nat_head by simp
    have tw: "takeWhile is_digit (show_nat n @ r) = show_nat n" "dropWhile is_digit (show_nat n @ r) = r"
      using nd show_nat_is_digit by (cases r; simp)+
    show ?thesis
      using hd tw show_nat_nonempty [of n] by (cases "show_nat n") (simp_all add: int_text_def)
  qed
qed

lemma stops_parts: "stops r \<Longrightarrow> fraction_part r = (None, r)" "stops r \<Longrightarrow> exponent_part r = (None, r)"
  by (cases r; auto simp: stops_def fraction_part_def exponent_part_def)+

lemma read_show_nat: "read_nat (show_nat n) = n"
  by (simp add: read_nat_def foldl_show_nat)

lemma show_nat_not_minus: "hd (show_nat n) \<noteq> CHR ''-''"
  using show_nat_is_digit [of "hd (show_nat n)" n] show_nat_nonempty [of n] by (auto simp: is_digit_def)

lemma max_str_digits_pos: "0 < max_str_digits"
  by (simp add: max_str_digits_def)

definition int_sized :: "int \<Rightarrow> bool" where
  "int_sized i \<longleftrightarrow> nat \<bar>i\<bar> < 10 ^ max_str_digits"

lemma int_sized_length: "int_sized i \<Longrightarrow> length (show_nat (nat \<bar>i\<bar>)) \<le> max_str_digits"
  unfolding int_sized_def by (rule show_nat_length [OF _ max_str_digits_pos])

lemma scan_number_show_int:
  assumes "stops r" "int_sized i"
  shows "scan_number (show_int i @ r) = Inr (PInt i, r)"
proof (cases "i < 0")
  case True
  then show ?thesis
    using assms int_sized_length [OF assms(2)]
    by (simp add: scan_number_def show_int_def int_text_show_nat stops_parts read_show_nat show_nat_nonempty)
next
  case False
  then show ?thesis
    using assms int_sized_length [OF assms(2)] show_nat_not_minus [of "nat i"]
    by (simp add: scan_number_def show_int_def int_text_show_nat stops_parts read_show_nat show_nat_nonempty)
qed

section \<open>Values\<close>

text \<open>What can be written and read back: no floats, integers of at most 4300 digits, every
  dictionary with distinct keys, and containers nested at most \<open>d\<close> deep.\<close>

fun loadable :: "nat \<Rightarrow> pyval \<Rightarrow> bool" where
  "loadable d (PInt i) = int_sized i"
| "loadable d (PFloat x) = False"
| "loadable d (PList xs) = (0 < d \<and> list_all (loadable (d - 1)) xs)"
| "loadable d (PDict kvs) = (0 < d \<and> distinct (map fst kvs) \<and> list_all (\<lambda>(k, v). loadable (d - 1) v) kvs)"
| "loadable d v = True"

fun sorted_value :: "pyval \<Rightarrow> pyval" where
  "sorted_value (PList xs) = PList (map sorted_value xs)"
| "sorted_value (PDict kvs) = PDict (sort_key fst (map (\<lambda>(k, v). (k, sorted_value v)) kvs))"
| "sorted_value v = v"

lemma show_int_head: "show_int i \<noteq> [] \<and> (hd (show_int i) = CHR ''-'' \<or> is_digit (hd (show_int i)))"
  using show_nat_is_digit [of "hd (show_nat n)" n for n] show_nat_nonempty by (simp add: show_int_def)

definition clean_head :: "string \<Rightarrow> bool" where
  "clean_head t \<longleftrightarrow> t \<noteq> [] \<and> \<not> json_space (hd t) \<and> hd t \<noteq> CHR '']'' \<and> hd t \<noteq> CHR ''}''"

lemma json_dumps_clean: "json_dumps v = Inr t \<Longrightarrow> clean_head t"
proof (cases v)
  case (PInt i)
  assume "json_dumps v = Inr t"
  with PInt show_int_head [of i] show ?thesis
    by (auto simp: clean_head_def json_space_def is_digit_def Let_def)
qed (auto simp: clean_head_def json_space_def json_string_def bindE_eq_Inr Let_def split: if_splits)

lemma skip_ws_clean: "clean_head t \<Longrightarrow> skip_ws (t @ r) = t @ r"
  by (cases t) (simp_all add: clean_head_def skip_ws_def)

lemma clean_starts: "clean_head t \<Longrightarrow> \<not> starts '']'' (t @ r) \<and> \<not> starts ''}'' (t @ r)"
  by (cases t) (auto simp: clean_head_def starts_def)

lemma skip_ws_simps [simp]:
  "skip_ws (CHR '','' # r) = CHR '','' # r" "skip_ws (CHR '']'' # r) = CHR '']'' # r"
  "skip_ws (CHR ''}'' # r) = CHR ''}'' # r" "skip_ws (CHR '':'' # r) = CHR '':'' # r"
  "skip_ws (CHR 0x22 # r) = CHR 0x22 # r" "skip_ws [] = []"
  by (simp_all add: skip_ws_def json_space_def Let_def)

lemma scan_scalar_show_int:
  assumes "stops r" "int_sized i"
  shows "scan_scalar (show_int i @ r) = Inr (PInt i, r)"
proof -
  have no: "\<not> starts (c # w) (show_int i @ r)" if "\<not> is_digit c" "c \<noteq> CHR ''-''" for c w
    using show_int_head [of i] that by (cases "show_int i") auto
  have "\<not> starts ''-Infinity'' (show_int i @ r)"
  proof (cases "i < 0")
    case True
    have "\<not> starts (CHR ''I'' # w) (show_nat n @ r)" for w n
      using show_nat_is_digit [of "hd (show_nat n)" n] show_nat_nonempty [of n]
      by (cases "show_nat n") (auto simp: is_digit_def)
    with True show ?thesis by (simp add: show_int_def)
  next
    case False
    then show ?thesis
      using show_nat_not_minus [of "nat i"] show_nat_nonempty [of "nat i"]
      by (cases "show_nat (nat i)") (auto simp: show_int_def)
  qed
  moreover have "hd (show_int i @ r) \<noteq> CHR 0x22"
    using show_int_head [of i] by (auto simp: is_digit_def)
  ultimately show ?thesis
    using scan_number_show_int [OF assms]
    by (simp add: scan_scalar_def no is_digit_def)
qed

text \<open>A value and its text, read at nesting budget \<open>d\<close> with any sufficient fuel.\<close>

definition reads_as :: "nat \<Rightarrow> string \<Rightarrow> pyval \<Rightarrow> bool" where
  "reads_as d t v \<longleftrightarrow> clean_head t \<and>
     (\<forall>n r. 2 * length (t @ r) < n \<longrightarrow> stops r \<longrightarrow> scan_once n d (t @ r) = Inr (v, r))"

lemma reads_asD:
  "reads_as d t v \<Longrightarrow> 2 * length (t @ r) < n \<Longrightarrow> stops r \<Longrightarrow> scan_once n d (t @ r) = Inr (v, r)"
  by (simp add: reads_as_def)

lemma join_Cons: "join sep (t # ts) = t @ (if ts = [] then [] else sep @ join sep ts)"
  by (cases ts) simp_all

lemma join_clean: "clean_head t \<Longrightarrow> clean_head (join sep (t # ts))"
  by (cases t) (simp_all add: join_Cons clean_head_def)

lemma scan_items_join:
  assumes "list_all2 (reads_as d) ts vs" "ts \<noteq> []" "2 * length (join '','' ts @ '']'' @ r) + 1 < n"
  shows "scan_items n d (join '','' ts @ '']'' @ r) = Inr (vs, r)"
  using assms
proof (induction ts vs arbitrary: n rule: list_all2_induct)
  case Nil
  then show ?case by simp
next
  case (Cons t ts v vs)
  then obtain m where n: "n = Suc m" by (cases n) auto
  show ?case
  proof (cases "ts = []")
    case True
    then have "vs = []" using Cons by simp
    with Cons True reads_asD [OF Cons(1), of "'']'' @ r" m] n show ?thesis by simp
  next
    case False
    then obtain t' ts' where ts: "ts = t' # ts'" by (cases ts) auto
    then have "clean_head t'" using Cons(2) by (auto simp: list_all2_Cons1 reads_as_def)
    then have skip: "skip_ws (join '','' ts @ r') = join '','' ts @ r'" for r'
      unfolding ts by (rule skip_ws_clean [OF join_clean])
    have "scan_once m d (t @ '','' @ join '','' ts @ '']'' @ r) = Inr (v, '','' @ join '','' ts @ '']'' @ r)"
      by (rule reads_asD [OF Cons(1)]) (use Cons.prems n False in \<open>simp_all add: join_Cons\<close>)
    moreover have "scan_items m d (join '','' ts @ '']'' @ r) = Inr (vs, r)"
      by (rule Cons(3)) (use Cons.prems n False in \<open>simp_all add: join_Cons\<close>)
    ultimately show ?thesis
      using False n skip [of "'']'' @ r"] by (simp add: join_Cons)
  qed
qed

definition pair_text :: "string \<times> string \<Rightarrow> string" where
  "pair_text = (\<lambda>(k, t). json_string k @ '':'' @ t)"

lemma pair_text_clean: "clean_head (pair_text kt)"
  by (cases kt) (simp add: pair_text_def json_string_def clean_head_def json_space_def)

lemma scan_pairs_join:
  assumes "list_all2 (\<lambda>kt kv. fst kt = fst kv \<and> reads_as d (snd kt) (snd kv)) kts kvs" "kts \<noteq> []"
    "2 * length (join '','' (map pair_text kts) @ ''}'' @ r) + 1 < n"
  shows "scan_pairs n d (join '','' (map pair_text kts) @ ''}'' @ r) = Inr (kvs, r)"
  using assms
proof (induction kts kvs arbitrary: n rule: list_all2_induct)
  case Nil
  then show ?case by simp
next
  case (Cons kt kts kv kvs)
  obtain k t v where kt: "kt = (k, t)" "kv = (k, v)" and t: "reads_as d t v"
    using Cons(1) by (cases kt; cases kv) auto
  obtain m where n: "n = Suc m" using Cons.prems by (cases n) auto
  let ?rest = "if kts = [] then ''}'' @ r else '','' @ join '','' (map pair_text kts) @ ''}'' @ r"
  have tx: "join '','' (map pair_text (kt # kts)) @ ''}'' @ r =
      CHR 0x22 # concat (map json_char k) @ CHR 0x22 # CHR '':'' # t @ ?rest"
    by (simp add: kt pair_text_def json_string_def join_Cons)
  have key: "scanstring (concat (map json_char k) @ CHR 0x22 # CHR '':'' # t @ ?rest) =
      Inr (k, CHR '':'' # t @ ?rest)"
    by (rule scanstring_json_string)
  have clean: "skip_ws (t @ r') = t @ r'" for r'
    using t by (simp add: reads_as_def skip_ws_clean)
  have val: "scan_once m d (t @ ?rest) = Inr (v, ?rest)"
    by (rule reads_asD [OF t])
      (use Cons.prems n in \<open>auto simp: kt pair_text_def json_string_def join_Cons\<close>)
  show ?case
  proof (cases "kts = []")
    case True
    then have "kvs = []" using Cons by simp
    with True key val clean show ?thesis unfolding tx n by (simp add: kt)
  next
    case False
    then obtain kt' kts' where kts: "kts = kt' # kts'" by (cases kts) auto
    have skip: "skip_ws (join '','' (map pair_text kts) @ r') = join '','' (map pair_text kts) @ r'" for r'
      unfolding kts list.map by (rule skip_ws_clean [OF join_clean [OF pair_text_clean]])
    have "scan_pairs m d (join '','' (map pair_text kts) @ ''}'' @ r) = Inr (kvs, r)"
      by (rule Cons(3)) (use Cons.prems n False in \<open>simp_all add: join_Cons\<close>)
    with False key val clean skip [of "''}'' @ r"] show ?thesis unfolding tx n by (simp add: kt)
  qed
qed

lemma list_all2_insort_key:
  "list_all2 P xs ys \<Longrightarrow> P x y \<Longrightarrow> (\<And>a b. P a b \<Longrightarrow> f a = g b) \<Longrightarrow>
     list_all2 P (insort_key f x xs) (insort_key g y ys)"
  by (induction rule: list_all2_induct) auto

lemma list_all2_sort_key:
  "list_all2 P xs ys \<Longrightarrow> (\<And>a b. P a b \<Longrightarrow> f a = g b) \<Longrightarrow>
     list_all2 P (sort_key f xs) (sort_key g ys)"
  by (induction rule: list_all2_induct) (auto simp: list_all2_insort_key)

lemma distinct_sort_key: "distinct (map fst (sort_key fst kvs)) \<longleftrightarrow> distinct (map fst kvs)"
  by (rule mset_eq_imp_distinct_iff) simp

lemma reads_list:
  assumes "list_all2 (reads_as d) ts vs"
  shows "reads_as (Suc d) (''['' @ join '','' ts @ '']'') (PList vs)"
proof -
  have "scan_once n (Suc d) (''['' @ join '','' ts @ '']'' @ r) = Inr (PList vs, r)"
    if fuel: "2 * length (''['' @ join '','' ts @ '']'' @ r) < n" for n r
  proof -
    obtain m where n: "n = Suc m" using fuel by (cases n) auto
    show ?thesis
    proof (cases ts)
      case Nil
      with assms n show ?thesis by simp
    next
      case (Cons t ts')
      then have clean: "clean_head (join '','' ts)"
        using assms by (auto simp: list_all2_Cons1 reads_as_def intro: join_clean)
      have "scan_items m d (join '','' ts @ '']'' @ r) = Inr (vs, r)"
        by (rule scan_items_join [OF assms]) (use fuel n Cons in simp_all)
      with clean skip_ws_clean [OF clean] clean_starts [OF clean] show ?thesis by (simp add: n)
    qed
  qed
  then show ?thesis by (simp add: reads_as_def clean_head_def json_space_def)
qed

lemma reads_dict:
  assumes "list_all2 (\<lambda>kt kv. fst kt = fst kv \<and> reads_as d (snd kt) (snd kv)) kts kvs"
    and "distinct (map fst kvs)"
  shows "reads_as (Suc d) (''{'' @ join '','' (map pair_text kts) @ ''}'') (PDict kvs)"
proof -
  have "scan_once n (Suc d) (''{'' @ join '','' (map pair_text kts) @ ''}'' @ r) = Inr (PDict kvs, r)"
    if fuel: "2 * length (''{'' @ join '','' (map pair_text kts) @ ''}'' @ r) < n" for n r
  proof -
    obtain m where n: "n = Suc m" using fuel by (cases n) auto
    show ?thesis
    proof (cases kts)
      case Nil
      with assms n show ?thesis by simp
    next
      case (Cons kt kts')
      have clean: "clean_head (join '','' (map pair_text kts))"
        unfolding Cons list.map by (rule join_clean [OF pair_text_clean])
      have "scan_pairs m d (join '','' (map pair_text kts) @ ''}'' @ r) = Inr (kvs, r)"
        by (rule scan_pairs_join [OF assms(1)]) (use fuel n Cons in simp_all)
      with clean skip_ws_clean [OF clean] clean_starts [OF clean] assms(2)
      show ?thesis by (simp add: n dict_of_fresh)
    qed
  qed
  then show ?thesis by (simp add: reads_as_def clean_head_def json_space_def)
qed

lemma reads_scalar:
  assumes "clean_head t" "hd t \<noteq> CHR ''[''" "hd t \<noteq> CHR ''{''"
    and "\<And>r. stops r \<Longrightarrow> scan_scalar (t @ r) = Inr (v, r)"
  shows "reads_as d t v"
proof -
  have "scan_once (Suc m) d (t @ r) = Inr (v, r)" if "stops r" for m r
    using assms that by (cases t) (auto simp: clean_head_def)
  then show ?thesis
    using assms(1) unfolding reads_as_def by (metis less_nat_zero_code old.nat.exhaust)
qed

theorem json_dumps_reads:
  "json_dumps v = Inr t \<Longrightarrow> loadable d v \<Longrightarrow> reads_as d t (sorted_value v)"
proof (induction v arbitrary: t d rule: json_dumps.induct)
  case (2 b)
  then show ?case by (cases b) (auto simp: clean_head_def json_space_def scan_scalar_def intro!: reads_scalar)
next
  case (3 i)
  then show ?case
    using show_int_head [of i] scan_scalar_show_int json_dumps_clean [of "PInt i"]
    by (intro reads_scalar) (auto simp: is_digit_def)
next
  case (5 s)
  then show ?case
    using scanstring_json_string [of s] json_dumps_clean [of "PStr s"]
    by (intro reads_scalar) (auto simp: json_string_def scan_scalar_def)
next
  case (6 xs)
  obtain e where d: "d = Suc e" using 6(3) by (cases d) auto
  obtain ts where ts: "mapE json_dumps xs = Inr ts" and t: "t = ''['' @ join '','' ts @ '']''"
    using 6(2) by (auto simp: bindE_eq_Inr)
  have "list_all2 (reads_as e) ts (map sorted_value xs)"
    using 6(1,3) ts d unfolding mapE_eq_Inr
    by (auto simp: list_all2_conv_all_nth list_all_length)
  then show ?case unfolding t d sorted_value.simps by (rule reads_list)
next
  case (7 kvs)
  obtain e where d: "d = Suc e" using 7(3) by (cases d) auto
  let ?item = "\<lambda>(k, v). bindE (json_dumps v) (\<lambda>t. Inr (k, t))"
  obtain kts where kts: "mapE ?item kvs = Inr kts"
    and t: "t = ''{'' @ join '','' (map pair_text (sort_key fst kts)) @ ''}''"
    using 7(2) by (auto simp: bindE_eq_Inr pair_text_def)
  let ?P = "\<lambda>kt kv. fst kt = fst kv \<and> reads_as e (snd kt) (snd kv)"
  let ?kvs = "map (\<lambda>(k, v). (k, sorted_value v)) kvs"
  have "?P (kts ! i) (?kvs ! i)" if i: "i < length kvs" for i
  proof -
    obtain k v where kv: "kvs ! i = (k, v)" by (cases "kvs ! i")
    with i have mem: "(k, v) \<in> set kvs" by (metis nth_mem)
    have "?item (k, v) = Inr (kts ! i)"
      using kts i kv unfolding mapE_eq_Inr list_all2_conv_all_nth by metis
    then obtain u where u: "json_dumps v = Inr u" "kts ! i = (k, u)" by (auto simp: bindE_eq_Inr)
    have "loadable e v" using 7(3) mem d by (auto simp: list_all_iff)
    with 7(1) [OF mem refl u(1)] u i kv show ?thesis by simp
  qed
  then have "list_all2 ?P kts ?kvs"
    using kts unfolding mapE_eq_Inr by (auto simp: list_all2_conv_all_nth)
  then have "list_all2 ?P (sort_key fst kts) (sort_key fst ?kvs)"
    by (rule list_all2_sort_key) simp
  moreover have "distinct (map fst (sort_key fst ?kvs))"
    using 7(3) by (simp add: distinct_sort_key comp_def case_prod_unfold)
  ultimately show ?case unfolding t d sorted_value.simps by (rule reads_dict)
qed (auto simp: clean_head_def json_space_def scan_scalar_def intro!: reads_scalar)

lemma loads_json_dumps:
  assumes "json_dumps v = Inr t" "loadable d v"
  shows "loads d t = Inr (sorted_value v)"
proof -
  have clean: "clean_head t" by (rule json_dumps_clean [OF assms(1)])
  have "scan_once (scan_fuel t) d (t @ []) = Inr (sorted_value v, [])"
    by (rule reads_asD [OF json_dumps_reads [OF assms]]) (simp_all add: scan_fuel_def)
  then show ?thesis using skip_ws_clean [OF clean, of "[]"] by (simp add: loads_def)
qed

text \<open>Writing a value that was read back gives the same text.\<close>

lemma json_dumps_sorted_value: "json_dumps v = Inr t \<Longrightarrow> json_dumps (sorted_value v) = Inr t"
proof (induction v arbitrary: t rule: json_dumps.induct)
  case (6 xs)
  obtain ts where ts: "mapE json_dumps xs = Inr ts" and t: "t = ''['' @ join '','' ts @ '']''"
    using 6(2) by (auto simp: bindE_eq_Inr)
  have "mapE json_dumps (map sorted_value xs) = Inr ts"
    using 6(1) ts unfolding mapE_eq_Inr by (auto simp: list_all2_conv_all_nth)
  then show ?case by (simp add: t)
next
  case (7 kvs)
  let ?item = "\<lambda>(k, v). bindE (json_dumps v) (\<lambda>t. Inr (k, t))"
  let ?kvs = "map (\<lambda>(k, v). (k, sorted_value v)) kvs"
  obtain kts where kts: "mapE ?item kvs = Inr kts"
    and t: "t = ''{'' @ join '','' (map (\<lambda>(k, t). json_string k @ '':'' @ t) (sort_key fst kts)) @ ''}''"
    using 7(2) by (auto simp: bindE_eq_Inr)
  have "?item (?kvs ! i) = Inr (kts ! i)" if i: "i < length kvs" for i
  proof -
    obtain k v where kv: "kvs ! i = (k, v)" by (cases "kvs ! i")
    with i have mem: "(k, v) \<in> set kvs" by (metis nth_mem)
    have "?item (k, v) = Inr (kts ! i)"
      using kts i kv unfolding mapE_eq_Inr list_all2_conv_all_nth by metis
    then obtain u where u: "json_dumps v = Inr u" "kts ! i = (k, u)" by (auto simp: bindE_eq_Inr)
    with 7(1) [OF mem refl u(1)] i kv show ?thesis by simp
  qed
  then have "list_all2 (\<lambda>kv kt. ?item kv = Inr kt) ?kvs kts"
    using kts unfolding mapE_eq_Inr by (auto simp: list_all2_conv_all_nth)
  then have "list_all2 (\<lambda>kv kt. ?item kv = Inr kt) (sort_key fst ?kvs) (sort_key fst kts)"
    by (rule list_all2_sort_key) (auto simp: bindE_eq_Inr)
  then have "mapE ?item (sort_key fst ?kvs) = Inr (sort_key fst kts)"
    by (simp add: mapE_eq_Inr)
  moreover have "sort_key fst (sort_key fst kts) = sort_key fst kts"
    by (rule sort_key_id_if_sorted) simp
  ultimately show ?case by (simp add: t)
qed auto

lemma nests_sorted_value: "nests_within n (sorted_value v) \<longleftrightarrow> nests_within n v"
  by (induction n v rule: nests_within.induct) (auto simp: list_all_iff)

section \<open>Deep nesting\<close>

lemma scan_deep:
  "d < m \<Longrightarrow> 2 * d < n \<Longrightarrow> scan_once n d (replicate m (CHR ''['') @ u) = Inl recursion_error"
proof (induction d arbitrary: m n)
  case 0
  then obtain k l where "m = Suc k" "n = Suc l" by (metis gr0_implies_Suc not_less0 mult_0_right)
  then show ?case by simp
next
  case (Suc d)
  obtain k where m: "m = Suc (Suc k)" by (rule that [of "m - 2"]) (use Suc.prems(1) in simp)
  obtain l where n: "n = Suc (Suc l)" by (rule that [of "n - 2"]) (use Suc.prems(2) in simp)
  have "scan_once l d (replicate (Suc k) (CHR ''['') @ u) = Inl recursion_error"
    by (rule Suc.IH) (use Suc.prems m n in simp_all)
  then show ?case by (simp add: m n skip_ws_def json_space_def Let_def)
qed

end
