(* ===== verification/Forward_Events.thy ===== *)
theory Forward_Events
  imports Json_Roundtrip
begin

text \<open>
  \<open>tools/forward_events.py\<close>: finding the event in a log line, the RFC 5424 line, the token
  bucket, sending, and the loop over the stream.  Characters are those below 256, so the UTF-8
  form of one is a byte or two.  \<open>time.monotonic()\<close> is read by the caller: each line comes with
  the instants its two readings return.  The network is a parameter, a record of the socket
  calls with the exceptions they raise; how deeply \<open>json.loads\<close> and
  \<open>json.dumps\<close> can follow nested containers before the interpreter's recursion limit is a pair of
  numbers, since the two calls start at different depths of the call stack.  The standard streams
  are taken to work.
\<close>

section \<open>Constants and counters\<close>

definition DEFAULT_SEVERITY :: int where "DEFAULT_SEVERITY = 6"
definition MAX_LINE_BYTES :: nat where "MAX_LINE_BYTES = 64 * 1024"
definition MAX_DATAGRAM_BYTES :: nat where "MAX_DATAGRAM_BYTES = 8 * 1024"

record Counters =
  forwarded :: nat
  dropped_unreachable :: nat
  dropped_oversized :: nat
  dropped_rate_limited :: nat
  ignored_non_event :: nat
  started :: rat

definition Counters_init :: "rat \<Rightarrow> Counters" where
  "Counters_init now = \<lparr>forwarded = 0, dropped_unreachable = 0, dropped_oversized = 0,
     dropped_rate_limited = 0, ignored_non_event = 0, started = now\<rparr>"

text \<open>\<open>json.dumps\<close> with the default separators.\<close>

definition summary :: "Counters \<Rightarrow> string" where
  "summary c =
     ''{'' @ join '', '' (map (\<lambda>(k, n). json_string k @ '': '' @ show_int (int n)) (sort_key fst
       [(''forwarded'', forwarded c), (''dropped_unreachable'', dropped_unreachable c),
        (''dropped_oversized'', dropped_oversized c), (''dropped_rate_limited'', dropped_rate_limited c),
        (''ignored_non_event'', ignored_non_event c)])) @ ''}''"

section \<open>Finding the event in a line\<close>

text \<open>
  \<open>(\{.*\})\s*$\<close> at the start of the text: what follows the closing brace is blank, so the brace
  is the last character that is not, and the dot does not match a newline.
\<close>

definition object_at :: "string \<Rightarrow> string option" where
  "object_at s =
     (let t = rstrip s in
      if starts ''{'' t \<and> 2 \<le> length t \<and> last t = CHR ''}'' \<and> newline \<notin> set t then Some t else None)"

text \<open>\<open>simpleics_pot\.event\s+\<close> and the object behind it.\<close>

definition after_logger :: "string \<Rightarrow> string option" where
  "after_logger s =
     (if starts ''simpleics_pot.event'' s then
        (let r = drop 19 s; t = dropWhile py_space r in if t = r then None else object_at t)
      else None)"

text \<open>The lazy \<open>.*?\<close>: the first position where the rest matches.\<close>

fun find_prefixed :: "string \<Rightarrow> string option" where
  "find_prefixed [] = None"
| "find_prefixed (c # s) =
     (case after_logger (c # s) of
        Some g \<Rightarrow> Some g
      | None \<Rightarrow> if c = newline then None else find_prefixed s)"

text \<open>\<open>EVENT_LINE.match(text).group(1)\<close>; the optional prefix is tried first.\<close>

definition event_line :: "string \<Rightarrow> string option" where
  "event_line s = (case find_prefixed s of Some g \<Rightarrow> Some g | None \<Rightarrow> object_at s)"

type_synonym event = "(string \<times> pyval) list"

definition parse_event :: "nat \<Rightarrow> string \<Rightarrow> event option result" where
  "parse_event depth line =
     (case event_line (strip line) of
        None \<Rightarrow> Inr None
      | Some g \<Rightarrow>
          (case loads depth g of
             Inl (ValueError _) \<Rightarrow> Inr None
           | Inl e \<Rightarrow> Inl e
           | Inr (PDict d) \<Rightarrow>
               Inr (if map_of d ''event_type'' = Some (PStr ''modbus_transaction'') then Some d else None)
           | Inr _ \<Rightarrow> Inr None))"

section \<open>The syslog line\<close>

definition utf8 :: "string \<Rightarrow> string" where
  "utf8 s = concat (map (\<lambda>c. let n = of_char c :: nat in
     if n < 128 then [c] else [char_of (192 + n div 64), char_of (128 + n mod 64)]) s)"

text \<open>Decoding one and two byte sequences; any other byte does not come from \<open>utf8\<close>.\<close>

fun utf8_decode :: "string \<Rightarrow> string result" where
  "utf8_decode [] = Inr []"
| "utf8_decode [b] = (if (of_char b :: nat) < 128 then Inr [b] else Inl NotModelled)"
| "utf8_decode (b # c # bs) =
     (let m = of_char b :: nat; n = of_char c :: nat in
      if m < 128 then bindE (utf8_decode (c # bs)) (\<lambda>s. Inr (b # s))
      else if 192 \<le> m \<and> m < 196 \<and> 128 \<le> n \<and> n < 192 then
        bindE (utf8_decode bs) (\<lambda>s. Inr (char_of ((m - 192) * 64 + (n - 128)) # s))
      else Inl NotModelled)"

text \<open>\<open>str(event.get(k) or "-")\<close>.\<close>

definition field_text :: "event \<Rightarrow> string \<Rightarrow> string result" where
  "field_text event k =
     (case map_of event k of
        None \<Rightarrow> Inr ''-''
      | Some v \<Rightarrow> if truthy v then py_str v else Inr ''-'')"

definition format_syslog :: "nat \<Rightarrow> event \<Rightarrow> string \<Rightarrow> string \<Rightarrow> int \<Rightarrow> string result" where
  "format_syslog limit event hostname app_name facility =
     (let priority = facility * 8 + DEFAULT_SEVERITY in
      bindE (field_text event ''observed_at'') (\<lambda>timestamp.
      bindE (field_text event ''event_id'') (\<lambda>event_id.
      let message_id = (if take 32 event_id = [] then ''-'' else take 32 event_id) in
      bindE (dumps_within limit (PDict event)) (\<lambda>payload.
      let header = ''<'' @ show_int priority @ ''>1 '' @ timestamp @ '' '' @ hostname @ '' '' @ app_name @
            '' - '' @ message_id @ '' - '' in
      Inr (utf8 (header @ payload))))))"

section \<open>The forwarder\<close>

text \<open>
  Socket calls on handles \<open>'h\<close> and a network state \<open>'n\<close>.  \<open>set_timeout (Some t)\<close> is
  \<open>settimeout(t)\<close>; \<open>setblocking(False)\<close> is a timeout of 0.
\<close>

record ('h, 'n) network =
  new_socket :: "string \<Rightarrow> 'n \<Rightarrow> 'h result \<times> 'n"
  set_timeout :: "'h \<Rightarrow> rat \<Rightarrow> 'n \<Rightarrow> 'n"
  connect_socket :: "'h \<Rightarrow> string \<times> int \<Rightarrow> 'n \<Rightarrow> unit result \<times> 'n"
  send_to :: "'h \<Rightarrow> string \<Rightarrow> string \<times> int \<Rightarrow> 'n \<Rightarrow> unit result \<times> 'n"
  send_all :: "'h \<Rightarrow> string \<Rightarrow> 'n \<Rightarrow> unit result \<times> 'n"
  close_socket :: "'h \<Rightarrow> 'n \<Rightarrow> unit result \<times> 'n"

text \<open>The attributes of \<open>Forwarder\<close>, and the streams and the network it acts on.\<close>

record ('h, 'n) Forwarder =
  dest_address :: "string \<times> int"
  transport :: string
  fw_hostname :: string
  fw_app_name :: string
  fw_facility :: int
  dry_stream :: bool
  rate :: rat
  capacity :: rat
  tokens :: rat
  refilled :: rat
  sock :: "'h option"
  counters :: Counters
  streamed :: "string list"
  reports :: "string list"
  net :: 'n

definition Forwarder_init ::
  "string \<Rightarrow> int \<Rightarrow> string \<Rightarrow> string \<Rightarrow> string \<Rightarrow> int \<Rightarrow> rat \<Rightarrow> Counters \<Rightarrow> bool \<Rightarrow> rat \<Rightarrow> 'n \<Rightarrow> ('h, 'n) Forwarder" where
  "Forwarder_init host port protocol hostname app_name facility events_per_second c dry now n =
     (let cap = (if 0 < events_per_second then max 1 events_per_second else 0) in
      \<lparr>dest_address = (host, port), transport = protocol, fw_hostname = hostname, fw_app_name = app_name,
       fw_facility = facility, dry_stream = dry, rate = events_per_second, capacity = cap, tokens = cap,
       refilled = now, sock = None, counters = c, streamed = [], reports = [], net = n\<rparr>)"

definition take_token :: "rat \<Rightarrow> ('h, 'n) Forwarder \<Rightarrow> bool \<times> ('h, 'n) Forwarder" where
  "take_token now s =
     (if rate s \<le> 0 then (True, s)
      else
        (let t = min (capacity s) (fl (tokens s + fl (fl (now - refilled s) * rate s)));
             s' = s\<lparr>tokens := t, refilled := now\<rparr> in
         if t < 1 then (False, s') else (True, s'\<lparr>tokens := fl (t - 1)\<rparr>)))"

definition connect :: "('h, 'n) network \<Rightarrow> ('h, 'n) Forwarder \<Rightarrow> 'h result \<times> ('h, 'n) Forwarder" where
  "connect nw s =
     (case sock s of
        Some h \<Rightarrow> (Inr h, s)
      | None \<Rightarrow>
          (if transport s = ''udp'' then
             (case new_socket nw ''SOCK_DGRAM'' (net s) of
                (Inl e, n) \<Rightarrow> (Inl e, s\<lparr>net := n\<rparr>)
              | (Inr h, n) \<Rightarrow> (Inr h, s\<lparr>net := set_timeout nw h 0 n, sock := Some h\<rparr>))
           else
             (case new_socket nw ''SOCK_STREAM'' (net s) of
                (Inl e, n) \<Rightarrow> (Inl e, s\<lparr>net := n\<rparr>)
              | (Inr h, n) \<Rightarrow>
                  (case connect_socket nw h (dest_address s) (set_timeout nw h 5 n) of
                     (Inl e, n') \<Rightarrow> (Inl e, s\<lparr>net := n'\<rparr>)
                   | (Inr _, n') \<Rightarrow> (Inr h, s\<lparr>net := set_timeout nw h 0 n', sock := Some h\<rparr>)))))"

text \<open>\<open>_reset\<close> swallows an \<open>OSError\<close> of the close; any other exception leaves the socket in place.\<close>

definition reset_socket :: "('h, 'n) network \<Rightarrow> ('h, 'n) Forwarder stmt" where
  "reset_socket nw s =
     (case sock s of
        None \<Rightarrow> (s\<lparr>sock := None\<rparr>, None)
      | Some h \<Rightarrow>
          (case close_socket nw h (net s) of
             (r, n) \<Rightarrow>
               if r = Inr () \<or> r = Inl OSError then (s\<lparr>net := n, sock := None\<rparr>, None)
               else (s\<lparr>net := n\<rparr>, Some (projl r))))"

definition count :: "((nat \<Rightarrow> nat) \<Rightarrow> Counters \<Rightarrow> Counters) \<Rightarrow> ('h, 'n) Forwarder \<Rightarrow> ('h, 'n) Forwarder" where
  "count upd s = s\<lparr>counters := upd Suc (counters s)\<rparr>"

definition transmit :: "('h, 'n) network \<Rightarrow> string \<Rightarrow> ('h, 'n) Forwarder \<Rightarrow> unit result \<times> ('h, 'n) Forwarder" where
  "transmit nw datagram s =
     (case connect nw s of
        (Inl e, s') \<Rightarrow> (Inl e, s')
      | (Inr h, s') \<Rightarrow>
          (case (if transport s' = ''udp'' then send_to nw h datagram (dest_address s') (net s')
                 else send_all nw h (datagram @ [newline]) (net s')) of
             (r, n) \<Rightarrow> (r, s'\<lparr>net := n\<rparr>)))"

definition send :: "('h, 'n) network \<Rightarrow> nat \<Rightarrow> rat \<Rightarrow> event \<Rightarrow> ('h, 'n) Forwarder \<Rightarrow> bool result \<times> ('h, 'n) Forwarder" where
  "send nw limit now event s =
     (case take_token now s of
        (False, s1) \<Rightarrow> (Inr False, count dropped_rate_limited_update s1)
      | (True, s1) \<Rightarrow>
          (case format_syslog limit event (fw_hostname s1) (fw_app_name s1) (fw_facility s1) of
             Inl e \<Rightarrow> (Inl e, s1)
           | Inr datagram \<Rightarrow>
               if MAX_DATAGRAM_BYTES < length datagram then (Inr False, count dropped_oversized_update s1)
               else if dry_stream s1 then
                 (case utf8_decode datagram of
                    Inl e \<Rightarrow> (Inl e, s1)
                  | Inr line \<Rightarrow>
                      (Inr True, count forwarded_update (s1\<lparr>streamed := streamed s1 @ [line @ [newline]]\<rparr>)))
               else
                 (case transmit nw datagram s1 of
                    (Inr _, s2) \<Rightarrow> (Inr True, count forwarded_update s2)
                  | (Inl e, s2) \<Rightarrow>
                      if e = OSError then
                        (case reset_socket nw (count dropped_unreachable_update s2) of
                           (s3, None) \<Rightarrow> (Inr False, s3)
                         | (s3, Some e') \<Rightarrow> (Inl e', s3))
                      else (Inl e, s2))))"

section \<open>The loop\<close>

definition report :: "('h, 'n) Forwarder \<Rightarrow> ('h, 'n) Forwarder" where
  "report s = s\<lparr>reports := reports s @ [summary (counters s)]\<rparr>"

text \<open>How many nested containers \<open>json.loads\<close> and \<open>json.dumps\<close> follow when the loop calls them.\<close>

type_synonym recursion_limits = "nat \<times> nat"

text \<open>A line of the source with the instants \<open>send\<close> and the summary check read.\<close>

type_synonym timed_line = "string \<times> rat \<times> rat"

definition summarise ::
  "rat \<Rightarrow> rat \<Rightarrow> rat \<times> ('h, 'n) Forwarder \<Rightarrow> rat \<times> ('h, 'n) Forwarder" where
  "summarise summary_seconds now st =
     (if summary_seconds \<noteq> 0 \<and> summary_seconds \<le> fl (now - fst st) then (now, report (snd st)) else st)"

fun run_lines ::
  "('h, 'n) network \<Rightarrow> recursion_limits \<Rightarrow> rat \<Rightarrow> timed_line list \<Rightarrow> rat \<times> ('h, 'n) Forwarder \<Rightarrow>
     exn option \<times> ('h, 'n) Forwarder" where
  "run_lines nw depths summary_seconds [] (last_summary, s) = (None, s)"
| "run_lines nw depths summary_seconds ((raw, now, now') # rest) (last_summary, s) =
     (if MAX_LINE_BYTES < length raw then
        run_lines nw depths summary_seconds rest (last_summary, count ignored_non_event_update s)
      else
        (case parse_event (fst depths) raw of
           Inl e \<Rightarrow> (Some e, s)
         | Inr None \<Rightarrow>
             run_lines nw depths summary_seconds rest
               (summarise summary_seconds now' (last_summary, count ignored_non_event_update s))
         | Inr (Some event) \<Rightarrow>
             (case send nw (snd depths) now event s of
                (Inl e, s') \<Rightarrow> (Some e, s')
              | (Inr _, s') \<Rightarrow>
                  run_lines nw depths summary_seconds rest (summarise summary_seconds now' (last_summary, s')))))"

record arguments =
  arg_host :: "string option"
  arg_port :: int
  arg_protocol :: string
  arg_hostname :: string
  arg_app_name :: string
  arg_facility :: int
  arg_max_events_per_second :: rat
  arg_dry_run :: bool
  arg_summary_seconds :: rat

text \<open>The three readings of the clock before the loop are those of \<open>Counters\<close>, of the bucket and of
  the last summary; \<open>run\<close> returns 0 or raises.\<close>

definition run ::
  "('h, 'n) network \<Rightarrow> recursion_limits \<Rightarrow> arguments \<Rightarrow> rat \<times> rat \<times> rat \<Rightarrow> timed_line list \<Rightarrow> 'n \<Rightarrow> int result \<times> ('h, 'n) Forwarder" where
  "run nw depths args readings source n =
     (let (t_counters, t_bucket, t_summary) = readings;
          s = Forwarder_init (case arg_host args of None \<Rightarrow> [] | Some h \<Rightarrow> h) (arg_port args)
            (arg_protocol args) (arg_hostname args) (arg_app_name args) (arg_facility args)
            (arg_max_events_per_second args) (Counters_init t_counters) (arg_dry_run args) t_bucket n in
      case run_lines nw depths (arg_summary_seconds args) source (t_summary, s) of
        (Some e, s') \<Rightarrow> (Inl e, s')
      | (None, s') \<Rightarrow> (Inr 0, report s'))"

section \<open>Destinations\<close>

text \<open>What \<open>ipaddress.ip_address\<close> says of a text that is an address.\<close>

record ip_info =
  is_multicast :: bool
  is_unspecified :: bool

definition destination :: "(string \<Rightarrow> ip_info option) \<Rightarrow> string \<Rightarrow> string result" where
  "destination ip_address v =
     (case ip_address v of
        None \<Rightarrow> if v = [] \<or> 253 < length v then Inl (ValueError ''destination host is not usable'') else Inr v
      | Some a \<Rightarrow>
          if is_multicast a \<or> is_unspecified a
          then Inl (ValueError ''destination host is not a single collector'') else Inr v)"

end
