(* ===== verification/Forward_Props.thy ===== *)
theory Forward_Props
  imports Forward_Events Telemetry
begin

text \<open>
  Facts about the forwarder: the regular expression on the lines the sensor logs, the UTF-8
  round trip, the counters, the errors each step can raise, and the token bucket in floating
  point.
\<close>

section \<open>The line the sensor logs\<close>

lemma rstrip_space: "py_space c \<Longrightarrow> rstrip (s @ [c]) = rstrip s"
  by (simp add: rstrip_def)

lemma rstrip_solid: "t \<noteq> [] \<Longrightarrow> \<not> py_space (last t) \<Longrightarrow> rstrip (s @ t) = s @ t"
  by (cases t rule: rev_cases) (simp_all add: rstrip_def)

lemma dropWhile_solid: "\<not> py_space c \<Longrightarrow> dropWhile py_space (s @ c # t) = dropWhile py_space s @ c # t"
  by (induction s) simp_all

lemma brace_solid: "\<not> py_space CHR ''}''" "\<not> py_space CHR ''s''" "\<not> py_space CHR ''{''"
  "py_space newline" "py_space CHR '' ''"
  by (simp_all add: py_space_def)

definition object_text :: "string \<Rightarrow> bool" where
  "object_text t \<longleftrightarrow> starts ''{'' t \<and> 2 \<le> length t \<and> last t = CHR ''}'' \<and> newline \<notin> set t"

lemma rstrip_object: "object_text t \<Longrightarrow> rstrip (s @ t) = s @ t"
  by (rule rstrip_solid) (auto simp: object_text_def brace_solid)

lemma object_at_text: "object_text t \<Longrightarrow> object_at t = Some t"
  using rstrip_object [of t "[]"] by (simp add: object_text_def object_at_def Let_def)

lemma after_logger_event: "object_text t \<Longrightarrow> after_logger (''simpleics_pot.event '' @ t) = Some t"
proof -
  assume t: "object_text t"
  then obtain u where u: "t = CHR ''{'' # u" by (cases t) (auto simp: object_text_def)
  have "dropWhile py_space t = t" by (simp add: u brace_solid)
  then show ?thesis
    using object_at_text [OF t] by (simp add: after_logger_def brace_solid Let_def u)
qed

lemma after_logger_other: "c \<noteq> CHR ''s'' \<Longrightarrow> after_logger (c # s) = None"
  by (simp add: after_logger_def)

lemma find_prefixed_event:
  "object_text t \<Longrightarrow> CHR ''s'' \<notin> set p \<Longrightarrow> newline \<notin> set p \<Longrightarrow>
     find_prefixed (p @ ''simpleics_pot.event '' @ t) = Some t"
proof (induction p)
  case Nil
  then show ?case using after_logger_event [of t] by simp
next
  case (Cons c p)
  then have "c \<noteq> CHR ''s''" "c \<noteq> newline" by auto
  with Cons show ?case by (simp add: after_logger_other)
qed

lemma strip_line:
  assumes "object_text t" "x \<noteq> []" "\<not> py_space (hd x)"
  shows "strip (p @ x @ t @ [newline]) = dropWhile py_space p @ x @ t"
proof -
  obtain c y where x: "x = c # y" using assms(2) by (cases x) auto
  have "dropWhile py_space (p @ x @ t @ [newline]) = (dropWhile py_space p @ x @ t) @ [newline]"
    using assms(3) by (simp add: x dropWhile_solid)
  then show ?thesis
    using rstrip_object [OF assms(1), of "dropWhile py_space p @ x"]
    unfolding strip_def by (metis rstrip_space brace_solid(4) append_assoc)
qed

lemma event_line_logged:
  assumes t: "object_text t" and p: "CHR ''s'' \<notin> set p" "newline \<notin> set p"
  shows "event_line (strip (p @ ''simpleics_pot.event '' @ t @ [newline])) = Some t"
proof -
  have strip: "strip (p @ ''simpleics_pot.event '' @ t @ [newline]) =
      dropWhile py_space p @ ''simpleics_pot.event '' @ t"
    by (rule strip_line [OF t]) (simp_all add: brace_solid)
  have "find_prefixed (dropWhile py_space p @ ''simpleics_pot.event '' @ t) = Some t"
    by (rule find_prefixed_event [OF t]) (use p in \<open>auto dest: set_dropWhileD\<close>)
  then show ?thesis unfolding strip event_line_def by (simp only: option.case)
qed

lemma json_dumps_dict_text: "json_dumps (PDict d) = Inr t \<Longrightarrow> object_text t"
proof -
  assume t: "json_dumps (PDict d) = Inr t"
  have "newline \<notin> set t"
    using json_dumps_printable [OF t] by (auto simp: printable_def list_all_iff)
  with t show ?thesis by (auto simp: object_text_def bindE_eq_Inr)
qed

lemma map_of_sort_key: "distinct (map fst kvs) \<Longrightarrow> map_of (sort_key fst kvs) = map_of kvs"
proof -
  assume d: "distinct (map fst kvs)"
  then have "distinct (map fst (sort_key fst kvs))" by (simp add: distinct_sort_key)
  with d show ?thesis by (intro map_of_inject_set [THEN iffD2]) simp_all
qed

text \<open>A logged event comes back with its items sorted.\<close>

lemma parse_event_logged:
  assumes line: "json_dumps (PDict kvs) = Inr t" and load: "loadable depth (PDict kvs)"
    and kind: "map_of kvs ''event_type'' = Some (PStr ''modbus_transaction'')"
    and p: "CHR ''s'' \<notin> set p" "newline \<notin> set p"
  shows "parse_event depth (p @ ''simpleics_pot.event '' @ t @ [newline]) =
    Inr (Some (sort_key fst (map (\<lambda>(k, v). (k, sorted_value v)) kvs)))"
proof -
  let ?kvs = "map (\<lambda>(k, v). (k, sorted_value v)) kvs"
  have "map_of (sort_key fst ?kvs) = map_of ?kvs"
    using load by (intro map_of_sort_key) (simp add: comp_def case_prod_unfold)
  moreover have "map_of ?kvs ''event_type'' = Some (PStr ''modbus_transaction'')"
    using kind by (simp add: map_of_map)
  ultimately show ?thesis
    unfolding parse_event_def event_line_logged [OF json_dumps_dict_text [OF line] p]
    by (simp add: loads_json_dumps [OF line load])
qed

lemma int_sized_small: "\<bar>i\<bar> < 100 \<Longrightarrow> int_sized i"
proof -
  assume "\<bar>i\<bar> < 100"
  then have "nat \<bar>i\<bar> < 10 ^ 2" by simp
  also have "(10::nat) ^ 2 \<le> 10 ^ max_str_digits"
    by (rule power_increasing) (simp_all add: max_str_digits_def)
  finally show ?thesis by (simp only: int_sized_def)
qed

section \<open>UTF-8\<close>

lemma utf8_decode_ascii: "(of_char b :: nat) < 128 \<Longrightarrow> utf8_decode (b # bs) = bindE (utf8_decode bs) (\<lambda>s. Inr (b # s))"
  by (cases bs) (simp_all add: Let_def)

lemma utf8_decode_utf8: "utf8_decode (utf8 s) = Inr s"
proof (induction s)
  case Nil
  show ?case by (simp add: utf8_def)
next
  case (Cons c s)
  define n where "n = (of_char c :: nat)"
  have n: "n < 256" unfolding n_def by (rule nat_of_char_less_256)
  have c: "char_of n = c" by (simp add: n_def)
  have step: "utf8 (c # s) = (if n < 128 then [c] else [char_of (192 + n div 64), char_of (128 + n mod 64)]) @ utf8 s"
    by (simp add: utf8_def n_def Let_def)
  show ?case
  proof (cases "n < 128")
    case True
    with Cons show ?thesis unfolding step by (simp add: utf8_decode_ascii n_def)
  next
    case False
    have "n div 64 < 4" using n by (simp add: less_mult_imp_div_less)
    moreover have "n div 64 * 64 + n mod 64 = n" by simp
    ultimately show ?thesis using False Cons c unfolding step by (simp add: Let_def)
  qed
qed

section \<open>Errors\<close>

lemma py_str_error: "py_str v = Inl e \<Longrightarrow> e = NotModelled"
  by (cases v) auto

lemma json_dumps_error: "json_dumps v = Inl e \<Longrightarrow> e = NotModelled"
proof (induction v arbitrary: e rule: json_dumps.induct)
  case (6 xs)
  then show ?case by (auto simp: bindE_eq_Inl dest!: mapE_eq_Inl)
next
  case (7 d)
  then show ?case by (fastforce simp: bindE_eq_Inl dest!: mapE_eq_Inl)
qed auto

lemma dumps_within_error:
  "dumps_within limit v = Inl e \<Longrightarrow> e = NotModelled \<or> e = recursion_error \<and> \<not> nests_within limit v"
  by (auto simp: dumps_within_def dest: json_dumps_error split: if_splits)

lemma format_syslog_error:
  "format_syslog limit event h a f = Inl e \<Longrightarrow>
     e = NotModelled \<or> e = recursion_error \<and> \<not> nests_within limit (PDict event)"
proof -
  assume err: "format_syslog limit event h a f = Inl e"
  have "e = NotModelled" if "field_text event k = Inl e" for k
    using that py_str_error by (auto simp: field_text_def split: option.splits if_splits)
  with err dumps_within_error [of limit "PDict event" e] show ?thesis
    unfolding format_syslog_def bindE_eq_Inl Let_def by blast
qed

text \<open>The events the model prints: no floats, and plain values in the two fields of the header.\<close>

definition plain_event :: "event \<Rightarrow> bool" where
  "plain_event event \<longleftrightarrow> float_free (PDict event) \<and>
     isOK (field_text event ''observed_at'') \<and> isOK (field_text event ''event_id'')"

lemma format_syslog_total:
  "plain_event event \<Longrightarrow> nests_within limit (PDict event) \<Longrightarrow> isOK (format_syslog limit event h a f)"
  using json_dumps_total [of "PDict event"]
  by (auto simp: plain_event_def format_syslog_def dumps_within_def Let_def isOK_iff simp del: json_dumps.simps)

text \<open>The object of a line is a piece of the line.\<close>

lemma prefix_rstrip: "prefix (rstrip s) s"
  using suffix_dropWhile [of py_space "rev s"] by (simp add: rstrip_def suffix_to_prefix)

lemma sublist_strip: "sublist (strip s) s"
proof -
  have "sublist (rstrip (dropWhile py_space s)) (dropWhile py_space s)" by (simp add: prefix_rstrip)
  moreover have "sublist (dropWhile py_space s) s" by (simp add: suffix_dropWhile)
  ultimately show ?thesis unfolding strip_def by (rule sublist_order.order.trans)
qed

lemma object_at_sublist: "object_at s = Some g \<Longrightarrow> sublist g s"
  using prefix_rstrip by (auto simp: object_at_def Let_def split: if_splits)

lemma after_logger_sublist: "after_logger s = Some g \<Longrightarrow> sublist g s"
proof -
  assume "after_logger s = Some g"
  then have "sublist g (dropWhile py_space (drop 19 s))"
    by (auto simp: after_logger_def Let_def split: if_splits dest: object_at_sublist)
  moreover have "suffix (dropWhile py_space (drop 19 s)) s"
    using suffix_dropWhile suffix_drop by (rule suffix_order.trans)
  ultimately show ?thesis by (meson suffix_imp_sublist sublist_order.order.trans)
qed

lemma find_prefixed_sublist: "find_prefixed s = Some g \<Longrightarrow> sublist g s"
proof (induction s)
  case (Cons c s)
  then show ?case
    using after_logger_sublist [of "c # s"] by (auto simp: sublist_Cons_right split: option.splits if_splits)
qed simp

lemma event_line_sublist: "event_line (strip s) = Some g \<Longrightarrow> sublist g s"
proof -
  assume "event_line (strip s) = Some g"
  then have "sublist g (strip s)"
    by (auto simp: event_line_def split: option.splits dest: find_prefixed_sublist object_at_sublist)
  then show ?thesis using sublist_strip by (rule sublist_order.order.trans)
qed

text \<open>Parsing a line raises only when it nests too deeply, and what it finds nests no deeper.\<close>

lemma parse_event_error:
  assumes err: "parse_event depth s = Inl e"
  shows "e = NotModelled \<and> wide_escape s \<or> e = recursion_error \<and> depth < opens s"
proof -
  obtain g where g: "event_line (strip s) = Some g" and l: "loads depth g = Inl e"
    using err by (auto simp: parse_event_def split: option.splits sum.splits exn.splits pyval.splits if_splits)
  note part = event_line_sublist [OF g]
  from err g l have "\<not> (\<exists>m. e = ValueError m)" by (auto simp: parse_event_def)
  with loads_error [OF l] opens_sublist [OF part] wide_escape_sublist [OF _ part] show ?thesis
    by (auto simp: format_error_def)
qed

lemma parse_event_nests:
  assumes "parse_event depth s = Inr (Some event)" "opens s \<le> k"
  shows "nests_within k (PDict event)"
proof -
  obtain g where g: "event_line (strip s) = Some g" and l: "loads depth g = Inr (PDict event)"
    using assms(1) by (auto simp: parse_event_def split: option.splits sum.splits exn.splits pyval.splits if_splits)
  from opens_sublist [OF event_line_sublist [OF g]] assms(2) show ?thesis
    by (intro loads_nests [OF l]) simp
qed

end
