(* ===== verification/Forward_Runs.thy ===== *)
theory Forward_Runs
  imports Forward_Props
begin

text \<open>
  Facts about \<open>send\<close> and the loop: which parts of the state each step touches, how the counters
  move, which runs end without an exception, what the network sees, and the budget of the token
  bucket in floating point.
\<close>

section \<open>Frames\<close>

definition only_network :: "('h, 'n) Forwarder \<Rightarrow> ('h, 'n) Forwarder \<Rightarrow> bool" where
  "only_network s s' \<longleftrightarrow>
     dest_address s' = dest_address s \<and> transport s' = transport s \<and> fw_hostname s' = fw_hostname s \<and>
     fw_app_name s' = fw_app_name s \<and> fw_facility s' = fw_facility s \<and> dry_stream s' = dry_stream s \<and>
     rate s' = rate s \<and> capacity s' = capacity s \<and> tokens s' = tokens s \<and> refilled s' = refilled s \<and>
     counters s' = counters s \<and> streamed s' = streamed s \<and> reports s' = reports s"

lemma only_network_trans: "only_network s t \<Longrightarrow> only_network t u \<Longrightarrow> only_network s u"
  by (simp add: only_network_def)

lemma connect_frame: "only_network s (snd (connect nw s))"
  by (simp add: connect_def only_network_def split: option.split prod.split sum.split)

lemma transmit_frame: "only_network s (snd (transmit nw d s))"
  using connect_frame [of s nw]
  by (auto simp: transmit_def only_network_def split: prod.splits sum.splits)

lemma reset_frame: "only_network s (fst (reset_socket nw s))"
  by (simp add: reset_socket_def only_network_def split: option.split prod.split)

text \<open>What a step of the forwarder may change besides.\<close>

definition same_setup :: "('h, 'n) Forwarder \<Rightarrow> ('h, 'n) Forwarder \<Rightarrow> bool" where
  "same_setup s s' \<longleftrightarrow>
     dest_address s' = dest_address s \<and> rate s' = rate s \<and> capacity s' = capacity s \<and> dry_stream s' = dry_stream s"

lemma take_token_frame:
  "counters (snd (take_token now s)) = counters s" "same_setup s (snd (take_token now s))"
  "net (snd (take_token now s)) = net s" "sock (snd (take_token now s)) = sock s"
  by (simp_all add: take_token_def same_setup_def Let_def)

lemma count_frame [simp]:
  "tokens (count u s) = tokens s" "refilled (count u s) = refilled s" "rate (count u s) = rate s"
  "capacity (count u s) = capacity s" "dry_stream (count u s) = dry_stream s" "net (count u s) = net s"
  "counters (count u s) = u Suc (counters s)" "streamed (count u s) = streamed s" "sock (count u s) = sock s"
  by (simp_all add: count_def)

section \<open>What one event does\<close>

definition handled :: "Counters \<Rightarrow> nat" where
  "handled c = forwarded c + dropped_unreachable c + dropped_oversized c + dropped_rate_limited c +
     ignored_non_event c"

lemma handled_update [simp]:
  "handled (forwarded_update Suc c) = Suc (handled c)"
  "handled (dropped_unreachable_update Suc c) = Suc (handled c)"
  "handled (dropped_oversized_update Suc c) = Suc (handled c)"
  "handled (dropped_rate_limited_update Suc c) = Suc (handled c)"
  "handled (ignored_non_event_update Suc c) = Suc (handled c)"
  by (simp_all add: handled_def)

text \<open>
  The outcomes of \<open>send\<close>: the bucket is asked first, and every counter but one stays.
\<close>

inductive sent :: "('h, 'n) Forwarder \<Rightarrow> bool result \<Rightarrow> ('h, 'n) Forwarder \<Rightarrow> bool \<Rightarrow> bool" for s where
  limited: "s' = count dropped_rate_limited_update s \<Longrightarrow> sent s (Inr False) s' False"
| oversized: "s' = count dropped_oversized_update s \<Longrightarrow> sent s (Inr False) s' True"
| printed: "counters s' = forwarded_update Suc (counters s) \<Longrightarrow> same_setup s s' \<Longrightarrow>
    tokens s' = tokens s \<Longrightarrow> refilled s' = refilled s \<Longrightarrow> net s' = net s \<Longrightarrow> dry_stream s \<Longrightarrow>
    sent s (Inr True) s' True"
| delivered: "only_network (count forwarded_update s) s' \<Longrightarrow> \<not> dry_stream s \<Longrightarrow> sent s (Inr True) s' True"
| unreachable: "only_network (count dropped_unreachable_update s) s' \<Longrightarrow> \<not> dry_stream s \<Longrightarrow> r \<noteq> Inr True \<Longrightarrow>
    sent s r s' True"
| failed: "only_network s s' \<Longrightarrow> (dry_stream s \<Longrightarrow> net s' = net s) \<Longrightarrow> sent s (Inl e) s' True"

lemma send_sent:
  "sent (snd (take_token now s)) (fst (send nw limit now event s)) (snd (send nw limit now event s)) (fst (take_token now s))"
proof -
  obtain b s1 where t: "take_token now s = (b, s1)" by (cases "take_token now s")
  show ?thesis
  proof (cases b)
    case False
    then show ?thesis by (simp add: t send_def sent.limited)
  next
    case True
    show ?thesis
    proof (cases "format_syslog limit event (fw_hostname s1) (fw_app_name s1) (fw_facility s1)")
      case (Inl e)
      with True show ?thesis by (simp add: t send_def) (rule sent.failed; simp add: only_network_def)
    next
      case (Inr d)
      consider "MAX_DATAGRAM_BYTES < length d" | "\<not> MAX_DATAGRAM_BYTES < length d" "dry_stream s1"
        | "\<not> MAX_DATAGRAM_BYTES < length d" "\<not> dry_stream s1" by blast
      then show ?thesis
      proof cases
        case 1
        with True Inr show ?thesis by (simp add: t send_def sent.oversized)
      next
        case 2
        with True Inr show ?thesis
          by (auto simp: t send_def count_def same_setup_def only_network_def split: sum.split
              intro!: sent.failed sent.printed)
      next
        case 3
        obtain r s2 where tr: "transmit nw d s1 = (r, s2)" by (cases "transmit nw d s1")
        with transmit_frame [of s1 nw d] have fr: "only_network s1 s2" by simp
        obtain s3 x where rs: "reset_socket nw (count dropped_unreachable_update s2) = (s3, x)"
          by (cases "reset_socket nw (count dropped_unreachable_update s2)")
        from fr have fr': "only_network (count u s1) (count u s2)" for u
          by (simp add: only_network_def count_def)
        have un: "only_network (count dropped_unreachable_update s1) s3"
          using only_network_trans [OF fr' reset_frame] by (metis rs fst_conv)
        show ?thesis
          using True Inr 3 fr fr' un
          by (auto simp: t send_def tr rs split: sum.split option.split
              intro: sent.delivered sent.unreachable sent.failed)
      qed
    qed
  qed
qed

section \<open>The loop\<close>

lemma run_lines_inv:
  assumes "\<And>s. P s \<Longrightarrow> P (count ignored_non_event_update s)"
    and "\<And>now event s. P s \<Longrightarrow> P (snd (send nw (snd depths) now event s))" and "\<And>s. P s \<Longrightarrow> P (report s)"
  shows "P s \<Longrightarrow> P (snd (run_lines nw depths secs lines (l0, s)))"
proof (induction lines arbitrary: s l0)
  case Nil
  then show ?case by simp
next
  case (Cons line lines)
  obtain raw now now' where line: "line = (raw, now, now')" by (cases line) auto
  have go: "P (snd (run_lines nw depths secs lines (summarise secs now' (l0, s'))))" if "P s'" for s'
    using Cons.IH assms(3) that by (auto simp: summarise_def)
  have sends: "P s'" if "send nw (snd depths) now event s = (r, s')" for event r s'
    using assms(2) [OF Cons.prems, of now event] that by simp
  show ?case
    using Cons.IH [OF assms(1) [OF Cons.prems]] go assms(1) [OF Cons.prems] Cons.prems sends
    by (auto simp: line split: sum.split option.split prod.split)
qed

lemma report_frame [simp]:
  "counters (report s) = counters s" "net (report s) = net s" "dry_stream (report s) = dry_stream s"
  "tokens (report s) = tokens s" "refilled (report s) = refilled s" "rate (report s) = rate s"
  "capacity (report s) = capacity s"
  by (simp_all add: report_def)

lemma summarise_frame:
  "summarise secs now (l, s) = (l', s') \<Longrightarrow>
     counters s' = counters s \<and> net s' = net s \<and> dry_stream s' = dry_stream s \<and> tokens s' = tokens s \<and>
     refilled s' = refilled s \<and> rate s' = rate s \<and> capacity s' = capacity s"
  by (auto simp: summarise_def split: if_splits)

text \<open>Every line is counted exactly once.\<close>

lemma send_handled:
  assumes "send nw limit now event s = (Inr b, s')"
  shows "handled (counters s') = Suc (handled (counters s))"
  using send_sent [of now s nw limit event] take_token_frame(1) [of now s]
  by (auto simp: assms only_network_def elim!: sent.cases)

lemma run_lines_handled:
  "run_lines nw depths secs lines (l0, s) = (None, s') \<Longrightarrow>
     handled (counters s') = handled (counters s) + length lines"
proof (induction lines arbitrary: s l0)
  case Nil
  then show ?case by simp
next
  case (Cons line lines)
  obtain raw now now' where line: "line = (raw, now, now')" by (cases line) auto
  have go: "handled (counters s') = handled (counters t) + length lines"
    if "run_lines nw depths secs lines (summarise secs now' (l0, t)) = (None, s')" for t
    using that Cons.IH summarise_frame [of secs now' l0 t]
    by (cases "summarise secs now' (l0, t)") auto
  show ?case
    using Cons.prems Cons.IH
    by (auto simp: line split: if_splits sum.splits option.splits prod.splits dest!: go dest: send_handled)
qed

text \<open>In a dry run the network is never touched.\<close>

lemma send_dry: "dry_stream s \<Longrightarrow> dry_stream (snd (send nw limit now event s)) \<and> net (snd (send nw limit now event s)) = net s"
  using send_sent [of now s nw limit event] take_token_frame [where now = now and s = s]
  by (auto simp: only_network_def same_setup_def elim!: sent.cases)

lemma run_lines_dry:
  "dry_stream s \<Longrightarrow> net (snd (run_lines nw depths secs lines (l0, s))) = net s"
  using run_lines_inv [where P = "\<lambda>s'. dry_stream s' \<and> net s' = net s" and nw = nw and s = s]
    send_dry [where nw = nw]
  by auto

section \<open>Exceptions that leave the loop\<close>

text \<open>
  What the documentation of the socket calls promises.  Errors of the socket or of its address are
  \<open>OSError\<close>, but an address has to be one: a port outside 0 to 65535 is an \<open>OverflowError\<close>, a null
  character in the host a \<open>TypeError\<close>, and a host that is not ASCII goes through the \<open>idna\<close> codec
  with its \<open>UnicodeError\<close>.
\<close>

definition usable_address :: "string \<times> int \<Rightarrow> bool" where
  "usable_address a \<longleftrightarrow> list_all (\<lambda>c. 0 < (of_char c :: nat) \<and> (of_char c :: nat) < 128) (fst a) \<and>
     0 \<le> snd a \<and> snd a \<le> 65535"

definition socket_errors :: "('h, 'n) network \<Rightarrow> bool" where
  "socket_errors nw \<longleftrightarrow>
     (\<forall>k n e. fst (new_socket nw k n) = Inl e \<longrightarrow> e = OSError) \<and>
     (\<forall>h a n e. usable_address a \<longrightarrow> fst (connect_socket nw h a n) = Inl e \<longrightarrow> e = OSError) \<and>
     (\<forall>h d a n e. usable_address a \<longrightarrow> fst (send_to nw h d a n) = Inl e \<longrightarrow> e = OSError) \<and>
     (\<forall>h d n e. fst (send_all nw h d n) = Inl e \<longrightarrow> e = OSError) \<and>
     (\<forall>h n e. fst (close_socket nw h n) = Inl e \<longrightarrow> e = OSError)"

lemma socket_errorsD:
  assumes "socket_errors nw"
  shows "new_socket nw k n = (Inl e, n') \<Longrightarrow> e = OSError"
    and "connect_socket nw h a n = (Inl e, n') \<Longrightarrow> usable_address a \<Longrightarrow> e = OSError"
    and "send_to nw h d a n = (Inl e, n') \<Longrightarrow> usable_address a \<Longrightarrow> e = OSError"
    and "send_all nw h d n = (Inl e, n') \<Longrightarrow> e = OSError"
    and "close_socket nw h n = (Inl e, n') \<Longrightarrow> e = OSError"
  using assms unfolding socket_errors_def by (metis fst_conv)+

lemma connect_error:
  "socket_errors nw \<Longrightarrow> usable_address (dest_address s) \<Longrightarrow> connect nw s = (Inl e, s') \<Longrightarrow> e = OSError"
  by (auto simp: connect_def split: option.splits sum.splits prod.splits if_splits dest: socket_errorsD)

lemma transmit_error:
  assumes nw: "socket_errors nw" "usable_address (dest_address s)" and err: "transmit nw d s = (Inl e, s')"
  shows "e = OSError"
proof -
  obtain r s1 where c: "connect nw s = (r, s1)" by (cases "connect nw s")
  with connect_frame [of s nw] nw(2) have "usable_address (dest_address s1)" by (simp add: only_network_def)
  with err c show ?thesis
    by (auto simp: transmit_def split: sum.splits prod.splits if_splits
        dest: socket_errorsD [OF nw(1)] connect_error [OF nw])
qed

lemma reset_no_error: "socket_errors nw \<Longrightarrow> snd (reset_socket nw s) = None"
proof -
  assume nw: "socket_errors nw"
  have "r = Inr () \<or> r = Inl OSError" if "close_socket nw h n = (r, n')" for h n r n'
    using socket_errorsD(5) [OF nw] that by (cases r) auto
  then show ?thesis by (auto simp: reset_socket_def split: option.split prod.split)
qed

lemma format_syslog_utf8: "format_syslog limit event h a f = Inr d \<Longrightarrow> \<exists>u. d = utf8 u"
  unfolding format_syslog_def bindE_eq_Inr Let_def by auto

lemma take_token_dest: "dest_address (snd (take_token now s)) = dest_address s"
  by (simp add: take_token_def Let_def)

lemma send_dest: "dest_address (snd (send nw limit now event s)) = dest_address s"
  using send_sent [of now s nw limit event] take_token_dest [of now s]
  by (auto simp: only_network_def count_def same_setup_def elim!: sent.cases)

lemma summarise_dest: "dest_address (snd (summarise secs now (l, s))) = dest_address s"
  by (simp add: summarise_def report_def)

text \<open>An event the model prints is handled without an exception.\<close>

lemma send_returns:
  assumes nw: "socket_errors nw" "usable_address (dest_address s)"
    and event: "plain_event event" "nests_within limit (PDict event)"
  shows "isOK (fst (send nw limit now event s))"
proof -
  obtain b s1 where t: "take_token now s = (b, s1)" by (cases "take_token now s")
  with take_token_dest [of now s] nw(2) have dest: "usable_address (dest_address s1)" by simp
  obtain d where d: "format_syslog limit event (fw_hostname s1) (fw_app_name s1) (fw_facility s1) = Inr d"
    using format_syslog_total [OF event, of "fw_hostname s1"] unfolding isOK_iff by blast
  from format_syslog_utf8 [OF d] obtain u where u: "d = utf8 u" ..
  have reset: "reset_socket nw x \<noteq> (x', Some e')" for x x' e'
    using reset_no_error [OF nw(1), of x] by (metis option.distinct(1) snd_conv)
  show ?thesis
    using transmit_error [OF nw(1) dest, of d] reset
    by (auto simp: send_def t d u utf8_decode_utf8 split: bool.split sum.split prod.split option.split)
qed

section \<open>Runs that end\<close>

text \<open>
  A line the model follows to its end: it opens no more containers than the interpreter follows,
  denotes no character beyond the model's, and its event, when it holds one, can be printed.  A
  line beyond the length limit is never looked at.
\<close>

definition tame_line :: "recursion_limits \<Rightarrow> string \<Rightarrow> bool" where
  "tame_line depths raw \<longleftrightarrow> length raw \<le> MAX_LINE_BYTES \<longrightarrow>
     opens raw \<le> fst depths \<and> opens raw \<le> snd depths \<and> \<not> wide_escape raw \<and>
     (\<forall>event. parse_event (fst depths) raw = Inr (Some event) \<longrightarrow> plain_event event)"

lemma tame_parse:
  assumes "tame_line depths raw" "length raw \<le> MAX_LINE_BYTES"
  obtains r where "parse_event (fst depths) raw = Inr r"
  using assms parse_event_error [of "fst depths" raw] by (cases "parse_event (fst depths) raw") (auto simp: tame_line_def)

lemma tame_send:
  assumes "tame_line depths raw" "length raw \<le> MAX_LINE_BYTES" "parse_event (fst depths) raw = Inr (Some event)"
    and "socket_errors nw" "usable_address (dest_address s)"
  shows "isOK (fst (send nw (snd depths) now event s))"
  using assms parse_event_nests [OF assms(3), of "snd depths"]
  by (intro send_returns) (auto simp: tame_line_def)

lemma run_lines_ends:
  assumes nw: "socket_errors nw"
  shows "usable_address (dest_address s) \<Longrightarrow> list_all (tame_line depths \<circ> fst) lines \<Longrightarrow>
    fst (run_lines nw depths secs lines (l0, s)) = None"
proof (induction lines arbitrary: s l0)
  case Nil
  then show ?case by simp
next
  case (Cons line lines)
  obtain raw now now' where line: "line = (raw, now, now')" by (cases line) auto
  have tame: "tame_line depths raw" using Cons.prems(2) by (simp add: line)
  have skip: "dest_address (count u t) = dest_address t" for u t by (simp add: count_def)
  have go: "fst (run_lines nw depths secs lines (summarise secs now' (l0, t))) = None"
    if "dest_address t = dest_address s" for t
    using Cons.IH [of "snd (summarise secs now' (l0, t))" "fst (summarise secs now' (l0, t))"] Cons.prems that
    by (simp add: summarise_dest)
  show ?case
  proof (cases "MAX_LINE_BYTES < length raw")
    case True
    with Cons show ?thesis by (simp add: line skip)
  next
    case False
    with tame_parse [OF tame] obtain x where x: "parse_event (fst depths) raw = Inr x" by auto
    show ?thesis
    proof (cases x)
      case None
      with False x show ?thesis by (simp add: line go skip)
    next
      case (Some event)
      obtain r t where t: "send nw (snd depths) now event s = (r, t)" by (cases "send nw (snd depths) now event s")
      with tame_send [OF tame _ _ nw Cons.prems(1), of event now] x Some False obtain b where "r = Inr b"
        by (auto simp: isOK_iff)
      with False x Some t send_dest [of nw "snd depths" now event s] show ?thesis by (simp add: line go)
    qed
  qed
qed

section \<open>What the network sees\<close>

text \<open>\<open>Q\<close> is a property of the network state that every call keeps, as long as no message is longer
  than the limit (a newline ends a message of a stream).\<close>

definition keeps_traffic :: "('n \<Rightarrow> bool) \<Rightarrow> ('h, 'n) network \<Rightarrow> bool" where
  "keeps_traffic Q nw \<longleftrightarrow>
     (\<forall>k n. Q n \<longrightarrow> Q (snd (new_socket nw k n))) \<and> (\<forall>h t n. Q n \<longrightarrow> Q (set_timeout nw h t n)) \<and>
     (\<forall>h a n. Q n \<longrightarrow> Q (snd (connect_socket nw h a n))) \<and> (\<forall>h n. Q n \<longrightarrow> Q (snd (close_socket nw h n))) \<and>
     (\<forall>h d a n. length d \<le> MAX_DATAGRAM_BYTES \<longrightarrow> Q n \<longrightarrow> Q (snd (send_to nw h d a n))) \<and>
     (\<forall>h d n. length d \<le> MAX_DATAGRAM_BYTES \<longrightarrow> Q n \<longrightarrow> Q (snd (send_all nw h (d @ [newline]) n)))"

lemma connect_keeps: "keeps_traffic Q nw \<Longrightarrow> Q (net s) \<Longrightarrow> Q (net (snd (connect nw s)))"
proof -
  assume nw: "keeps_traffic Q nw" and s: "Q (net s)"
  have 1: "Q n'" if "new_socket nw k (net s) = (r, n')" for k r n'
    using nw s that unfolding keeps_traffic_def by (metis snd_conv)
  have 2: "Q (set_timeout nw h t n)" if "Q n" for h t n
    using nw that unfolding keeps_traffic_def by blast
  have 3: "Q n'" if "connect_socket nw h a n = (r, n')" "Q n" for h a n r n'
    using nw that unfolding keeps_traffic_def by (metis snd_conv)
  show ?thesis
    by (auto simp: connect_def s split: option.split sum.split prod.split intro!: 2 dest: 1 intro: 3)
qed

lemma transmit_keeps:
  assumes nw: "keeps_traffic Q nw" and s: "Q (net s)" and d: "length d \<le> MAX_DATAGRAM_BYTES"
  shows "Q (net (snd (transmit nw d s)))"
proof -
  obtain r s' where c: "connect nw s = (r, s')" by (cases "connect nw s")
  have s': "Q (net s')" using connect_keeps [OF nw s] by (simp add: c)
  have 1: "Q n'" if "send_to nw h d a (net s') = (x, n')" for h a x n'
    using nw s' d that unfolding keeps_traffic_def by (metis snd_conv)
  have 2: "Q n'" if "send_all nw h (d @ [newline]) (net s') = (x, n')" for h x n'
    using nw s' d that unfolding keeps_traffic_def by (metis snd_conv)
  show ?thesis
    by (auto simp: transmit_def c s' split: sum.split prod.split if_splits dest: 1 2)
qed

lemma reset_keeps: "keeps_traffic Q nw \<Longrightarrow> Q (net s) \<Longrightarrow> Q (net (fst (reset_socket nw s)))"
proof -
  assume nw: "keeps_traffic Q nw" and s: "Q (net s)"
  have "Q n'" if "close_socket nw h (net s) = (r, n')" for h r n'
    using nw s that unfolding keeps_traffic_def by (metis snd_conv)
  then show ?thesis by (auto simp: reset_socket_def s split: option.split prod.split)
qed

lemma send_keeps:
  assumes nw: "keeps_traffic Q nw" and s: "Q (net s)"
  shows "Q (net (snd (send nw limit now event s)))"
proof -
  obtain b s1 where t: "take_token now s = (b, s1)" by (cases "take_token now s")
  have s1: "Q (net s1)" using take_token_frame(3) [of now s] s by (simp add: t)
  have 1: "Q (net s')" if "transmit nw d s1 = (r, s')" "\<not> MAX_DATAGRAM_BYTES < length d" for d r s'
    using transmit_keeps [OF nw s1, of d] that by simp
  have 2: "Q (net s')" if "reset_socket nw u = (s', r)" "Q (net u)" for u r s'
    using reset_keeps [OF nw that(2)] that(1) by simp
  show ?thesis
    by (auto simp: send_def t s1 split: bool.split sum.split prod.split option.split
        dest!: 1 2)
qed

lemma run_lines_keeps:
  "keeps_traffic Q nw \<Longrightarrow> Q (net s) \<Longrightarrow> Q (net (snd (run_lines nw depths secs lines (l0, s))))"
  by (rule run_lines_inv [where P = "\<lambda>s. Q (net s)"]) (simp_all add: send_keeps)

end
