(* ===== verification/Float_Error.thy ===== *)
theory Float_Error
  imports Float64
begin

text \<open>
  How far rounding can exceed the exact value, and what that means for a token bucket's refill.
\<close>

definition half_ulp :: rat where "half_ulp = 1 / 2 ^ 53"
definition half_tiny :: rat where "half_tiny = 2 powi (- 1075)"

lemma half_ulp_powi: "half_ulp = 2 powi (- 53)"
  by (simp add: half_ulp_def power_int_def power_one_over)

lemma half_tiny_small: "0 < half_tiny" "half_tiny * 2 ^ 56 \<le> half_ulp"
proof -
  have "half_tiny * 2 powi 56 = 2 powi (- 1019)"
    unfolding half_tiny_def by (subst powi_add [symmetric]) simp
  also have "\<dots> \<le> half_ulp" unfolding half_ulp_powi by (rule powi_mono) simp
  finally show "half_tiny * 2 ^ 56 \<le> half_ulp" by simp
qed (simp add: half_tiny_def)

lemma fl_upper:
  assumes "0 \<le> x"
  shows "fl x \<le> x * (1 + half_ulp) + half_tiny"
proof (cases "x = 0")
  case True
  then show ?thesis using half_tiny_small by simp
next
  case False
  with assms have x: "0 < x" by simp
  let ?p = "(2::rat) powi ulp_exp x"
  have "of_int (round_half_even (x / ?p)) \<le> x / ?p + 1/2"
    using round_half_even_error [of "x / ?p"] by linarith
  then have "of_int (round_half_even (x / ?p)) * ?p \<le> (x / ?p + 1/2) * ?p"
    by (rule mult_right_mono) simp
  moreover have "(x / ?p + 1/2) * ?p = x + ?p / 2" by (simp add: distrib_right)
  ultimately have up: "fl x \<le> x + ?p / 2" using False by (simp add: fl_def)
  have "?p / 2 \<le> x * half_ulp + half_tiny"
  proof (cases "ilog2 x - 52 \<le> - 1074")
    case True
    then have "?p / 2 = half_tiny"
      using x powi_add [of "-1075" 1] by (simp add: ulp_exp_def half_tiny_def)
    then show ?thesis using x by (simp add: half_ulp_def)
  next
    case False
    then have "?p = 2 powi ilog2 x * 2 powi (- 52)"
      using x powi_add [of "ilog2 x" "- 52"] by (simp add: ulp_exp_def max_def)
    also have "\<dots> \<le> x * 2 powi (- 52)"
      using ilog2_bounds(1) [OF x] by (rule mult_right_mono) simp
    also have "\<dots> = 2 * (x * half_ulp)"
      using powi_add [of "-53" 1] by (simp add: half_ulp_powi)
    finally show ?thesis using half_tiny_small by simp
  qed
  with up show ?thesis by (simp add: algebra_simps)
qed

text \<open>A refill: the elapsed time times the rate, added to the tokens, all rounded.\<close>

lemma refill_upper:
  assumes d: "0 \<le> d" and r: "0 < r" "r \<le> 2 ^ 53" and t: "0 \<le> t" "t \<le> c" and c: "1 \<le> c"
  shows "fl (t + fl (fl d * r)) \<le> t + (1 + 4 * half_ulp) * (d * r) + 2 * half_ulp * c"
proof -
  let ?u = half_ulp and ?e = half_tiny
  have u: "0 < ?u" "?u \<le> 1 / 16" by (simp_all add: half_ulp_def)
  have e: "0 < ?e" "?e * 2 ^ 56 \<le> ?u" by (rule half_tiny_small)+
  have e1: "?e * 64 \<le> ?u" using e by simp
  have er: "?e * r * 8 \<le> ?u"
  proof -
    have "?e * r \<le> ?e * 2 ^ 53" using e(1) r(2) by (intro mult_left_mono) simp_all
    with e(2) show ?thesis by simp
  qed
  define p where "p = fl d * r"
  define g where "g = fl p"
  have p0: "0 \<le> p" using d r fl_nonneg by (simp add: p_def)
  have g0: "0 \<le> g" using p0 fl_nonneg by (simp add: g_def)
  have "p \<le> (d * (1 + ?u) + ?e) * r"
    unfolding p_def using fl_upper [OF d] r by (intro mult_right_mono) simp_all
  then have p: "p \<le> d * r * (1 + ?u) + ?e * r" by (simp add: algebra_simps)
  have g: "g \<le> p * (1 + ?u) + ?e" unfolding g_def by (rule fl_upper [OF p0])
  have "p * (1 + ?u) \<le> (d * r * (1 + ?u) + ?e * r) * (1 + ?u)"
    using p u by (intro mult_right_mono) simp_all
  with g have g': "g \<le> (d * r * (1 + ?u) + ?e * r) * (1 + ?u) + ?e" by simp
  have "fl (t + g) \<le> (t + g) * (1 + ?u) + ?e" using t g0 by (intro fl_upper) simp
  also have "\<dots> \<le> t + t * ?u + ((d * r * (1 + ?u) + ?e * r) * (1 + ?u) + ?e) * (1 + ?u) + ?e"
    using mult_right_mono [OF g', of "1 + ?u"] u by (simp add: algebra_simps)
  also have "\<dots> = t + t * ?u + d * r * (1 + ?u) ^ 3 + ?e * r * (1 + ?u) ^ 2 + ?e * (2 + ?u)"
    by (simp add: power2_eq_square power3_eq_cube algebra_simps)
  also have "\<dots> \<le> t + c * ?u + d * r * (1 + 4 * ?u) + ?u / 2 + ?u / 2"
  proof -
    have uu: "?u * ?u \<le> ?u * (1/16)" using u by (intro mult_left_mono) simp_all
    have "?u * (?u * ?u) \<le> ?u * (1 * (1/16))" using u uu by (intro mult_left_mono mult_mono) simp_all
    moreover have "(1 + ?u) ^ 3 = 1 + 3 * ?u + 3 * (?u * ?u) + ?u * (?u * ?u)"
      by (simp add: power3_eq_cube algebra_simps)
    ultimately have "(1 + ?u) ^ 3 \<le> 1 + 4 * ?u" using uu u by linarith
    then have 1: "d * r * (1 + ?u) ^ 3 \<le> d * r * (1 + 4 * ?u)" using d r by (intro mult_left_mono) simp_all
    have "(1 + ?u) ^ 2 = 1 + 2 * ?u + ?u * ?u" by (simp add: power2_eq_square algebra_simps)
    then have "(1 + ?u) ^ 2 \<le> 2" using uu u by linarith
    then have "?e * r * (1 + ?u) ^ 2 \<le> ?e * r * 2" using e r by (intro mult_left_mono) simp_all
    moreover have "0 \<le> ?e * r" using e r by simp
    ultimately have 2: "?e * r * (1 + ?u) ^ 2 \<le> ?u / 2" using er by linarith
    have "?e * (2 + ?u) \<le> ?e * 3" using u e by (intro mult_left_mono) simp_all
    with e1 have 3: "?e * (2 + ?u) \<le> ?u / 2" using e by linarith
    have "t * ?u \<le> c * ?u" using t u by (intro mult_right_mono) simp_all
    with 1 2 3 show ?thesis by linarith
  qed
  also have "\<dots> \<le> t + (1 + 4 * ?u) * (d * r) + 2 * ?u * c"
    using mult_left_mono [OF c, of ?u] u by (simp add: algebra_simps)
  finally show ?thesis by (simp add: g_def p_def)
qed

end
