(* ===== verification/Forward_Rate.thy ===== *)
theory Forward_Rate
  imports Forward_Runs Float_Error
begin

text \<open>
  The rate limit.  The potential of a run is the number of forwarded events plus the tokens left:
  sending an event moves one unit from the bucket to the counter, so the potential grows only by
  the refills, whose rounding errors are bounded per call.
\<close>

definition bucket_ok :: "('h, 'n) Forwarder \<Rightarrow> bool" where
  "bucket_ok s \<longleftrightarrow> 0 < rate s \<and> rate s \<le> 2 ^ 53 \<and> is_f64 (capacity s) \<and> 1 \<le> capacity s \<and>
     capacity s \<le> 2 ^ 53 \<and> 0 \<le> tokens s \<and> tokens s \<le> capacity s"

definition allowance :: "('h, 'n) Forwarder \<Rightarrow> rat \<Rightarrow> rat" where
  "allowance s elapsed = (1 + 4 * half_ulp) * (elapsed * rate s) + 2 * half_ulp * capacity s"

lemma take_token_budget:
  assumes ok: "bucket_ok s" and now: "refilled s \<le> now"
  shows "bucket_ok (snd (take_token now s))" "refilled (snd (take_token now s)) = now"
    "tokens (snd (take_token now s)) + of_bool (fst (take_token now s)) \<le>
       tokens s + allowance s (now - refilled s)"
proof -
  define t where "t = min (capacity s) (fl (tokens s + fl (fl (now - refilled s) * rate s)))"
  have r: "0 < rate s" using ok by (simp add: bucket_ok_def)
  have d: "0 \<le> now - refilled s" using now by simp
  have "0 \<le> fl (tokens s + fl (fl (now - refilled s) * rate s))"
    using ok now fl_nonneg [OF d] r by (intro fl_nonneg add_nonneg_nonneg mult_nonneg_nonneg) (simp_all add: bucket_ok_def)
  then have t: "0 \<le> t" "t \<le> capacity s" using ok by (simp_all add: t_def bucket_ok_def)
  have "is_f64 t" using ok is_f64_fl by (simp add: t_def min_def bucket_ok_def)
  then have exact: "fl (t - 1) = t - 1" if "1 \<le> t"
    using that t ok by (intro fl_exact f64_pred) (simp_all add: bucket_ok_def)
  have "t \<le> fl (tokens s + fl (fl (now - refilled s) * rate s))" by (simp add: t_def)
  also have "\<dots> \<le> tokens s + (1 + 4 * half_ulp) * ((now - refilled s) * rate s) + 2 * half_ulp * capacity s"
    using ok by (intro refill_upper d) (simp_all add: bucket_ok_def)
  finally have up: "t \<le> tokens s + allowance s (now - refilled s)" by (simp add: allowance_def)
  have eq: "take_token now s =
      (if t < 1 then (False, s\<lparr>tokens := t, refilled := now\<rparr>) else (True, s\<lparr>tokens := t - 1, refilled := now\<rparr>))"
    using r exact by (simp add: take_token_def Let_def t_def [symmetric])
  show "bucket_ok (snd (take_token now s))" using ok t by (simp add: eq bucket_ok_def)
  show "refilled (snd (take_token now s)) = now" by (simp add: eq)
  show "tokens (snd (take_token now s)) + of_bool (fst (take_token now s)) \<le>
       tokens s + allowance s (now - refilled s)"
    using up by (simp add: eq)
qed

definition potential :: "('h, 'n) Forwarder \<Rightarrow> rat" where
  "potential s = of_nat (forwarded (counters s)) + tokens s"

lemma sent_potential:
  "sent s r s' b \<Longrightarrow> bucket_ok s \<Longrightarrow> bucket_ok s' \<and> refilled s' = refilled s \<and> rate s' = rate s \<and>
     capacity s' = capacity s \<and> potential s' \<le> potential s + of_bool b"
  by (auto simp: bucket_ok_def only_network_def same_setup_def potential_def elim!: sent.cases)

lemma send_potential:
  assumes ok: "bucket_ok s" and now: "refilled s \<le> now"
  shows "bucket_ok (snd (send nw limit now event s)) \<and> refilled (snd (send nw limit now event s)) = now \<and>
    rate (snd (send nw limit now event s)) = rate s \<and> capacity (snd (send nw limit now event s)) = capacity s \<and>
    potential (snd (send nw limit now event s)) \<le> potential s + allowance s (now - refilled s)"
proof -
  let ?s1 = "snd (take_token now s)"
  note t = take_token_budget [OF ok now]
  have fr: "rate ?s1 = rate s" "capacity ?s1 = capacity s" "counters ?s1 = counters s"
    using take_token_frame [where now = now and s = s] by (simp_all add: same_setup_def)
  have "potential ?s1 + of_bool (fst (take_token now s)) \<le> potential s + allowance s (now - refilled s)"
    using t(3) by (simp add: potential_def fr)
  with sent_potential [OF send_sent [of now s nw limit event] t(1)] t(2) fr show ?thesis by auto
qed

lemma count_ignored_potential [simp]: "potential (count ignored_non_event_update s) = potential s"
  by (simp add: potential_def)

lemma allowance_split:
  "rate t = rate s \<Longrightarrow> capacity t = capacity s \<Longrightarrow>
     allowance s a + ((1 + 4 * half_ulp) * (b * rate t) + of_nat n * (2 * half_ulp * capacity t)) =
     (1 + 4 * half_ulp) * ((a + b) * rate s) + of_nat (Suc n) * (2 * half_ulp * capacity s)"
  by (simp add: allowance_def algebra_simps)

lemma allowance_nonneg: "bucket_ok s \<Longrightarrow> 0 \<le> a \<Longrightarrow> 0 \<le> allowance s a"
  by (simp add: allowance_def bucket_ok_def half_ulp_def)

lemma forwarded_potential: "bucket_ok s \<Longrightarrow> of_nat (forwarded (counters s)) \<le> potential s"
  by (simp add: potential_def bucket_ok_def)

lemma run_lines_forwarded:
  assumes "bucket_ok s" "sorted (refilled s # map (\<lambda>x. fst (snd x)) lines @ [until])"
  shows "of_nat (forwarded (counters (snd (run_lines nw depths secs lines (l0, s))))) \<le>
    potential s + ((1 + 4 * half_ulp) * ((until - refilled s) * rate s) +
      of_nat (length lines) * (2 * half_ulp * capacity s))"
    (is "?after lines l0 s \<le> _ + ?gain lines s") 
  using assms
proof (induction lines arbitrary: s l0)
  case Nil
  then have "0 \<le> allowance s (until - refilled s) - 2 * half_ulp * capacity s"
    by (simp add: allowance_def bucket_ok_def half_ulp_def)
  then show ?case using forwarded_potential [OF Nil(1)] by (simp add: allowance_def)
next
  case (Cons line lines)
  obtain raw now now' where line: "line = (raw, now, now')" by (cases line) auto
  have until: "refilled s \<le> now" "now \<le> until" using Cons.prems(2) by (simp_all add: line)
  have skip: "?gain lines s \<le> ?gain (line # lines) s"
    using Cons.prems(1) by (simp add: bucket_ok_def half_ulp_def algebra_simps)
  have ignored: "?after lines l (count ignored_non_event_update s) \<le> potential s + ?gain lines s" for l
    using Cons.IH [of "count ignored_non_event_update s" l] Cons.prems by (simp add: bucket_ok_def line)
  have again: "?after lines l t' \<le> potential t + ?gain lines t"
    if "summarise secs now' (l0, t) = (l, t')" "bucket_ok t" "sorted (refilled t # map (\<lambda>x. fst (snd x)) lines @ [until])"
    for l t t'
  proof -
    note eq = summarise_frame [OF that(1)]
    have "bucket_ok t'" "refilled t' = refilled t" "potential t' = potential t" "?gain lines t' = ?gain lines t"
      using that(2) eq by (simp_all add: bucket_ok_def potential_def)
    with Cons.IH [of t' l] that(3) show ?thesis by (simp add: comp_def)
  qed
  have stop: "of_nat (forwarded (counters t)) \<le> potential s + ?gain (line # lines) s" "?after lines l t' \<le> potential s + ?gain (line # lines) s"
    if "send nw (snd depths) now event s = (r, t)" "summarise secs now' (l0, t) = (l, t')" for event r t l t'
  proof -
    from send_potential [OF Cons.prems(1) until(1), of nw "snd depths" event] that(1)
    have t: "bucket_ok t" "refilled t = now" "rate t = rate s" "capacity t = capacity s"
      "potential t \<le> potential s + allowance s (now - refilled s)" by simp_all
    have gain: "allowance s (now - refilled s) + ?gain lines t = ?gain (line # lines) s"
      using allowance_split [OF t(3,4), of "now - refilled s" "until - now" "length lines"] t(2) by simp
    have "0 \<le> ?gain lines t" using t until by (simp add: bucket_ok_def half_ulp_def)
    with t(5) gain forwarded_potential [OF t(1)]
    show "of_nat (forwarded (counters t)) \<le> potential s + ?gain (line # lines) s" by linarith
    have "?after lines l t' \<le> potential t + ?gain lines t"
      by (rule again [OF that(2) t(1)]) (use Cons.prems(2) t(2) in \<open>simp add: line\<close>)
    with t(5) gain show "?after lines l t' \<le> potential s + ?gain (line # lines) s" by linarith
  qed
  have "0 \<le> ?gain (line # lines) s"
    using Cons.prems until by (auto simp: bucket_ok_def half_ulp_def)
  then have zero: "of_nat (forwarded (counters s)) \<le> potential s + ?gain (line # lines) s"
    using forwarded_potential [OF Cons.prems(1)] by linarith
  have none: "?after lines l t' \<le> potential s + ?gain (line # lines) s"
    if "summarise secs now' (l0, count ignored_non_event_update s) = (l, t')" for l t'
    using again [OF that] Cons.prems skip by (simp add: bucket_ok_def line)
  show ?case
  proof (cases "MAX_LINE_BYTES < length raw")
    case True
    then show ?thesis using ignored [of l0] skip unfolding line by simp
  next
    case False
    show ?thesis
    proof (cases "parse_event (fst depths) raw")
      case (Inl e)
      with False zero show ?thesis unfolding line by simp
    next
      case (Inr x)
      show ?thesis
      proof (cases x)
        case None
        with Inr False none show ?thesis
          unfolding line by (cases "summarise secs now' (l0, count ignored_non_event_update s)") simp
      next
        case (Some event)
        obtain r t where st: "send nw (snd depths) now event s = (r, t)" by (cases "send nw (snd depths) now event s")
        obtain l t' where su: "summarise secs now' (l0, t) = (l, t')"
          by (cases "summarise secs now' (l0, t)")
        from Inr Some False stop [OF st su] show ?thesis unfolding line
          by (cases r) (simp_all add: st su)
      qed
    qed
  qed
qed

end
