(* ===== verification/Forward_Claims.thy ===== *)
theory Forward_Claims
  imports Forward_Rate Telemetry_Claims Runtime_Log
begin

text \<open>
  What the forwarder promises: it recovers every event the sensor logs and passes its text on
  unchanged, answers on every line, counts every line, survives an unreachable collector, keeps the
  rate and the size limit, and stays silent in a dry run.  A line that nests too deeply stops it.
\<close>

section \<open>From the log to the collector\<close>

lemma to_dict_kind:
  obtains kvs where "to_dict e = PDict kvs" "map_of kvs ''event_type'' = Some (PStr (ev_event_type e))"
    "map_of kvs ''observed_at'' = Some (PStr (ev_observed_at e))"
    "map_of kvs ''event_id'' = Some (PStr (ev_event_id e))"
  by (simp add: to_dict_def)

lemma create_type: "ev_event_type (fst (create env t f fac)) = ''modbus_transaction''"
  by (simp add: create_def event_fields.defs ProtocolEvent.defs Let_def)

lemma field_text_str: "map_of event k = Some (PStr s) \<Longrightarrow> \<exists>u. field_text event k = Inr u"
  by (simp add: field_text_def)

lemma format_syslog_payload:
  assumes "json_dumps (PDict event) = Inr payload" and "nests_within limit (PDict event)"
    and "map_of event ''observed_at'' = Some (PStr a)" "map_of event ''event_id'' = Some (PStr b)"
  shows "\<exists>header. format_syslog limit event hostname app_name facility = Inr (utf8 (header @ payload))"
proof -
  obtain u v where u: "field_text event ''observed_at'' = Inr u" and v: "field_text event ''event_id'' = Inr v"
    using field_text_str [OF assms(3)] field_text_str [OF assms(4)] by auto
  have "dumps_within limit (PDict event) = Inr payload" using assms(1,2) by (simp add: dumps_within_def)
  note dumps = this
  show ?thesis
    unfolding format_syslog_def u v dumps bindE_simps Let_def by (rule exI) (rule refl)
qed

text \<open>C6: Every event the factory creates and the sensor logs, whatever time stamp the log line starts
  with, is found again by the forwarder with all its values, and the syslog message it becomes ends
  with the JSON text exactly as it was logged.  The event has to nest within what the interpreter's
  recursion limit leaves \<open>json.loads\<close> and \<open>json.dumps\<close>.\<close>

theorem logged_events_reach_collector:
  assumes p: "CHR ''s'' \<notin> set asctime" "newline \<notin> set asctime"
    and e: "e = fst (create env t f fac)"
    and log: "log_event asctime e out = (out @ [line], None)" and load: "loadable depth (to_dict e)" and nest: "nests_within limit (to_dict e)"
  shows "\<exists>event header payload. to_json e = Inr payload \<and>
    parse_event depth (line @ [newline]) = Inr (Some event) \<and>
    PDict event = sorted_value (to_dict e) \<and>
    format_syslog limit event hostname app_name facility = Inr (utf8 (header @ payload))"
proof -
  obtain payload where json: "to_json e = Inr payload"
    and line: "line = (asctime @ '' INFO '') @ ''simpleics_pot.event '' @ payload"
    using log by (auto simp: log_event_def log_line_def split: sum.splits)
  have stamp: "CHR ''s'' \<notin> set (asctime @ '' INFO '')" "newline \<notin> set (asctime @ '' INFO '')"
    using p by simp_all
  obtain kvs where kvs: "to_dict e = PDict kvs" and ty: "map_of kvs ''event_type'' = Some (PStr (ev_event_type e))"
    and ob: "map_of kvs ''observed_at'' = Some (PStr (ev_observed_at e))"
    and id: "map_of kvs ''event_id'' = Some (PStr (ev_event_id e))"
    by (rule to_dict_kind)
  let ?event = "sort_key fst (map (\<lambda>(k, v). (k, sorted_value v)) kvs)"
  have sorted: "sorted_value (to_dict e) = PDict ?event" by (simp add: kvs)
  have "distinct (map fst (map (\<lambda>(k, v). (k, sorted_value v)) kvs))"
    using load by (simp add: kvs comp_def case_prod_unfold)
  then have look: "map_of ?event k = map_option sorted_value (map_of kvs k)" for k
    by (simp add: map_of_sort_key map_of_map)
  have dumps: "json_dumps (PDict kvs) = Inr payload" using json by (simp only: to_json_def kvs)
  have "parse_event depth (line @ [newline]) = Inr (Some ?event)"
    using parse_event_logged [OF dumps load [unfolded kvs] _ stamp] ty by (simp add: e create_type line)
  moreover have "nests_within limit (PDict ?event)"
    using nest nests_sorted_value [of limit "to_dict e"] by (simp only: sorted)
  then have "\<exists>header. format_syslog limit ?event hostname app_name facility = Inr (utf8 (header @ payload))"
    using json_dumps_sorted_value [OF dumps] look ob id
    by (intro format_syslog_payload) (simp_all add: kvs del: nests_within.simps)
  ultimately show ?thesis using sorted json by auto
qed

definition sample_event :: ProtocolEvent where
  "sample_event = fst (create sample_environment None (fields_of 7 3 ''read'' None 0 1) EventFactory_init)"

theorem logged_events_reach_collector_witness:
  "\<exists>line event. log_event ''2026'' sample_event [] = ([line], None) \<and>
     parse_event 2 (line @ [newline]) = Inr (Some event) \<and> PDict event = sorted_value (to_dict sample_event)"
proof -
  have "float_free (to_dict sample_event)"
    by (simp add: sample_event_def to_dict_def create_def Let_def event_fields.defs ProtocolEvent.defs
        fields_of_def py_option_def)
  from json_dumps_total [OF this] obtain payload where "to_json sample_event = Inr payload"
    by (auto simp: to_json_def isOK_iff)
  then obtain line where line: "log_event ''2026'' sample_event [] = ([] @ [line], None)"
    by (simp add: log_event_def)
  have "loadable 2 (to_dict sample_event)"
    by (simp add: sample_event_def to_dict_def create_def Let_def event_fields.defs ProtocolEvent.defs
        fields_of_def py_option_def EventFactory_init_def int_sized_small)
  moreover have "nests_within 2 (to_dict sample_event)"
    by (simp add: sample_event_def to_dict_def create_def Let_def event_fields.defs ProtocolEvent.defs
        fields_of_def py_option_def EventFactory_init_def list_all_iff)
  ultimately have nests: "loadable 2 (to_dict sample_event)" "nests_within 2 (to_dict sample_event)" by simp_all
  from logged_events_reach_collector [OF _ _ sample_event_def line nests, of "''pot''" "''pot''" 16] line
  show ?thesis by (auto)
qed

section \<open>Counting\<close>

lemma handled_init: "handled (Counters_init now) = 0"
  by (simp add: handled_def Counters_init_def)

text \<open>C29: A run that ends accounts for every line of its input exactly once: forwarded, dropped for
  one of three reasons, or ignored.\<close>

theorem every_line_counted:
  assumes "run nw depths args readings source n = (Inr r, s)"
  shows "forwarded (counters s) + dropped_unreachable (counters s) + dropped_oversized (counters s) +
    dropped_rate_limited (counters s) + ignored_non_event (counters s) = length source"
proof -
  obtain t1 t2 t3 where "readings = (t1, t2, t3)" by (cases readings) auto
  with assms have "handled (counters s) = length source"
    by (auto simp: run_def Forwarder_init_def Let_def handled_init split: prod.splits option.splits
        dest!: run_lines_handled)
  then show ?thesis by (simp add: handled_def)
qed

definition sample_arguments :: arguments where
  "sample_arguments = \<lparr>arg_host = Some ''10.0.0.5'', arg_port = 514, arg_protocol = ''udp'',
     arg_hostname = ''pot'', arg_app_name = ''simpleics-pot'', arg_facility = 16,
     arg_max_events_per_second = 200, arg_dry_run = False, arg_summary_seconds = 60\<rparr>"

text \<open>A network that records the length of every message, and one that refuses every connection.\<close>

definition recording_network :: "(unit, nat list) network" where
  "recording_network = \<lparr>new_socket = (\<lambda>k n. (Inr (), n)), set_timeout = (\<lambda>h t n. n),
     connect_socket = (\<lambda>h a n. (Inr (), n)), send_to = (\<lambda>h d a n. (Inr (), length d # n)),
     send_all = (\<lambda>h d n. (Inr (), length d # n)), close_socket = (\<lambda>h n. (Inr (), n))\<rparr>"

definition refusing_network :: "(unit, nat list) network" where
  "refusing_network = recording_network\<lparr>connect_socket := (\<lambda>h a n. (Inl OSError, n)),
     send_to := (\<lambda>h d a n. (Inl OSError, n))\<rparr>"

lemma banner_ignored: "parse_event depth ''banner'' = Inr None"
  by (simp add: parse_event_def event_line_def strip_def rstrip_def object_at_def after_logger_def
      py_space_def starts_def Let_def)

theorem every_line_counted_witness:
  "ignored_non_event (counters (snd (run recording_network (9, 9) sample_arguments (0, 0, 0) [(''banner'', 1, 2)] []))) = 1"
proof -
  have "run recording_network (9, 9) sample_arguments (0, 0, 0) [(''banner'', 1, 2)] [] =
      (Inr 0, snd (run recording_network (9, 9) sample_arguments (0, 0, 0) [(''banner'', 1, 2)] []))"
    by (simp add: run_def banner_ignored summarise_def MAX_LINE_BYTES_def sample_arguments_def Let_def split: prod.split)
  from every_line_counted [OF this] show ?thesis
    by (simp add: run_def banner_ignored summarise_def MAX_LINE_BYTES_def sample_arguments_def Let_def
        Forwarder_init_def Counters_init_def count_def report_def split: prod.split)
qed

section \<open>Errors\<close>

text \<open>C25: On every line that opens no more containers than \<open>json.loads\<close> can follow, and denotes no
  character beyond the model's, \<open>parse_event\<close> returns and never raises, malformed JSON included; it
  gives an event exactly when the line matches the pattern and its object decodes to a dictionary
  whose event type is a Modbus transaction, and then that dictionary.\<close>

theorem every_line_parses:
  assumes "opens line \<le> depth" "\<not> wide_escape line"
  shows "\<exists>r. parse_event depth line = Inr r \<and>
    (\<forall>event. r = Some event \<longleftrightarrow>
      (\<exists>g. event_line (strip line) = Some g \<and> loads depth g = Inr (PDict event) \<and>
        map_of event ''event_type'' = Some (PStr ''modbus_transaction'')))"
proof (cases "parse_event depth line")
  case (Inl e)
  with parse_event_error [OF Inl] assms show ?thesis by simp
next
  case (Inr r)
  then have "r = Some event \<longleftrightarrow> (\<exists>g. event_line (strip line) = Some g \<and> loads depth g = Inr (PDict event) \<and>
      map_of event ''event_type'' = Some (PStr ''modbus_transaction''))" for event
    by (auto simp: parse_event_def split: option.splits sum.splits exn.splits pyval.splits if_splits)
  with Inr show ?thesis by blast
qed

text \<open>A line with braces that is no JSON.\<close>

lemma malformed_line: "event_line (strip ''{x}'') = Some ''{x}''" "loads 9 ''{x}'' = Inl (ValueError m) \<longleftrightarrow>
    m = ''Expecting property name enclosed in double quotes''" "isOK (loads 9 ''{x}'') = False"
  by (auto simp: event_line_def strip_def rstrip_def object_at_def after_logger_def py_space_def starts_def Let_def
      loads_def scan_fuel_def skip_ws_def json_space_def numeral_eq_Suc)

theorem every_line_parses_witness: "parse_event 9 ''{x}'' = Inr None"
proof -
  have "\<exists>r. parse_event 9 ''{x}'' = Inr r \<and>
    (\<forall>event. r = Some event \<longleftrightarrow>
      (\<exists>g. event_line (strip ''{x}'') = Some g \<and> loads 9 g = Inr (PDict event) \<and>
        map_of event ''event_type'' = Some (PStr ''modbus_transaction'')))"
    by (rule every_line_parses) (simp_all add: opens_def)
  then obtain r where r: "parse_event 9 ''{x}'' = Inr r" and "r \<noteq> Some event" for event
    using malformed_line by (auto simp: isOK_iff)
  then show ?thesis by (cases r) auto
qed

text \<open>C15: A forwarder with a usable collector address, a host in ASCII and a port from 0 to 65535, over
  sockets that fail as the library documents, reads its whole input and returns 0, however often
  and at whatever call the network fails, as long as every line within the length limit opens no
  more containers than the interpreter follows, denotes no character beyond the model's, and an
  event in it holds no float and only plain values as its time and identifier.\<close>

theorem forwarder_survives:
  assumes "socket_errors nw"
    and "usable_address (case arg_host args of None \<Rightarrow> [] | Some h \<Rightarrow> h, arg_port args)"
    and "\<And>raw a b. (raw, a, b) \<in> set source \<Longrightarrow> tame_line depths raw"
  shows "fst (run nw depths args readings source n) = Inr 0"
proof -
  obtain t1 t2 t3 where r: "readings = (t1, t2, t3)" by (cases readings) auto
  let ?s = "Forwarder_init (case arg_host args of None \<Rightarrow> [] | Some h \<Rightarrow> h) (arg_port args) (arg_protocol args)
    (arg_hostname args) (arg_app_name args) (arg_facility args) (arg_max_events_per_second args)
    (Counters_init t1) (arg_dry_run args) t2 n"
  have "fst (run_lines nw depths (arg_summary_seconds args) source (t3, ?s)) = None"
    by (rule run_lines_ends [OF assms(1)])
      (use assms(2,3) in \<open>auto simp: list_all_iff Forwarder_init_def Let_def\<close>)
  then show ?thesis by (auto simp: run_def r Let_def split: prod.split option.split)
qed

lemma refusing_errors: "socket_errors refusing_network"
  by (simp add: socket_errors_def refusing_network_def recording_network_def)

definition short_event :: event where
  "short_event = [(''event_type'', PStr ''modbus_transaction'')]"

definition short_line :: string where
  "short_line = [] @ ''simpleics_pot.event '' @ ''{\"event_type\":\"modbus_transaction\"}'' @ [newline]"

lemma short_line_event: "parse_event 9 short_line = Inr (Some short_event)"
proof -
  have "json_dumps (PDict short_event) = Inr ''{\"event_type\":\"modbus_transaction\"}''"
    by (simp add: short_event_def json_string_def json_char_def)
  from parse_event_logged [OF this, of 9 "[]"] show ?thesis
    by (simp add: short_line_def) (simp add: short_event_def)
qed

lemma short_line_tame: "tame_line (9, 9) short_line"
proof -
  have "plain_event short_event" by (simp add: plain_event_def short_event_def field_text_def)
  moreover have "\<not> wide_escape short_line" "opens short_line \<le> 9"
    by (simp_all add: short_line_def opens_def)
  ultimately show ?thesis by (simp add: tame_line_def short_line_event)
qed

lemma banner_tame: "tame_line depths ''banner''"
  by (simp add: tame_line_def banner_ignored opens_def)

theorem forwarder_survives_witness:
  "fst (run refusing_network (9, 9) sample_arguments (0, 0, 0) [(short_line, 1, 2), (''banner'', 3, 4)] []) = Inr 0"
  by (rule forwarder_survives [OF refusing_errors])
    (auto simp: usable_address_def sample_arguments_def short_line_tame banner_tame)

text \<open>A line that is an opening of an object whose value nests deeper than the interpreter follows.\<close>

definition deep_line :: "nat \<Rightarrow> string" where
  "deep_line depth = ''{\"a\":'' @ replicate depth (CHR ''['') @ ''}''"

lemma deep_line_object: "object_text (deep_line depth)"
  by (simp add: object_text_def deep_line_def)

lemma scan_deep_object:
  "scan_once (scan_fuel (deep_line depth)) depth (deep_line depth) = Inl recursion_error"
proof (cases depth)
  case 0
  obtain m where "scan_fuel (deep_line 0) = Suc m" by (simp add: scan_fuel_def)
  then show ?thesis unfolding 0 by (simp only: scan_once.simps) (simp add: deep_line_def)
next
  case (Suc d)
  define rest where "rest = replicate depth (CHR ''['') @ ''}''"
  define m where "m = 2 * depth + 11"
  have fuel: "scan_fuel (deep_line depth) = Suc (Suc m)"
    by (simp add: scan_fuel_def deep_line_def m_def)
  have key: "scanstring (CHR ''a'' # CHR 0x22 # CHR '':'' # rest) = Inr (''a'', CHR '':'' # rest)"
    by (simp add: scanstring.simps(2) push_char_def)
  have val: "scan_once m d rest = Inl recursion_error"
    unfolding rest_def by (rule scan_deep) (simp_all add: Suc m_def)
  have skip: "skip_ws rest = rest" by (simp add: rest_def Suc skip_ws_def json_space_def)
  have line: "deep_line depth = CHR ''{'' # CHR 0x22 # CHR ''a'' # CHR 0x22 # CHR '':'' # rest"
    by (simp add: deep_line_def rest_def)
  show ?thesis unfolding line fuel [unfolded line] by (simp add: key val skip Suc)
qed

lemma deep_line_raises: "parse_event depth (deep_line depth @ [newline]) = Inl recursion_error"
proof -
  have obj: "rstrip (deep_line depth) = deep_line depth"
    using rstrip_object [OF deep_line_object, of "[]"] by simp
  obtain u where u: "deep_line depth = CHR ''{'' # u" by (simp add: deep_line_def)
  have "strip (deep_line depth @ [newline]) = rstrip (deep_line depth @ [newline])"
    by (simp add: strip_def u brace_solid)
  then have strip: "strip (deep_line depth @ [newline]) = deep_line depth"
    by (simp only: rstrip_space [OF brace_solid(4)] obj)
  have plain: "find_prefixed t = None" if "CHR ''s'' \<notin> set t" for t
    using that by (induction t) (auto simp: after_logger_other)
  have "event_line (deep_line depth) = Some (deep_line depth)"
    using plain [of "deep_line depth"] object_at_text [OF deep_line_object]
    by (auto simp: event_line_def deep_line_def split: option.splits)
  moreover have "loads depth (deep_line depth) = Inl recursion_error"
    using scan_deep_object [of depth] u by (simp add: loads_def skip_ws_def json_space_def)
  ultimately show ?thesis by (simp add: parse_event_def strip)
qed

text \<open>C38: For every recursion limit the length limit leaves room for, one line of nested brackets
  stops the forwarder with a \<open>RecursionError\<close>, whatever the network, the options and the lines
  behind it: \<open>parse_event\<close> catches only \<open>ValueError\<close>.\<close>

theorem deep_line_stops_forwarder:
  assumes "fst depths \<le> 65000"
  shows "\<exists>raw. length raw \<le> MAX_LINE_BYTES \<and>
    (\<forall>nw args readings rest. fst (run nw depths args readings ((raw, a, b) # rest) n) = Inl recursion_error)"
proof (intro exI conjI allI)
  show "length (deep_line (fst depths) @ [newline]) \<le> MAX_LINE_BYTES"
    using assms by (simp add: deep_line_def MAX_LINE_BYTES_def)
  then show "fst (run nw depths args readings ((deep_line (fst depths) @ [newline], a, b) # rest) n) = Inl recursion_error"
    for nw args readings rest
    by (simp add: run_def Let_def deep_line_raises split: prod.split)
qed

theorem deep_line_stops_forwarder_witness:
  "\<exists>raw. length raw \<le> MAX_LINE_BYTES \<and>
     fst (run recording_network (1000, 1000) sample_arguments (0, 0, 0) ((raw, 1, 1) # []) []) = Inl recursion_error"
proof -
  have "\<exists>raw. length raw \<le> MAX_LINE_BYTES \<and>
      (\<forall>(nw :: (unit, nat list) network) args readings rest.
         fst (run nw (1000, 1000) args readings ((raw, 1, 1) # rest) []) = Inl recursion_error)"
    by (rule deep_line_stops_forwarder) simp
  then show ?thesis by blast
qed

section \<open>Limits\<close>

text \<open>C11: The rate limit holds over every run and in floating point: with the clock readings in
  order, the events forwarded are at most one bucket plus the rate times the elapsed time, up to
  the stated rounding errors.\<close>

theorem forwarded_within_rate:
  fixes nw :: "('h, 'n) network"
  assumes "0 < arg_max_events_per_second args" "arg_max_events_per_second args \<le> 2 ^ 53"
    and "is_f64 (arg_max_events_per_second args)"
    and "sorted (t_bucket # map (\<lambda>x. fst (snd x)) source @ [until])"
  shows "of_nat (forwarded (counters (snd (run nw depths args (t_counters, t_bucket, t_summary) source n)))) \<le>
    max 1 (arg_max_events_per_second args) * (1 + of_nat (length source) / 2 ^ 52) +
    (1 + 1 / 2 ^ 51) * ((until - t_bucket) * arg_max_events_per_second args)"
proof -
  define s where "s = (Forwarder_init (case arg_host args of None \<Rightarrow> [] | Some h \<Rightarrow> h) (arg_port args)
            (arg_protocol args) (arg_hostname args) (arg_app_name args) (arg_facility args)
            (arg_max_events_per_second args) (Counters_init t_counters) (arg_dry_run args) t_bucket n :: ('h, 'n) Forwarder)"
  let ?s' = "snd (run_lines nw depths (arg_summary_seconds args) source (t_summary, s))"
  have s: "rate s = arg_max_events_per_second args" "capacity s = max 1 (arg_max_events_per_second args)"
    "tokens s = capacity s" "refilled s = t_bucket" "forwarded (counters s) = 0"
    using assms(1) by (simp_all add: s_def Forwarder_init_def Counters_init_def Let_def)
  have one: "is_f64 1" using is_f64_of_int [of 1] by simp
  have ok: "bucket_ok s"
    using assms one by (simp add: bucket_ok_def s max_def)
  have "of_nat (forwarded (counters ?s')) \<le> potential s + ((1 + 4 * half_ulp) * ((until - refilled s) * rate s) +
      of_nat (length source) * (2 * half_ulp * capacity s))"
    by (rule run_lines_forwarded [OF ok]) (use assms(4) s in simp)
  also have "\<dots> = max 1 (arg_max_events_per_second args) * (1 + of_nat (length source) / 2 ^ 52) +
    (1 + 1 / 2 ^ 51) * ((until - t_bucket) * arg_max_events_per_second args)"
    by (simp add: potential_def s half_ulp_def algebra_simps)
  finally have "of_nat (forwarded (counters ?s')) \<le>
    max 1 (arg_max_events_per_second args) * (1 + of_nat (length source) / 2 ^ 52) +
    (1 + 1 / 2 ^ 51) * ((until - t_bucket) * arg_max_events_per_second args)" .
  moreover have "counters (snd (run nw depths args (t_counters, t_bucket, t_summary) source n)) = counters ?s'"
    by (simp add: run_def s_def [symmetric] Let_def split: prod.split option.split)
  ultimately show ?thesis by simp
qed

theorem forwarded_within_rate_witness:
  "of_nat (forwarded (counters (snd (run recording_network (9, 9) sample_arguments (0, 0, 0) [(''banner'', 1, 1)] []))))
     \<le> max 1 200 * (1 + of_nat (length [(''banner'', 1 :: rat, 1 :: rat)]) / 2 ^ 52) + (1 + 1 / 2 ^ 51) * ((2 - 0) * (200 :: rat))"
proof -
  have rate: "arg_max_events_per_second sample_arguments = 200" by (simp add: sample_arguments_def)
  show ?thesis
    using forwarded_within_rate [of sample_arguments 0 "[(''banner'', 1, 1)]" 2 recording_network "(9, 9)" 0 0 "[]"]
      is_f64_of_int [of 200] by (simp add: rate)
qed

text \<open>No message longer than the datagram limit reaches the network: whatever property of the
  network every call keeps as long as messages are within 8192 bytes, a run keeps.\<close>

theorem oversized_never_sent:
  assumes "keeps_traffic Q nw" and "Q n"
  shows "Q (net (snd (run nw depths args readings source n)))"
proof -
  obtain t1 t2 t3 where "readings = (t1, t2, t3)" by (cases readings) auto
  moreover have "Q (net (snd (run_lines nw depths secs source (l, s))))" if "net s = n" for secs l s
    using run_lines_keeps [OF assms(1)] assms(2) that by blast
  ultimately show ?thesis
    by (auto simp: run_def Let_def Forwarder_init_def split: prod.split option.split
        dest!: arg_cong [where f = snd])
qed

theorem oversized_never_sent_witness:
  "list_all (\<lambda>k. k \<le> MAX_DATAGRAM_BYTES + 1)
     (net (snd (run recording_network (9, 9) sample_arguments (0, 0, 0) [(''banner'', 1, 1)] [])))"
  by (rule oversized_never_sent) (simp_all add: keeps_traffic_def recording_network_def)

text \<open>A dry run touches no socket: the network is left exactly as it was.\<close>

theorem dry_run_sends_nothing:
  assumes "arg_dry_run args"
  shows "net (snd (run nw depths args readings source n)) = n"
proof -
  obtain t1 t2 t3 where "readings = (t1, t2, t3)" by (cases readings) auto
  moreover have "net (snd (run_lines nw depths secs source (l, s))) = n" if "net s = n" "dry_stream s" for secs l s
    using run_lines_dry [OF that(2)] that(1) by metis
  ultimately show ?thesis
    using assms by (auto simp: run_def Let_def Forwarder_init_def split: prod.split option.split
        dest!: arg_cong [where f = snd])
qed

theorem dry_run_sends_nothing_witness:
  "net (snd (run recording_network (9, 9) (sample_arguments\<lparr>arg_dry_run := True\<rparr>) (0, 0, 0)
     [(''banner'', 1, 1)] [7])) = [7]"
  by (rule dry_run_sends_nothing) simp

end
