(* ===== verification/Regex.thy ===== *)
theory Regex
  imports PyText
begin

text \<open>
  Python's \<open>re\<close>, the constructs the repository uses.  A match is found by backtracking, so the
  result of matching is the list of all ways to match in the order the engine tries them; the
  first one counts.  A cursor is the text before it, reversed, and the text from it on, so that
  anchors and look-behind see the character before the cursor.  Groups are numbered as in the
  pattern and give the text they captured last.
\<close>

section \<open>Patterns\<close>

datatype regex =
    Eps
  | Cls "char \<Rightarrow> bool"
  | Seq regex regex
  | Alt regex regex
  | Star regex
  | Lazy regex
  | Grp nat regex
  | Behind "char \<Rightarrow> bool"
  | Ahead "char \<Rightarrow> bool"
  | LineStart
  | TextEnd
  | LineEnd
  | WordEdge

text \<open>\<open>Behind p\<close> holds when there is no character before the cursor or it satisfies \<open>p\<close>: the negative
  look-behind \<open>(?<!...)\<close> and, with no character allowed, \<open>^\<close>.  \<open>LineStart\<close> and \<open>LineEnd\<close> are \<open>^\<close> and
  \<open>$\<close> under \<open>(?m)\<close>, \<open>TextEnd\<close> is \<open>$\<close> without it: at the end or before a final newline.\<close>

definition TextStart :: regex where "TextStart = Behind (\<lambda>_. False)"
definition Chr :: "char \<Rightarrow> regex" where "Chr c = Cls (\<lambda>x. x = c)"
definition Dot :: regex where "Dot = Cls (\<lambda>c. c \<noteq> newline)"
definition Space :: regex where "Space = Cls py_space"
definition Plus :: "regex \<Rightarrow> regex" where "Plus r = Seq r (Star r)"
definition Opt :: "regex \<Rightarrow> regex" where "Opt r = Alt r Eps"

fun Text :: "string \<Rightarrow> regex" where
  "Text [] = Eps"
| "Text (c # s) = Seq (Chr c) (Text s)"

fun Times :: "nat \<Rightarrow> regex \<Rightarrow> regex" where
  "Times 0 r = Eps"
| "Times (Suc n) r = Seq r (Times n r)"

text \<open>\<open>r{m,n}\<close>, greedy: \<open>UpTo k r\<close> is at most \<open>k\<close> times.\<close>

fun UpTo :: "nat \<Rightarrow> regex \<Rightarrow> regex" where
  "UpTo 0 r = Eps"
| "UpTo (Suc n) r = Opt (Seq r (UpTo n r))"

text \<open>\<open>\w\<close> on characters below 256.\<close>

definition word_char :: "char \<Rightarrow> bool" where
  "word_char c \<longleftrightarrow> (let n = of_char c :: nat in
     48 \<le> n \<and> n \<le> 57 \<or> 65 \<le> n \<and> n \<le> 90 \<or> n = 95 \<or> 97 \<le> n \<and> n \<le> 122 \<or>
     n \<in> {170, 178, 179, 181, 185, 186, 188, 189, 190} \<or>
     192 \<le> n \<and> n \<le> 214 \<or> 216 \<le> n \<and> n \<le> 246 \<or> 248 \<le> n)"

section \<open>Matching\<close>

type_synonym cursor = "string \<times> string"
type_synonym captures = "(nat \<times> string) list"

definition at_word :: "string \<Rightarrow> bool" where
  "at_word s = (case s of [] \<Rightarrow> False | c # _ \<Rightarrow> word_char c)"

text \<open>What was read between two cursors of one text.\<close>

definition between :: "cursor \<Rightarrow> cursor \<Rightarrow> string" where
  "between c c' = rev (take (length (fst c') - length (fst c)) (fst c'))"

definition test :: "bool \<Rightarrow> cursor \<Rightarrow> (cursor \<times> captures) list" where
  "test b c = (if b then [(c, [])] else [])"

text \<open>A round of a star that reads nothing ends the repetition.\<close>

function (sequential) matches :: "regex \<Rightarrow> cursor \<Rightarrow> (cursor \<times> captures) list" where
  "matches Eps c = [(c, [])]"
| "matches (Cls p) (l, []) = []"
| "matches (Cls p) (l, x # s) = (if p x then [((x # l, s), [])] else [])"
| "matches (Seq r1 r2) c =
     concat (map (\<lambda>(c1, g1). map (\<lambda>(c2, g2). (c2, g2 @ g1)) (matches r2 c1)) (matches r1 c))"
| "matches (Alt r1 r2) c = matches r1 c @ matches r2 c"
| "matches (Star r) c =
     concat (map (\<lambda>(c1, g1). map (\<lambda>(c2, g2). (c2, g2 @ g1)) (matches (Star r) c1))
       (filter (\<lambda>(c1, g1). length (snd c1) < length (snd c)) (matches r c))) @ [(c, [])]"
| "matches (Lazy r) c =
     (c, []) # concat (map (\<lambda>(c1, g1). map (\<lambda>(c2, g2). (c2, g2 @ g1)) (matches (Lazy r) c1))
       (filter (\<lambda>(c1, g1). length (snd c1) < length (snd c)) (matches r c)))"
| "matches (Grp n r) c = map (\<lambda>(c1, g1). (c1, (n, between c c1) # g1)) (matches r c)"
| "matches (Behind p) c = test (fst c = [] \<or> p (hd (fst c))) c"
| "matches (Ahead p) c = test (snd c = [] \<or> p (hd (snd c))) c"
| "matches LineStart c = test (fst c = [] \<or> hd (fst c) = newline) c"
| "matches TextEnd c = test (snd c = [] \<or> snd c = [newline]) c"
| "matches LineEnd c = test (snd c = [] \<or> hd (snd c) = newline) c"
| "matches WordEdge c = test (at_word (fst c) \<noteq> at_word (snd c)) c"
  by pat_completeness auto

termination
  by (relation "inv_image (less_than <*lex*> less_than) (\<lambda>(r, c). (size r, length (snd c)))") auto

declare matches.simps(6,7) [simp del]

text \<open>\<open>pattern.match\<close>, \<open>fullmatch\<close>, \<open>search\<close> and \<open>finditer\<close>; a scan goes on behind a match, and one
  character further behind an empty one.\<close>

definition match_at :: "regex \<Rightarrow> cursor \<Rightarrow> (cursor \<times> captures) option" where
  "match_at r c = (case matches r c of [] \<Rightarrow> None | m # _ \<Rightarrow> Some m)"

definition re_match :: "regex \<Rightarrow> string \<Rightarrow> captures option" where
  "re_match r s = map_option snd (match_at r ([], s))"

definition re_fullmatch :: "regex \<Rightarrow> string \<Rightarrow> captures option" where
  "re_fullmatch r s = map_option snd (find (\<lambda>(c, g). snd c = []) (matches r ([], s)))"

function scan :: "regex \<Rightarrow> cursor \<Rightarrow> (string \<times> captures) list" where
  "scan r (l, s) =
     (case match_at r (l, s) of
        Some (c, g) \<Rightarrow>
          if length (snd c) < length s then (between (l, s) c, g) # scan r c
          else ([], g) # (case s of [] \<Rightarrow> [] | x # s' \<Rightarrow> scan r (x # l, s'))
      | None \<Rightarrow> (case s of [] \<Rightarrow> [] | x # s' \<Rightarrow> scan r (x # l, s')))"
  by pat_completeness auto

termination
  by (relation "measure (\<lambda>(r, c). length (snd c))") auto

declare scan.simps [simp del]

definition re_finditer :: "regex \<Rightarrow> string \<Rightarrow> (string \<times> captures) list" where
  "re_finditer r s = scan r ([], s)"

definition re_search :: "regex \<Rightarrow> string \<Rightarrow> bool" where
  "re_search r s = (re_finditer r s \<noteq> [])"

definition group :: "captures \<Rightarrow> nat \<Rightarrow> string" where
  "group g n = (case map_of g n of Some s \<Rightarrow> s | None \<Rightarrow> [])"

end
