(* ===== verification/Regex_Props.thy ===== *)
theory Regex_Props
  imports Regex
begin

text \<open>
  The matcher against what a pattern means: \<open>parses r c c' g\<close> holds when the text between the
  cursors is one of the texts of the pattern, and the backtracker finds exactly these matches.
  The order only decides which of them counts.
\<close>

section \<open>What a pattern means\<close>

inductive parses :: "regex \<Rightarrow> cursor \<Rightarrow> cursor \<Rightarrow> captures \<Rightarrow> bool" where
  eps: "parses Eps c c []"
| cls: "p x \<Longrightarrow> parses (Cls p) (l, x # s) (x # l, s) []"
| seq: "parses r1 c c1 g1 \<Longrightarrow> parses r2 c1 c2 g2 \<Longrightarrow> parses (Seq r1 r2) c c2 (g2 @ g1)"
| altl: "parses r1 c c1 g1 \<Longrightarrow> parses (Alt r1 r2) c c1 g1"
| altr: "parses r2 c c1 g1 \<Longrightarrow> parses (Alt r1 r2) c c1 g1"
| star_none: "parses (Star r) c c []"
| star_more: "parses r c c1 g1 \<Longrightarrow> length (snd c1) < length (snd c) \<Longrightarrow> parses (Star r) c1 c2 g2 \<Longrightarrow>
    parses (Star r) c c2 (g2 @ g1)"
| lazy_none: "parses (Lazy r) c c []"
| lazy_more: "parses r c c1 g1 \<Longrightarrow> length (snd c1) < length (snd c) \<Longrightarrow> parses (Lazy r) c1 c2 g2 \<Longrightarrow>
    parses (Lazy r) c c2 (g2 @ g1)"
| grp: "parses r c c1 g1 \<Longrightarrow> parses (Grp n r) c c1 ((n, between c c1) # g1)"
| behind: "fst c = [] \<or> p (hd (fst c)) \<Longrightarrow> parses (Behind p) c c []"
| ahead: "snd c = [] \<or> p (hd (snd c)) \<Longrightarrow> parses (Ahead p) c c []"
| line_start: "fst c = [] \<or> hd (fst c) = newline \<Longrightarrow> parses LineStart c c []"
| text_end: "snd c = [] \<or> snd c = [newline] \<Longrightarrow> parses TextEnd c c []"
| line_end: "snd c = [] \<or> hd (snd c) = newline \<Longrightarrow> parses LineEnd c c []"
| word_edge: "at_word (fst c) \<noteq> at_word (snd c) \<Longrightarrow> parses WordEdge c c []"

inductive_simps parses_simps [simp]:
  "parses Eps c c' g" "parses (Cls p) c c' g" "parses (Seq r1 r2) c c' g" "parses (Alt r1 r2) c c' g"
  "parses (Grp n r) c c' g" "parses (Behind p) c c' g" "parses (Ahead p) c c' g" "parses LineStart c c' g"
  "parses TextEnd c c' g" "parses LineEnd c c' g" "parses WordEdge c c' g"

inductive_simps parses_Star: "parses (Star r) c c' g"
inductive_simps parses_Lazy: "parses (Lazy r) c c' g"

lemma set_test: "m \<in> set (test b c) \<longleftrightarrow> b \<and> m = (c, [])"
  by (auto simp: test_def)

lemma set_andThen:
  "(c2, g) \<in> set (concat (map (\<lambda>(c1, g1). map (\<lambda>(c2, g2). (c2, g2 @ g1)) (f c1)) xs)) \<longleftrightarrow>
     (\<exists>c1 g1 g2. (c1, g1) \<in> set xs \<and> (c2, g2) \<in> set (f c1) \<and> g = g2 @ g1)"
  by force

lemma set_again:
  assumes "\<And>c1 g1. (c1, g1) \<in> set xs \<longleftrightarrow> P c1 g1"
    "\<And>c1 g1 c2 g2. P c1 g1 \<Longrightarrow> length (snd c1) < n \<Longrightarrow> (c2, g2) \<in> set (f c1) \<longleftrightarrow> Q c1 c2 g2"
  shows "(c2, g) \<in> set (concat (map (\<lambda>(c1, g1). map (\<lambda>(c2, g2). (c2, g2 @ g1)) (f c1))
      (filter (\<lambda>(c1, g1). length (snd c1) < n) xs))) \<longleftrightarrow>
    (\<exists>c1 g1 g2. P c1 g1 \<and> length (snd c1) < n \<and> Q c1 c2 g2 \<and> g = g2 @ g1)"
  unfolding set_andThen set_filter mem_Collect_eq prod.case assms(1) using assms(2) by blast

theorem matches_parses: "(c', g) \<in> set (matches r c) \<longleftrightarrow> parses r c c' g"
proof (induction r c arbitrary: c' g rule: matches.induct)
  case (4 r1 r2 c)
  have IH: "parses r1 c c1 g1 \<Longrightarrow> (c2, g2) \<in> set (matches r2 c1) \<longleftrightarrow> parses r2 c1 c2 g2" for c1 g1 c2 g2
    using 4(2) [of "(c1, g1)"] by (simp add: 4(1))
  have "(\<exists>c1 g1 g2. parses r1 c c1 g1 \<and> (c', g2) \<in> set (matches r2 c1) \<and> g = g2 @ g1) \<longleftrightarrow>
      (\<exists>c1 g1 g2. parses r1 c c1 g1 \<and> parses r2 c1 c' g2 \<and> g = g2 @ g1)"
    using IH by blast
  then show ?case unfolding matches.simps(4) set_andThen 4(1) by (auto simp only: parses_simps)
next
  case (6 r c)
  have IH: "parses r c c1 g1 \<Longrightarrow> length (snd c1) < length (snd c) \<Longrightarrow>
      (c2, g2) \<in> set (matches (Star r) c1) \<longleftrightarrow> parses (Star r) c1 c2 g2" for c1 g1 c2 g2
    using 6(2) [of "(c1, g1)"] by (simp add: 6(1))
  have "(c', g) \<in> set (concat (map (\<lambda>(c1, g1). map (\<lambda>(c2, g2). (c2, g2 @ g1)) (matches (Star r) c1))
       (filter (\<lambda>(c1, g1). length (snd c1) < length (snd c)) (matches r c)))) \<longleftrightarrow>
      (\<exists>c1 g1 g2. parses r c c1 g1 \<and> length (snd c1) < length (snd c) \<and> parses (Star r) c1 c' g2 \<and> g = g2 @ g1)"
    by (rule set_again [OF 6(1)]) (rule IH)
  then have "(c', g) \<in> set (matches (Star r) c) \<longleftrightarrow> c' = c \<and> g = [] \<or>
      (\<exists>c1 g1 g2. parses r c c1 g1 \<and> length (snd c1) < length (snd c) \<and> parses (Star r) c1 c' g2 \<and> g = g2 @ g1)"
    unfolding matches.simps(6) [of r c] by auto
  then show ?case unfolding parses_Star [of r c] by (simp, blast)
next
  case (7 r c)
  have IH: "parses r c c1 g1 \<Longrightarrow> length (snd c1) < length (snd c) \<Longrightarrow>
      (c2, g2) \<in> set (matches (Lazy r) c1) \<longleftrightarrow> parses (Lazy r) c1 c2 g2" for c1 g1 c2 g2
    using 7(2) [of "(c1, g1)"] by (simp add: 7(1))
  have "(c', g) \<in> set (concat (map (\<lambda>(c1, g1). map (\<lambda>(c2, g2). (c2, g2 @ g1)) (matches (Lazy r) c1))
       (filter (\<lambda>(c1, g1). length (snd c1) < length (snd c)) (matches r c)))) \<longleftrightarrow>
      (\<exists>c1 g1 g2. parses r c c1 g1 \<and> length (snd c1) < length (snd c) \<and> parses (Lazy r) c1 c' g2 \<and> g = g2 @ g1)"
    by (rule set_again [OF 7(1)]) (rule IH)
  then have "(c', g) \<in> set (matches (Lazy r) c) \<longleftrightarrow> c' = c \<and> g = [] \<or>
      (\<exists>c1 g1 g2. parses r c c1 g1 \<and> length (snd c1) < length (snd c) \<and> parses (Lazy r) c1 c' g2 \<and> g = g2 @ g1)"
    unfolding matches.simps(7) [of r c] by auto
  then show ?case unfolding parses_Lazy [of r c] by (simp, blast)
next
  case (8 n r c)
  have "(c', g) \<in> set (matches (Grp n r) c) \<longleftrightarrow> (\<exists>g1. (c', g1) \<in> set (matches r c) \<and> g = (n, between c c') # g1)"
    by force
  then show ?case unfolding parses_simps 8 by blast
qed (auto simp: set_test)
section \<open>Texts instead of cursors\<close>

text \<open>\<open>spans r l w s g\<close>: with \<open>l\<close> before it, reversed, and \<open>s\<close> behind it, \<open>r\<close> matches the text \<open>w\<close>.\<close>

definition spans :: "regex \<Rightarrow> string \<Rightarrow> string \<Rightarrow> string \<Rightarrow> captures \<Rightarrow> bool" where
  "spans r l w s g \<longleftrightarrow> parses r (l, w @ s) (rev w @ l, s) g"

lemma between_read [simp]: "between (l, w @ s) (rev w @ l, s) = w"
  by (simp add: between_def)

lemma parses_reads: "parses r c c' g \<Longrightarrow> \<exists>w. fst c' = rev w @ fst c \<and> snd c = w @ snd c'"
proof (induction rule: parses.induct)
  case (seq r1 c c1 g1 r2 c2 g2)
  then obtain u v where "fst c1 = rev u @ fst c" "snd c = u @ snd c1" "fst c2 = rev v @ fst c1" "snd c1 = v @ snd c2"
    by blast
  then show ?case by (intro exI [of _ "u @ v"]) simp
next
  case (star_more r c c1 g1 c2 g2)
  then obtain u v where "fst c1 = rev u @ fst c" "snd c = u @ snd c1" "fst c2 = rev v @ fst c1" "snd c1 = v @ snd c2"
    by blast
  then show ?case by (intro exI [of _ "u @ v"]) simp
next
  case (lazy_more r c c1 g1 c2 g2)
  then obtain u v where "fst c1 = rev u @ fst c" "snd c = u @ snd c1" "fst c2 = rev v @ fst c1" "snd c1 = v @ snd c2"
    by blast
  then show ?case by (intro exI [of _ "u @ v"]) simp
qed (auto intro: exI [of _ "[]"] exI [of _ "[_]"])

lemma parses_shrinks: "parses r c c' g \<Longrightarrow> length (snd c') \<le> length (snd c)"
  by (drule parses_reads) auto

lemma parses_spans: "parses r (l, t) c' g \<longleftrightarrow> (\<exists>w s. t = w @ s \<and> c' = (rev w @ l, s) \<and> spans r l w s g)"
proof
  assume p: "parses r (l, t) c' g"
  obtain w where "fst c' = rev w @ l" "t = w @ snd c'" using parses_reads [OF p] by auto
  with p show "\<exists>w s. t = w @ s \<and> c' = (rev w @ l, s) \<and> spans r l w s g"
    by (intro exI [of _ w] exI [of _ "snd c'"]) (cases c', simp add: spans_def)
qed (auto simp: spans_def)

lemma spans_Eps [simp]: "spans Eps l w s g \<longleftrightarrow> w = [] \<and> g = []"
  by (auto simp: spans_def)

lemma spans_Cls [simp]: "spans (Cls p) l w s g \<longleftrightarrow> (\<exists>x. w = [x] \<and> p x) \<and> g = []"
  by (auto simp: spans_def)

lemma spans_Alt [simp]: "spans (Alt r1 r2) l w s g \<longleftrightarrow> spans r1 l w s g \<or> spans r2 l w s g"
  by (simp add: spans_def)

lemma spans_Seq:
  "spans (Seq r1 r2) l w s g \<longleftrightarrow>
     (\<exists>u v g1 g2. w = u @ v \<and> g = g2 @ g1 \<and> spans r1 l u (v @ s) g1 \<and> spans r2 (rev u @ l) v s g2)"
proof
  assume "spans (Seq r1 r2) l w s g"
  then obtain c1 g1 g2 where p: "parses r1 (l, w @ s) c1 g1" "parses r2 c1 (rev w @ l, s) g2" and g: "g = g2 @ g1"
    by (auto simp: spans_def)
  obtain u where u: "fst c1 = rev u @ l" "w @ s = u @ snd c1" using parses_reads [OF p(1)] by auto
  obtain v where v: "snd c1 = v @ s" using parses_reads [OF p(2)] by auto
  have w: "w = u @ v" using u(2) v by simp
  have "c1 = (rev u @ l, v @ s)" using u(1) v by (cases c1) simp
  with p g w show "\<exists>u v g1 g2. w = u @ v \<and> g = g2 @ g1 \<and> spans r1 l u (v @ s) g1 \<and> spans r2 (rev u @ l) v s g2"
    by (auto simp: spans_def)
qed (auto simp: spans_def simp del: parses_simps intro: parses.seq)

lemma spans_SeqI: "spans r1 l u (v @ s) g1 \<Longrightarrow> spans r2 (rev u @ l) v s g2 \<Longrightarrow> spans (Seq r1 r2) l (u @ v) s (g2 @ g1)"
  by (auto simp: spans_Seq)

lemma spans_plain_SeqI: "spans r1 l u (v @ s) [] \<Longrightarrow> spans r2 (rev u @ l) v s [] \<Longrightarrow> spans (Seq r1 r2) l (u @ v) s []"
  using spans_SeqI [where ?g1.0 = "[]" and ?g2.0 = "[]"] by simp

lemma spans_Grp [simp]:
  "spans (Grp n r) l w s g \<longleftrightarrow> (\<exists>g1. g = (n, w) # g1 \<and> spans r l w s g1)"
  by (auto simp: spans_def)

lemma spans_Star_Cls [simp]: "spans (Star (Cls p)) l w s g \<longleftrightarrow> list_all p w \<and> g = []"
proof (induction w arbitrary: l g)
  case Nil
  show ?case unfolding spans_def by (subst parses_Star) (auto dest: parses_shrinks)
next
  case (Cons x w)
  show ?case using Cons unfolding spans_def by (subst parses_Star) auto
qed

lemma spans_Plus_Cls [simp]: "spans (Plus (Cls p)) l w s g \<longleftrightarrow> w \<noteq> [] \<and> list_all p w \<and> g = []"
proof
  assume "w \<noteq> [] \<and> list_all p w \<and> g = []"
  then obtain a v where "w = [a] @ v" "p a" "list_all p v" "g = []" by (cases w) auto
  then show "spans (Plus (Cls p)) l w s g"
    unfolding Plus_def spans_Seq spans_Cls spans_Star_Cls by blast
qed (auto simp: Plus_def spans_Seq)

lemma spans_tests [simp]:
  "spans (Behind p) l w s g \<longleftrightarrow> w = [] \<and> g = [] \<and> (l = [] \<or> p (hd l))"
  "spans (Ahead p) l w s g \<longleftrightarrow> w = [] \<and> g = [] \<and> (s = [] \<or> p (hd s))"
  "spans LineStart l w s g \<longleftrightarrow> w = [] \<and> g = [] \<and> (l = [] \<or> hd l = newline)"
  "spans TextEnd l w s g \<longleftrightarrow> w = [] \<and> g = [] \<and> (s = [] \<or> s = [newline])"
  "spans LineEnd l w s g \<longleftrightarrow> w = [] \<and> g = [] \<and> (s = [] \<or> hd s = newline)"
  "spans WordEdge l w s g \<longleftrightarrow> w = [] \<and> g = [] \<and> at_word l \<noteq> at_word s"
  by (auto simp: spans_def)
section \<open>Scanning\<close>

lemma match_at_spans:
  assumes "match_at r (l, s) = Some (c, g)"
  obtains w where "s = w @ snd c" "c = (rev w @ l, snd c)" "spans r l w (snd c) g" "between (l, s) c = w"
proof -
  have "(c, g) \<in> set (matches r (l, s))" using assms by (auto simp: match_at_def split: list.splits)
  then obtain w t where "s = w @ t" "c = (rev w @ l, t)" "spans r l w t g"
    by (auto simp: matches_parses parses_spans)
  then show ?thesis using that [of w] by simp
qed

lemma match_at_None: "match_at r (l, s) = None \<longleftrightarrow> (\<forall>w t g. s = w @ t \<longrightarrow> \<not> spans r l w t g)"
proof -
  have "match_at r (l, s) = None \<longleftrightarrow> (\<forall>c g. (c, g) \<notin> set (matches r (l, s)))"
    by (cases "matches r (l, s)") (auto simp: match_at_def)
  then show ?thesis by (auto simp: matches_parses parses_spans)
qed

text \<open>What a scan reports is a match at some place of the text.\<close>

lemma scan_sound:
  "(w, g) \<in> set (scan r (l, s)) \<Longrightarrow> \<exists>u v. s = u @ w @ v \<and> spans r (rev u @ l) w v g"
proof (induction "length s" arbitrary: l s rule: less_induct)
  case less
  have later: "\<exists>u v. s = u @ w @ v \<and> spans r (rev u @ l) w v g"
    if "(w, g) \<in> set (case s of [] \<Rightarrow> [] | x # s' \<Rightarrow> scan r (x # l, s'))"
  proof (cases s)
    case (Cons x s')
    with that obtain u v where "s' = u @ w @ v" "spans r (rev u @ x # l) w v g"
      using less.hyps [of s' "x # l"] by auto
    with Cons show ?thesis by (intro exI [of _ "x # u"] exI [of _ v]) simp
  qed (use that in simp)
  show ?case
  proof (cases "match_at r (l, s)")
    case None
    with less.prems later show ?thesis by (subst (asm) scan.simps) simp
  next
    case (Some m)
    obtain c h where m: "m = (c, h)" by (cases m)
    obtain w' where w': "s = w' @ snd c" "c = (rev w' @ l, snd c)" "spans r l w' (snd c) h" "between (l, s) c = w'"
      using match_at_spans Some m by blast
    show ?thesis
    proof (cases "length (snd c) < length s")
      case True
      then have "(w, g) = (w', h) \<or> (w, g) \<in> set (scan r c)"
        using less.prems w'(4) by (subst (asm) scan.simps) (simp add: Some m)
      then show ?thesis
      proof
        assume "(w, g) = (w', h)"
        with w' show ?thesis by (intro exI [of _ "[]"] exI [of _ "snd c"]) simp
      next
        assume "(w, g) \<in> set (scan r c)"
        then have "(w, g) \<in> set (scan r (rev w' @ l, snd c))" using w'(2) by simp
        then obtain u v where "snd c = u @ w @ v" "spans r (rev u @ rev w' @ l) w v g"
          using less.hyps [OF True] by blast
        with w'(1) show ?thesis by (intro exI [of _ "w' @ u"] exI [of _ v]) simp
      qed
    next
      case False
      then have e: "w' = []" using w'(1) by (metis add_lessD1 append_self_conv2 length_append length_greater_0_conv less_add_same_cancel2)
      have "(w, g) = ([], h) \<or> (w, g) \<in> set (case s of [] \<Rightarrow> [] | x # s' \<Rightarrow> scan r (x # l, s'))"
        using less.prems False by (subst (asm) scan.simps) (simp add: Some m)
      then show ?thesis
      proof
        assume "(w, g) = ([], h)"
        with w' e show ?thesis by (intro exI [of _ "[]"] exI [of _ s]) simp
      qed (rule later)
    qed
  qed
qed

lemma scan_nonempty: "spans r (rev u @ l) w v g \<Longrightarrow> scan r (l, u @ w @ v) \<noteq> []"
proof (induction u arbitrary: l)
  case Nil
  then have "match_at r (l, w @ v) \<noteq> None" by (auto simp: match_at_None)
  then show ?case by (subst scan.simps) (auto split: option.split)
next
  case (Cons x u)
  then have "scan r (x # l, u @ w @ v) \<noteq> []" by simp
  then show ?case by (subst scan.simps) (auto split: option.split)
qed

lemma re_search_iff: "re_search r s \<longleftrightarrow> (\<exists>u w v g. s = u @ w @ v \<and> spans r (rev u) w v g)"
proof
  assume "re_search r s"
  then obtain w g where "(w, g) \<in> set (scan r ([], s))" by (cases "scan r ([], s)") (auto simp: re_search_def re_finditer_def)
  then show "\<exists>u w v g. s = u @ w @ v \<and> spans r (rev u) w v g" using scan_sound by fastforce
qed (use scan_nonempty [of r _ "[]"] in \<open>auto simp: re_search_def re_finditer_def\<close>)

text \<open>
  A pattern whose texts consist of characters of one kind is found at every place where it matches
  and no such character precedes: no earlier match can reach across that place.
\<close>

lemma scan_complete:
  assumes run: "\<And>l w t g. spans r l w t g \<Longrightarrow> w \<noteq> [] \<and> list_all P w"
    and here: "match_at r (rev u @ l, v) = Some (c, g)" and edge: "u = [] \<or> \<not> P (last u)"
  shows "(between (rev u @ l, v) c, g) \<in> set (scan r (l, u @ v))"
  using here edge
proof (induction "length u" arbitrary: l u rule: less_induct)
  case less
  show ?case
  proof (cases u)
    case Nil
    obtain w where "v = w @ snd c" "spans r l w (snd c) g"
      using match_at_spans [of r l v c g] less.prems(1) Nil by auto
    then have "length (snd c) < length v" using run by fastforce
    then show ?thesis using Nil less.prems(1) by (subst scan.simps) simp
  next
    case (Cons x u')
    have last: "\<not> P (last u)" using less.prems(2) Cons by simp
    show ?thesis
    proof (cases "match_at r (l, u @ v)")
      case None
      have "(between (rev u' @ x # l, v) c, g) \<in> set (scan r (x # l, u' @ v))"
        using less.prems last by (intro less.hyps) (auto simp: Cons)
      with None show ?thesis by (subst scan.simps) (simp add: Cons)
    next
      case (Some m)
      obtain c1 h where m: "m = (c1, h)" by (cases m)
      obtain w where w: "u @ v = w @ snd c1" "c1 = (rev w @ l, snd c1)" "spans r l w (snd c1) h"
        using match_at_spans [of r l "u @ v" c1 h] Some m by auto
      have "w \<noteq> []" "list_all P w" using run [OF w(3)] by auto
      have "length w < length u"
      proof (rule ccontr)
        assume "\<not> length w < length u"
        then have "take (length u) w = u" using w(1) by (metis append_eq_append_conv_if take_all_iff linorder_not_le)
        then have "last u \<in> set w" using Cons by (metis in_set_takeD last_in_set list.distinct(1))
        with \<open>list_all P w\<close> last show False by (simp add: list_all_iff)
      qed
      then obtain u2 where u2: "u = w @ u2" "snd c1 = u2 @ v" "u2 \<noteq> []"
        using w(1) by (auto simp: append_eq_append_conv2)
      have c1: "c1 = (rev w @ l, u2 @ v)" using w(2) u2(2) by simp
      have "(between (rev u2 @ rev w @ l, v) c, g) \<in> set (scan r (rev w @ l, u2 @ v))"
        using less.prems(1) last u2 \<open>w \<noteq> []\<close> by (intro less.hyps) auto
      moreover have "length (snd c1) < length (u @ v)" using u2 \<open>w \<noteq> []\<close> by simp
      ultimately show ?thesis
        using Some by (subst scan.simps) (simp add: m c1 u2(1))
    qed
  qed
qed

section \<open>Greedy runs\<close>

lemma match_at_Seq:
  "match_at r1 c = Some (c1, g1) \<Longrightarrow> match_at r2 c1 = Some (c2, g2) \<Longrightarrow> match_at (Seq r1 r2) c = Some (c2, g2 @ g1)"
  by (cases "matches r1 c"; cases "matches r2 c1") (simp_all add: match_at_def)

lemma match_at_Grp: "match_at r c = Some (c1, g1) \<Longrightarrow> match_at (Grp n r) c = Some (c1, (n, between c c1) # g1)"
  by (cases "matches r c") (simp_all add: match_at_def)

lemma match_at_Star_Cls:
  "list_all p w \<Longrightarrow> v = [] \<or> \<not> p (hd v) \<Longrightarrow> match_at (Star (Cls p)) (l, w @ v) = Some ((rev w @ l, v), [])"
proof (induction w arbitrary: l)
  case Nil
  then have "matches (Star (Cls p)) (l, v) = [((l, v), [])]"
    by (subst matches.simps(6)) (cases v, simp_all)
  then show ?case by (simp add: match_at_def)
next
  case (Cons x w)
  then have "match_at (Star (Cls p)) (x # l, w @ v) = Some ((rev w @ x # l, v), [])" by simp
  then obtain ms where "matches (Star (Cls p)) (x # l, w @ v) = ((rev w @ x # l, v), []) # ms"
    by (cases "matches (Star (Cls p)) (x # l, w @ v)") (simp_all add: match_at_def)
  with Cons.prems show ?case
    by (simp add: match_at_def matches.simps(6) [of "Cls p" "(l, x # w @ v)"])
qed

lemma match_at_Plus_Cls:
  assumes "w \<noteq> []" "list_all p w" "v = [] \<or> \<not> p (hd v)"
  shows "match_at (Plus (Cls p)) (l, w @ v) = Some ((rev w @ l, v), [])"
proof -
  obtain x u where w: "w = x # u" using assms(1) by (cases w) auto
  have "match_at (Cls p) (l, w @ v) = Some ((x # l, u @ v), [])" using assms(2) by (simp add: w match_at_def)
  moreover have "match_at (Star (Cls p)) (x # l, u @ v) = Some ((rev u @ x # l, v), [])"
    using assms by (intro match_at_Star_Cls) (simp_all add: w)
  ultimately show ?thesis unfolding Plus_def by (auto dest: match_at_Seq simp: w)
qed

lemma spans_Times_Cls: "spans (Times k (Cls p)) l w s g \<longleftrightarrow> length w = k \<and> list_all p w \<and> g = []"
proof (induction k arbitrary: l w g)
  case (Suc k)
  have "spans (Cls p) l [x] (v @ s) []" if "p x" for x v using that by simp
  then have "spans (Seq (Cls p) (Times k (Cls p))) l ([x] @ v) s []"
    if "p x" "length v = k" "list_all p v" for x v
    using that Suc by (intro spans_plain_SeqI) simp_all
  then show ?case by (cases w) (auto simp: spans_Seq Suc)
qed auto

lemma fullmatch_iff: "re_fullmatch r s \<noteq> None \<longleftrightarrow> (\<exists>g. spans r [] s [] g)"
  by (auto simp: re_fullmatch_def find_None_iff matches_parses parses_spans)

lemma spans_Text: "spans (Text u) l w s g \<longleftrightarrow> w = u \<and> g = []"
proof (induction u arbitrary: l w g)
  case (Cons c u)
  then show ?case by (auto simp: spans_Seq Chr_def)
qed simp

end
