(* ===== verification/Forward_Regex.thy ===== *)
theory Forward_Regex
  imports Forward_Props Regex_Props
begin

text \<open>
  The regular expression of the forwarder and the packager, matched the way \<open>re\<close> matches it, gives
  the text that \<open>event_line\<close> computes directly.
\<close>

section \<open>The first match\<close>

fun first_some :: "('a \<Rightarrow> 'b option) \<Rightarrow> 'a list \<Rightarrow> 'b option" where
  "first_some f [] = None"
| "first_some f (x # xs) = (case f x of None \<Rightarrow> first_some f xs | Some y \<Rightarrow> Some y)"

lemma first_some_append: "first_some f (xs @ ys) = (case first_some f xs of None \<Rightarrow> first_some f ys | Some y \<Rightarrow> Some y)"
  by (induction xs) (auto split: option.split)

lemma first_some_map: "first_some f (map h xs) = first_some (\<lambda>x. f (h x)) xs"
  by (induction xs) (auto split: option.split)

lemma first_some_concat: "first_some f (concat xss) = first_some (first_some f) xss"
  by (induction xss) (auto simp: first_some_append split: option.split)

lemma first_some_unique:
  assumes "\<And>x y. x \<in> set xs \<Longrightarrow> f x = Some y \<Longrightarrow> y = k"
  shows "first_some f xs = (if \<exists>x \<in> set xs. f x \<noteq> None then Some k else None)"
  using assms
proof (induction xs)
  case (Cons x xs)
  have "first_some f xs = (if \<exists>x \<in> set xs. f x \<noteq> None then Some k else None)"
    by (rule Cons.IH) (use Cons.prems in auto)
  then show ?case using Cons.prems [of x] by (cases "f x") simp_all
qed simp

lemma first_some_cong: "(\<And>x. x \<in> set xs \<Longrightarrow> f x = h x) \<Longrightarrow> first_some f xs = first_some h xs"
  by (induction xs) (auto split: option.split)

definition caught :: "regex \<Rightarrow> cursor \<Rightarrow> captures option" where
  "caught r c = map_option snd (match_at r c)"

lemma caught_first: "caught r c = first_some (\<lambda>m. Some (snd m)) (matches r c)"
  by (simp add: caught_def match_at_def split: list.split)

lemma first_some_Seq:
  "first_some f (matches (Seq r1 r2) c) =
     first_some (\<lambda>(c1, g1). first_some (\<lambda>(c2, g2). f (c2, g2 @ g1)) (matches r2 c1)) (matches r1 c)"
  by (simp add: first_some_concat first_some_map case_prod_unfold)

section \<open>The pattern\<close>

definition OBJECT_TAIL :: regex where
  "OBJECT_TAIL = Seq (Grp 1 (Seq (Chr CHR ''{'') (Seq (Star Dot) (Chr CHR ''}'')))) (Seq (Star Space) TextEnd)"

definition LOGGER :: regex where
  "LOGGER = Seq (Text ''simpleics_pot.event'') (Plus Space)"

text \<open>\<open>^(?:.*?simpleics_pot\.event\s+)?(\{.*\})\s*$\<close>\<close>

definition EVENT_LINE :: regex where
  "EVENT_LINE = Seq TextStart (Seq (Opt (Seq (Lazy Dot) LOGGER)) OBJECT_TAIL)"

section \<open>The object at the end\<close>

lemma object_text_iff:
  "object_text t \<longleftrightarrow> (\<exists>u. t = CHR ''{'' # u @ ''}'' \<and> newline \<notin> set u)"
proof
  assume t: "object_text t"
  then obtain v where v: "t = CHR ''{'' # v" by (cases t) (auto simp: object_text_def)
  with t have "v \<noteq> []" by (auto simp: object_text_def)
  then obtain u c where "v = u @ [c]" by (cases v rule: rev_cases) auto
  with t v show "\<exists>u. t = CHR ''{'' # u @ ''}'' \<and> newline \<notin> set u" by (auto simp: object_text_def)
qed (auto simp: object_text_def)

lemma object_at_iff: "object_at x = Some t \<longleftrightarrow> (\<exists>v. x = t @ v \<and> list_all py_space v \<and> object_text t)"
proof
  assume o: "object_at x = Some t"
  then have t: "t = rstrip x" "object_text t"
    by (auto simp: object_at_def object_text_def Let_def split: if_splits)
  have "rev x = takeWhile py_space (rev x) @ dropWhile py_space (rev x)" by simp
  then have "x = rev (dropWhile py_space (rev x)) @ rev (takeWhile py_space (rev x))"
    by (metis rev_append rev_rev_ident)
  moreover have "list_all py_space (rev (takeWhile py_space (rev x)))"
    by (auto simp: list_all_iff dest: set_takeWhileD)
  ultimately show "\<exists>v. x = t @ v \<and> list_all py_space v \<and> object_text t"
    using t by (auto simp: rstrip_def)
next
  assume "\<exists>v. x = t @ v \<and> list_all py_space v \<and> object_text t"
  then obtain v where v: "x = t @ v" "list_all py_space v" "object_text t" by blast
  have "rstrip (t @ v) = t" using v(2)
  proof (induction v rule: rev_induct)
    case Nil
    then show ?case using rstrip_object [OF v(3), of "[]"] by simp
  next
    case (snoc c v)
    then show ?case using rstrip_space [of c "t @ v"] by simp
  qed
  with v show "object_at x = Some t" by (simp add: object_at_def object_text_def Let_def)
qed

lemma tail_spans:
  "spans OBJECT_TAIL l w s g \<longleftrightarrow>
     (\<exists>t v. w = t @ v \<and> g = [(1, t)] \<and> object_text t \<and> list_all py_space v \<and> (s = [] \<or> s = [newline]))"
  by (simp add: OBJECT_TAIL_def Chr_def Dot_def Space_def spans_Seq object_text_iff list_all_iff) blast

lemma caught_tail: "caught OBJECT_TAIL (l, x) = map_option (\<lambda>t. [(1, t)]) (object_at x)"
proof (cases "object_at x")
  case None
  have "matches OBJECT_TAIL (l, x) = []"
  proof (rule ccontr)
    assume "matches OBJECT_TAIL (l, x) \<noteq> []"
    then obtain c' g where "(c', g) \<in> set (matches OBJECT_TAIL (l, x))" by (cases "matches OBJECT_TAIL (l, x)") auto
    then obtain w s where "x = w @ s" "spans OBJECT_TAIL l w s g" by (auto simp: matches_parses parses_spans)
    then obtain t v where "x = t @ (v @ s)" "object_text t" "list_all py_space (v @ s)"
      by (auto simp: tail_spans brace_solid)
    then have "object_at x = Some t" unfolding object_at_iff by blast
    with None show False by simp
  qed
  with None show ?thesis by (simp add: caught_first)
next
  case (Some t)
  have g: "g = [(1, t)]" if "(c', g) \<in> set (matches OBJECT_TAIL (l, x))" for c' g
  proof -
    from that obtain w s where "x = w @ s" "spans OBJECT_TAIL l w s g" by (auto simp: matches_parses parses_spans)
    then obtain t' v where t': "g = [(1, t')]" "x = t' @ (v @ s)" "object_text t'" "list_all py_space (v @ s)"
      by (auto simp: tail_spans brace_solid)
    then have "object_at x = Some t'" unfolding object_at_iff by blast
    with Some t' show ?thesis by simp
  qed
  obtain v where "x = t @ v" "list_all py_space v" "object_text t" using Some by (auto simp: object_at_iff)
  then have "spans OBJECT_TAIL l x [] [(1, t)]" by (auto simp: tail_spans)
  then have "((rev x @ l, []), [(1, t)]) \<in> set (matches OBJECT_TAIL (l, x))"
    by (simp add: matches_parses spans_def)
  then have "\<exists>m \<in> set (matches OBJECT_TAIL (l, x)). Some (snd m) \<noteq> (None :: captures option)" by blast
  moreover have "first_some (\<lambda>m. Some (snd m)) (matches OBJECT_TAIL (l, x)) =
      (if \<exists>m \<in> set (matches OBJECT_TAIL (l, x)). Some (snd m) \<noteq> (None :: captures option) then Some [(1, t)] else None)"
    using g by (intro first_some_unique) force
  ultimately show ?thesis by (simp add: caught_first Some)
qed
section \<open>The optional prefix\<close>

abbreviation wrap :: "string \<Rightarrow> captures" where "wrap t \<equiv> [(1, t)]"

lemma spans_spaced: "spans (Seq (Text u) (Plus Space)) l w s g \<longleftrightarrow>
    (\<exists>v. w = u @ v \<and> v \<noteq> [] \<and> list_all py_space v \<and> g = [])"
  by (auto simp: spans_Seq spans_Text Space_def)

lemmas logger_spans = spans_spaced [of "''simpleics_pot.event''", folded LOGGER_def]

lemma matches_spans:
  "m \<in> set (matches r (l, x)) \<Longrightarrow> \<exists>w. x = w @ snd (fst m) \<and> spans r l w (snd (fst m)) (snd m)"
proof -
  obtain c' g where "m = (c', g)" by (metis surj_pair)
  then show "m \<in> set (matches r (l, x)) \<Longrightarrow> ?thesis" by (auto simp: matches_parses parses_spans)
qed

text \<open>What the rest of the pattern catches behind a cursor.\<close>

definition rest_caught :: "cursor \<times> captures \<Rightarrow> captures option" where
  "rest_caught m = map_option (\<lambda>t. (1, t) # snd m) (object_at (snd (fst m)))"

lemma object_at_solid: "object_at x = Some t \<Longrightarrow> x \<noteq> [] \<and> \<not> py_space (hd x)"
  by (auto simp: object_at_iff object_text_iff brace_solid)

lemma starts_iff: "starts u x \<longleftrightarrow> (\<exists>y. x = u @ y)"
  by (auto simp: starts_def) (metis append_take_drop_id)

lemma after_logger_iff:
  "after_logger x = Some t \<longleftrightarrow>
     (\<exists>v y. x = ''simpleics_pot.event'' @ v @ y \<and> v \<noteq> [] \<and> list_all py_space v \<and> object_at y = Some t)"
proof
  assume a: "after_logger x = Some t"
  then obtain y where y: "x = ''simpleics_pot.event'' @ y"
    by (auto simp: after_logger_def starts_iff split: if_splits)
  have "y = takeWhile py_space y @ dropWhile py_space y" by simp
  moreover have "list_all py_space (takeWhile py_space y)" by (auto simp: list_all_iff dest: set_takeWhileD)
  moreover have "dropWhile py_space y \<noteq> y" "object_at (dropWhile py_space y) = Some t"
    using a by (auto simp: after_logger_def y Let_def split: if_splits)
  ultimately show "\<exists>v y. x = ''simpleics_pot.event'' @ v @ y \<and> v \<noteq> [] \<and> list_all py_space v \<and> object_at y = Some t"
    using y by (metis append_Nil)
next
  assume "\<exists>v y. x = ''simpleics_pot.event'' @ v @ y \<and> v \<noteq> [] \<and> list_all py_space v \<and> object_at y = Some t"
  then obtain v y where v: "x = ''simpleics_pot.event'' @ v @ y" "v \<noteq> []" "list_all py_space v" "object_at y = Some t"
    by blast
  have "dropWhile py_space (v @ y) = dropWhile py_space y"
    using v(3) by (simp add: dropWhile_append2 list_all_iff)
  also have "\<dots> = y" using object_at_solid [OF v(4)] by (cases y) simp_all
  finally show "after_logger x = Some t"
    using v by (simp add: after_logger_def)
qed

lemma logger_found:
  assumes "m \<in> set (matches LOGGER (l, x))" "object_at (snd (fst m)) = Some t"
  shows "after_logger x = Some t" "snd m = []"
proof -
  obtain w where w: "x = w @ snd (fst m)" "spans LOGGER l w (snd (fst m)) (snd m)"
    using matches_spans [OF assms(1)] by blast
  then obtain v where v: "w = ''simpleics_pot.event'' @ v" "v \<noteq> []" "list_all py_space v" "snd m = []"
    by (simp only: logger_spans) blast
  have "x = ''simpleics_pot.event'' @ v @ snd (fst m)" using w(1) v(1) by (simp only: append_assoc)
  with v assms(2) show "after_logger x = Some t" unfolding after_logger_iff by blast
  show "snd m = []" by (rule v(4))
qed

lemma logger_rest: "first_some rest_caught (matches LOGGER (l, x)) = map_option wrap (after_logger x)"
proof (cases "after_logger x")
  case None
  have "rest_caught m = None" if "m \<in> set (matches LOGGER (l, x))" for m
  proof (rule ccontr)
    assume "rest_caught m \<noteq> None"
    then obtain t where t: "object_at (snd (fst m)) = Some t" by (auto simp: rest_caught_def)
    with logger_found(1) [OF that] have "after_logger x = Some t" .
    with None show False by simp
  qed
  then have "first_some rest_caught (matches LOGGER (l, x)) = None"
    by (subst first_some_unique [where k = "[]"]) auto
  with None show ?thesis by simp
next
  case (Some t)
  have same: "y = wrap t" if "m \<in> set (matches LOGGER (l, x))" "rest_caught m = Some y" for m y
  proof -
    from that(2) obtain t' where t': "object_at (snd (fst m)) = Some t'" "y = (1, t') # snd m"
      by (auto simp: rest_caught_def)
    with logger_found [OF that(1) t'(1)] Some show ?thesis by simp
  qed
  from Some obtain v y where v: "x = ''simpleics_pot.event'' @ v @ y" "v \<noteq> []" "list_all py_space v"
    "object_at y = Some t" by (auto simp: after_logger_iff)
  let ?m = "((rev (''simpleics_pot.event'' @ v) @ l, y), []) :: cursor \<times> captures"
  have "spans LOGGER l (''simpleics_pot.event'' @ v) y []" unfolding logger_spans using v by blast
  then have "?m \<in> set (matches LOGGER (l, x))"
    unfolding matches_parses spans_def v(1) append_assoc .
  moreover have "rest_caught ?m \<noteq> None" using v(4) by (simp add: rest_caught_def)
  ultimately have "\<exists>m \<in> set (matches LOGGER (l, x)). rest_caught m \<noteq> None" by blast
  then show ?thesis using first_some_unique [of "matches LOGGER (l, x)" rest_caught "wrap t"] same Some by simp
qed

text \<open>The lazy prefix stops at the first position where the rest matches.\<close>

lemma lazy_dot:
  "matches (Lazy Dot) (l, []) = [((l, []), [])]"
  "matches (Lazy Dot) (l, c # x) =
     ((l, c # x), []) # (if c = newline then [] else matches (Lazy Dot) (c # l, x))"
  by (subst matches.simps(7), simp add: Dot_def case_prod_unfold)+

lemma prefix_rest:
  "first_some rest_caught (matches (Seq (Lazy Dot) LOGGER) (l, x)) = map_option wrap (find_prefixed x)"
proof -
  let ?F = "\<lambda>m. first_some rest_caught (matches LOGGER (fst m))"
  have nil: "g = []" if "(c', g) \<in> set (matches (Lazy Dot) c)" for c c' g
  proof -
    obtain l x where c: "c = (l, x)" by (cases c)
    from that show ?thesis
      unfolding c by (induction x arbitrary: l) (auto simp: lazy_dot split: if_splits)
  qed
  have "first_some rest_caught (matches (Seq (Lazy Dot) LOGGER) (l, x)) = first_some ?F (matches (Lazy Dot) (l, x))"
    unfolding first_some_Seq
  proof (rule first_some_cong)
    fix m assume "m \<in> set (matches (Lazy Dot) (l, x))"
    then have "snd m = []" using nil [of "fst m" "snd m"] by simp
    then show "(case m of (c1, g1) \<Rightarrow> first_some (\<lambda>(c2, g2). rest_caught (c2, g2 @ g1)) (matches LOGGER c1)) =
        first_some rest_caught (matches LOGGER (fst m))"
      by (simp add: case_prod_unfold)
  qed
  also have "\<dots> = map_option wrap (find_prefixed x)"
  proof (induction x arbitrary: l)
    case Nil
    then show ?case by (simp add: lazy_dot logger_rest after_logger_def)
  next
    case (Cons c x)
    then show ?case by (auto simp: lazy_dot logger_rest split: option.split)
  qed
  finally show ?thesis .
qed

text \<open>C32: The expression the tools match every line with, under the backtracking semantics of \<open>re\<close>, and
  the direct function the model uses find the same object text in every line.\<close>

theorem event_line_is_regex: "event_line x = map_option (\<lambda>g. group g 1) (re_match EVENT_LINE x)"
proof -
  have tail: "first_some (\<lambda>m. Some (snd m)) (map (\<lambda>(c2, g2). (c2, g2 @ g1)) (matches OBJECT_TAIL c1)) = rest_caught (c1, g1)"
    for c1 g1
  proof -
    have "first_some (\<lambda>m. Some (snd m @ g1)) ms = map_option (\<lambda>g. g @ g1) (first_some (\<lambda>m. Some (snd m)) ms)"
      for ms :: "(cursor \<times> captures) list" by (cases ms) simp_all
    then show ?thesis
      using caught_tail [of "fst c1" "snd c1"]
      by (simp add: first_some_map case_prod_unfold caught_first rest_caught_def option.map_comp comp_def)
  qed
  have "re_match EVENT_LINE x = caught (Seq (Opt (Seq (Lazy Dot) LOGGER)) OBJECT_TAIL) ([], x)"
    by (simp add: re_match_def caught_def match_at_def EVENT_LINE_def TextStart_def test_def comp_def case_prod_unfold)
  also have "\<dots> = first_some rest_caught (matches (Opt (Seq (Lazy Dot) LOGGER)) ([], x))"
    unfolding caught_first matches.simps(4) first_some_concat first_some_map
    using tail by (simp add: case_prod_unfold)
  also have "\<dots> = (case map_option wrap (find_prefixed x) of None \<Rightarrow> rest_caught (([], x), []) | Some g \<Rightarrow> Some g)"
    unfolding Opt_def matches.simps(1,5) first_some_append prefix_rest by (simp split: option.split)
  also have "map_option (\<lambda>g. group g 1) \<dots> = event_line x"
    by (simp add: event_line_def rest_caught_def group_def option.map_comp comp_def option.map_ident
        split: option.split)
  finally show ?thesis by simp
qed

end
