(* ===== verification/Validate_Map.thy ===== *)
theory Validate_Map
  imports Register_Map PyText
begin

text \<open>
  \<open>tools/validate_register_map.py\<close>: the checks of a manifest document.  Each message is a
  constructor of \<open>map_error\<close> with what the message prints; the list the code returns is a list
  of them in the same order.  The parts of the one long function are definitions of their own.
  Exceptions that leave the validator (a \<open>device\<close> that is no object, an unhashable area, a
  number too large for a float) are results.
\<close>

datatype map_error =
    RegistersNotList
  | SyntheticIdentity
  | UnitIdRange
  | DeviceString string
  | OptionalString string
  | UrlScheme
  | UrlReserved
  | ProcessName
  | ProcessSeed
  | ProcessNumeric string
  | ProcessRange string
  | NotObject nat
  | MissingFields nat "string list"
  | KeyEmpty nat
  | DuplicateKey string
  | UnsupportedArea nat pyval
  | AddressRange nat
  | DuplicateAddress pyval int
  | BoundsNumeric nat
  | MinimumExceeds nat
  | DefaultOutside nat
  | WritableBoolean nat
  | WritableReadOnlyArea nat pyval
  | NoWriteEffect nat
  | ScalePositive nat
  | InvariantsEmpty

section \<open>Constants\<close>

definition ALLOWED_AREAS :: "string list" where
  "ALLOWED_AREAS = [''coil'', ''discrete_input'', ''holding_register'', ''input_register'']"

definition WRITABLE_AREAS :: "string list" where
  "WRITABLE_AREAS = [''coil'', ''holding_register'']"

text \<open>Sets that are only iterated sorted are lists in that order.\<close>

definition REQUIRED_FIELDS :: "string list" where
  "REQUIRED_FIELDS = [''address'', ''area'', ''data_type'', ''default'', ''description'', ''key'',
     ''maximum'', ''minimum'', ''reference'', ''scale'', ''unit'', ''writable'']"

definition REQUIRED_DEVICE_STRINGS :: "string list" where
  "REQUIRED_DEVICE_STRINGS = [''model_name'', ''product_code'', ''product_name'', ''revision'',
     ''user_application_name'', ''vendor_name'']"

definition OPTIONAL_DEVICE_STRINGS :: "string list" where
  "OPTIONAL_DEVICE_STRINGS = [''vendor_url'']"

definition RESERVED_TLDS :: "string list" where
  "RESERVED_TLDS = [''invalid'', ''example'', ''test'', ''localhost'']"

text \<open>0.05 and 0.01 as doubles.\<close>

definition five_hundredths :: rat where
  "five_hundredths = 3602879701896397 / 72057594037927936"

definition one_hundredth :: rat where
  "one_hundredth = 5764607523034235 / 576460752303423488"

definition PROCESS_BOUNDS :: "(string \<times> rat \<times> rat) list" where
  "PROCESS_BOUNDS = [
     (''tick_seconds'', five_hundredths, 10),
     (''capacity_liters'', 100, 1000000),
     (''max_pump_flow_lps'', one_hundredth, 10000),
     (''nominal_inlet_flow_lps'', 0, 10000),
     (''auto_hysteresis_raw'', 1, 5000),
     (''actuator_delay_seconds'', five_hundredths, 60)]"

section \<open>Reserved names\<close>

definition url_host :: "string \<Rightarrow> string" where
  "url_host url =
     (let remainder = split_last ''://'' url in
      before_char CHR '':'' (after_last CHR ''@'' (before_char CHR ''/'' remainder)))"

definition host_labels :: "string \<Rightarrow> string list" where
  "host_labels host = [label \<leftarrow> split_on CHR ''.'' (rstrip_char CHR ''.'' (casefold host)). label \<noteq> []]"

definition uses_reserved_name :: "string \<Rightarrow> bool" where
  "uses_reserved_name url =
     (let labels = host_labels (url_host url) in
      if labels = [] then False
      else if last labels \<in> set RESERVED_TLDS then True
      else 2 \<le> length labels \<and> labels ! (length labels - 2) = ''example'' \<and>
           last labels \<in> {''com'', ''net'', ''org''})"

section \<open>Device and process\<close>

fun as_dict :: "pyval \<Rightarrow> (string \<times> pyval) list result" where
  "as_dict (PDict d) = Inr d"
| "as_dict _ = Inl AttributeError"

text \<open>\<open>.get(k)\<close> on a dict.\<close>

definition get :: "(string \<times> pyval) list \<Rightarrow> string \<Rightarrow> pyval" where
  "get d k = (case map_of d k of Some v \<Rightarrow> v | None \<Rightarrow> PNone)"

fun blank_text :: "pyval \<Rightarrow> bool" where
  "blank_text (PStr s) = (strip s = [])"
| "blank_text _ = True"

definition check :: "bool \<Rightarrow> map_error \<Rightarrow> map_error list" where
  "check ok e = (if ok then [] else [e])"

definition in_range :: "rat \<Rightarrow> rat \<Rightarrow> pyval \<Rightarrow> bool" where
  "in_range lo hi v \<longleftrightarrow> Fin lo \<le> number v \<and> number v \<le> Fin hi"

definition validate_device :: "(string \<times> pyval) list \<Rightarrow> map_error list" where
  "validate_device device =
     check (get device ''synthetic_identity'' = PBool True) SyntheticIdentity @
     check (is_int (get device ''unit_id'') \<and> in_range 1 247 (get device ''unit_id'')) UnitIdRange @
     concat (map (\<lambda>k. check (\<not> blank_text (get device k)) (DeviceString k)) REQUIRED_DEVICE_STRINGS) @
     concat (map (\<lambda>k. check (is_str (get device k)) (OptionalString k)) OPTIONAL_DEVICE_STRINGS) @
     (case get device ''vendor_url'' of
        PStr url \<Rightarrow>
          if url = [] then []
          else check (starts ''https://'' url \<or> starts ''http://'' url) UrlScheme @
               check (\<not> uses_reserved_name url) UrlReserved
      | _ \<Rightarrow> [])"

text \<open>\<open>math.isfinite\<close> converts to a float first, which a large integer does not survive.\<close>

definition isfinite :: "pyval \<Rightarrow> bool result" where
  "isfinite v = bindE (py_float v) (\<lambda>x. Inr (case x of Fin _ \<Rightarrow> True | _ \<Rightarrow> False))"

definition validate_constant :: "(string \<times> pyval) list \<Rightarrow> string \<times> rat \<times> rat \<Rightarrow> map_error list result" where
  "validate_constant process bound =
     (case bound of (k, lo, hi) \<Rightarrow>
        let value = get process k in
        if is_bool value \<or> \<not> is_number value then Inr [ProcessNumeric k]
        else bindE (isfinite value) (\<lambda>fin. Inr (check (fin \<and> in_range lo hi value) (ProcessRange k))))"

definition validate_process :: "(string \<times> pyval) list \<Rightarrow> map_error list result" where
  "validate_process process =
     bindE (mapE (validate_constant process) PROCESS_BOUNDS) (\<lambda>ess.
     Inr (check (\<not> blank_text (get process ''name'')) ProcessName @
          check (is_int (get process ''deterministic_seed'')) ProcessSeed @ concat ess))"

section \<open>Registers\<close>

fun hashable :: "pyval \<Rightarrow> bool" where
  "hashable (PList _) = False"
| "hashable (PDict _) = False"
| "hashable _ = True"

text \<open>Equality of hashable values as a set sees it: numbers compare by value, and a \<open>NaN\<close> read from
  a document equals nothing.\<close>

definition same_key :: "pyval \<Rightarrow> pyval \<Rightarrow> bool" where
  "same_key a b \<longleftrightarrow>
     (if is_number a \<and> is_number b then number a = number b \<and> number a \<noteq> NaN else a = b)"

type_synonym seen = "string list \<times> (pyval \<times> int) list"

definition check_key :: "nat \<Rightarrow> pyval \<Rightarrow> string list \<Rightarrow> map_error list \<times> string list" where
  "check_key i k keys =
     (case k of
        PStr s \<Rightarrow> if s = [] then ([KeyEmpty i], keys)
                  else if s \<in> set keys then ([DuplicateKey s], keys) else ([], keys @ [s])
      | _ \<Rightarrow> ([KeyEmpty i], keys))"

definition check_address :: "nat \<Rightarrow> pyval \<Rightarrow> pyval \<Rightarrow> (pyval \<times> int) list \<Rightarrow> map_error list \<times> (pyval \<times> int) list" where
  "check_address i a addr locs =
     (if \<not> is_int addr \<or> \<not> in_range 0 65535 addr then ([AddressRange i], locs)
      else
        (let n = projr (py_int addr) in
         (check (\<not> list_ex (\<lambda>(a', n'). same_key a a' \<and> n = n') locs) (DuplicateAddress a n),
          locs @ [(a, n)])))"

definition check_bounds :: "nat \<Rightarrow> pyval \<Rightarrow> pyval \<Rightarrow> pyval \<Rightarrow> map_error list" where
  "check_bounds i mn mx df =
     (if \<not> (is_number mn \<and> is_number mx \<and> is_number df) then [BoundsNumeric i]
      else if number mx < number mn then [MinimumExceeds i]
      else check (number mn \<le> number df \<and> number df \<le> number mx) (DefaultOutside i))"

definition in_areas :: "pyval \<Rightarrow> string list \<Rightarrow> bool" where
  "in_areas a areas \<longleftrightarrow> a \<in> PStr ` set areas"

definition check_writable :: "nat \<Rightarrow> pyval \<Rightarrow> pyval \<Rightarrow> pyval \<Rightarrow> map_error list" where
  "check_writable i w a effect =
     (case w of
        PBool True \<Rightarrow> check (in_areas a WRITABLE_AREAS) (WritableReadOnlyArea i a) @
                      check (truthy effect) (NoWriteEffect i)
      | PBool False \<Rightarrow> []
      | _ \<Rightarrow> [WritableBoolean i])"

definition check_scale :: "nat \<Rightarrow> pyval \<Rightarrow> map_error list" where
  "check_scale i s = check (is_number s \<and> \<not> number s \<le> Fin 0) (ScalePositive i)"

definition validate_register :: "nat \<Rightarrow> pyval \<Rightarrow> seen \<Rightarrow> (map_error list \<times> seen) result" where
  "validate_register i register seen =
     (case register of
        PDict r \<Rightarrow>
          (let missing = [f \<leftarrow> REQUIRED_FIELDS. map_of r f = None] in
           if missing \<noteq> [] then Inr ([MissingFields i missing], seen)
           else
             (let (e_key, keys) = check_key i (get r ''key'') (fst seen); a = get r ''area'' in
              if \<not> hashable a then Inl TypeError
              else
                (let (e_address, locs) = check_address i a (get r ''address'') (snd seen) in
                 Inr (e_key @ check (in_areas a ALLOWED_AREAS) (UnsupportedArea i a) @ e_address @
                      check_bounds i (get r ''minimum'') (get r ''maximum'') (get r ''default'') @
                      check_writable i (get r ''writable'') a (get r ''write_effect'') @
                      check_scale i (get r ''scale''), (keys, locs)))))
      | _ \<Rightarrow> Inr ([NotObject i], seen))"

fun validate_registers :: "nat \<Rightarrow> pyval list \<Rightarrow> seen \<Rightarrow> map_error list result" where
  "validate_registers i [] seen = Inr []"
| "validate_registers i (r # rs) seen =
     bindE (validate_register i r seen) (\<lambda>(es, seen').
     bindE (validate_registers (Suc i) rs seen') (\<lambda>es'. Inr (es @ es')))"

section \<open>The whole document\<close>

definition nonempty_list :: "pyval \<Rightarrow> bool" where
  "nonempty_list v \<longleftrightarrow> (case v of PList xs \<Rightarrow> xs \<noteq> [] | _ \<Rightarrow> False)"

definition get_or_empty :: "(string \<times> pyval) list \<Rightarrow> string \<Rightarrow> pyval" where
  "get_or_empty d k = (case map_of d k of Some v \<Rightarrow> v | None \<Rightarrow> PDict [])"

definition validate_map :: "pyval \<Rightarrow> map_error list result" where
  "validate_map doc =
     bindE (as_dict doc) (\<lambda>d.
     case get d ''registers'' of
       PList registers \<Rightarrow>
         if registers = [] then Inr [RegistersNotList]
         else
           bindE (as_dict (get_or_empty d ''device'')) (\<lambda>device.
           bindE (as_dict (get_or_empty d ''process'')) (\<lambda>process.
           bindE (validate_process process) (\<lambda>e_process.
           bindE (validate_registers 0 registers ([], [])) (\<lambda>e_registers.
           Inr (validate_device device @ e_process @ e_registers @
                check (nonempty_list (get d ''invariants'')) InvariantsEmpty)))))
     | _ \<Rightarrow> Inr [RegistersNotList])"

text \<open>\<open>main\<close> behind the loading of the file: its exit code.  A \<open>ValueError\<close> is what \<open>json.load\<close>
  raises for text that is not JSON.\<close>

definition validator_main :: "pyval result \<Rightarrow> int result" where
  "validator_main loaded =
     (case loaded of
        Inl OSError \<Rightarrow> Inr 2
      | Inl (ValueError _) \<Rightarrow> Inr 2
      | Inl e \<Rightarrow> Inl e
      | Inr doc \<Rightarrow>
          bindE (validate_map doc) (\<lambda>errors.
          if errors \<noteq> [] then Inr 1
          else bindE (py_getitem doc ''map_version'') (\<lambda>_. Inr 0)))"

end
