(* ===== verification/Validate_Props.thy ===== *)
theory Validate_Props
  imports Validate_Map Default_Map
begin

text \<open>
  What an empty error list says about the document, entry by entry, and that the shipped
  manifest passes.
\<close>

section \<open>Entries\<close>

lemma check_Nil [simp]: "check ok e = [] \<longleftrightarrow> ok"
  by (simp add: check_def)

definition sound_definition :: "RegisterDefinition \<Rightarrow> bool" where
  "sound_definition d \<longleftrightarrow>
     key d \<noteq> [] \<and> area d \<in> set ALLOWED_AREAS \<and> 0 \<le> address d \<and> address d \<le> 65535 \<and>
     is_number (minimum d) \<and> is_number (maximum d) \<and> is_number (default_value d) \<and>
     number (minimum d) \<le> number (default_value d) \<and> number (default_value d) \<le> number (maximum d) \<and>
     (writable d \<longrightarrow> area d \<in> set WRITABLE_AREAS \<and> write_effect d \<noteq> None)"

definition entry_key :: "pyval \<Rightarrow> string" where
  "entry_key r = (case r of PDict d \<Rightarrow> (case get d ''key'' of PStr s \<Rightarrow> s | _ \<Rightarrow> []) | _ \<Rightarrow> [])"

definition entry_location :: "pyval \<Rightarrow> string \<times> int" where
  "entry_location r = (case r of PDict d \<Rightarrow>
     ((case get d ''area'' of PStr s \<Rightarrow> s | _ \<Rightarrow> []), projr (py_int (get d ''address''))) | _ \<Rightarrow> ([], 0))"

definition entry_seen :: "pyval \<Rightarrow> pyval \<times> int" where
  "entry_seen r = (PStr (fst (entry_location r)), snd (entry_location r))"

definition entry_ok :: "pyval \<Rightarrow> bool" where
  "entry_ok r \<longleftrightarrow> (\<exists>d. r = PDict d \<and> list_all (\<lambda>f. map_of d f \<noteq> None) REQUIRED_FIELDS \<and>
     (\<exists>k. get d ''key'' = PStr k \<and> k \<noteq> []) \<and> in_areas (get d ''area'') ALLOWED_AREAS \<and>
     is_int (get d ''address'') \<and> in_range 0 65535 (get d ''address'') \<and>
     check_bounds 0 (get d ''minimum'') (get d ''maximum'') (get d ''default'') = [] \<and>
     check_writable 0 (get d ''writable'') (get d ''area'') (get d ''write_effect'') = [])"

lemma check_bounds_index: "check_bounds i mn mx df = [] \<longleftrightarrow> check_bounds 0 mn mx df = []"
  by (simp add: check_bounds_def)

lemma check_writable_index: "check_writable i w a e = [] \<longleftrightarrow> check_writable 0 w a e = []"
  by (simp add: check_writable_def split: pyval.split bool.split)

lemma in_areas_PStr: "in_areas a areas \<longleftrightarrow> (\<exists>s\<in>set areas. a = PStr s)"
  by (auto simp: in_areas_def)

text \<open>An entry without errors extends what was seen by its own key and location.\<close>

lemma validate_register_Nil:
  assumes "validate_register i r (keys, locs) = Inr ([], (keys', locs'))"
  shows "entry_ok r" "entry_key r \<notin> set keys" "keys' = keys @ [entry_key r]"
    "entry_seen r \<notin> set locs"
    "locs' = locs @ [entry_seen r]"
proof -
  obtain d where r: "r = PDict d"
    using assms by (auto simp: validate_register_def split: pyval.splits)
  from assms have present: "list_all (\<lambda>f. map_of d f \<noteq> None) REQUIRED_FIELDS"
    by (auto simp: validate_register_def r Let_def filter_empty_conv list_all_iff split: if_splits)
  from assms have parts:
    "check_key i (get d ''key'') keys = ([], keys')" "in_areas (get d ''area'') ALLOWED_AREAS"
    "check_address i (get d ''area'') (get d ''address'') locs = ([], locs')"
    "check_bounds i (get d ''minimum'') (get d ''maximum'') (get d ''default'') = []"
    "check_writable i (get d ''writable'') (get d ''area'') (get d ''write_effect'') = []"
    by (auto simp: validate_register_def r Let_def split: if_splits prod.splits)
  from parts(1) obtain k where k: "get d ''key'' = PStr k" "k \<noteq> []" "k \<notin> set keys" "keys' = keys @ [k]"
    by (auto simp: check_key_def split: pyval.splits if_splits)
  from parts(2) obtain a where a: "get d ''area'' = PStr a" by (auto simp: in_areas_PStr)
  from parts(3) have addr: "is_int (get d ''address'')" "in_range 0 65535 (get d ''address'')"
    "\<not> list_ex (\<lambda>(a', n'). same_key (PStr a) a' \<and> projr (py_int (get d ''address'')) = n') locs"
    "locs' = locs @ [(PStr a, projr (py_int (get d ''address'')))]"
    by (auto simp: check_address_def a Let_def check_def split: if_splits)
  have "same_key (PStr a) (PStr a)" by (simp add: same_key_def)
  with addr(3) have "(PStr a, projr (py_int (get d ''address''))) \<notin> set locs" by (auto simp: list_ex_iff)
  then show "entry_seen r \<notin> set locs"
    by (simp add: entry_seen_def entry_location_def r a)
  show "locs' = locs @ [entry_seen r]"
    by (simp add: entry_seen_def entry_location_def r a addr(4))
  show "entry_key r \<notin> set keys" "keys' = keys @ [entry_key r]" using k by (simp_all add: entry_key_def r)
  show "entry_ok r"
    using present k parts addr check_bounds_index check_writable_index by (simp add: entry_ok_def r) blast
qed

lemma validate_registers_Nil:
  "validate_registers i rs (keys, locs) = Inr [] \<Longrightarrow>
     list_all entry_ok rs \<and> distinct (map entry_key rs) \<and> set keys \<inter> set (map entry_key rs) = {} \<and>
     distinct (map entry_location rs) \<and>
     set locs \<inter> set (map entry_seen rs) = {}"
proof (induction rs arbitrary: i keys locs)
  case Nil
  then show ?case by simp
next
  case (Cons r rs)
  obtain keys' locs' where r: "validate_register i r (keys, locs) = Inr ([], (keys', locs'))"
    and rs: "validate_registers (Suc i) rs (keys', locs') = Inr []"
    using Cons.prems by (auto simp: bindE_eq_Inr)
  note here = validate_register_Nil [OF r]
  note there = Cons.IH [OF rs, unfolded here(3,5)]
  have seen: "entry_seen r \<notin> set (map entry_seen rs)" "entry_key r \<notin> set (map entry_key rs)"
    using there by auto
  have "entry_location r \<notin> set (map entry_location rs)"
  proof
    assume "entry_location r \<in> set (map entry_location rs)"
    then obtain r' where "r' \<in> set rs" "entry_location r = entry_location r'" by auto
    then have "entry_seen r \<in> set (map entry_seen rs)" by (simp add: entry_seen_def rev_image_eqI)
    with seen show False by simp
  qed
  moreover have "set locs \<inter> set (map entry_seen rs) = {}" "set keys \<inter> set (map entry_key rs) = {}"
    using there by auto
  ultimately show ?case using here(1,2,4) seen there by simp
qed

text \<open>What the constructor reads from such an entry.\<close>

lemma py_getitem_get: "map_of d f \<noteq> None \<Longrightarrow> py_getitem (PDict d) f = Inr (get d f)"
  by (auto simp: get_def)

lemma py_get_get: "py_get (PDict d) f PNone = Inr (get d f)"
  by (simp add: get_def split: option.split)

lemma from_dict_entry:
  assumes ok: "entry_ok r" and d: "from_dict r = Inr df"
  shows "key df = entry_key r" "(area df, address df) = entry_location r" "sound_definition df"
proof -
  obtain d k a where r: "r = PDict d" and req: "list_all (\<lambda>f. map_of d f \<noteq> None) REQUIRED_FIELDS"
    and k: "get d ''key'' = PStr k" "k \<noteq> []" and a: "get d ''area'' = PStr a" "a \<in> set ALLOWED_AREAS"
    and addr: "is_int (get d ''address'')" "in_range 0 65535 (get d ''address'')"
    and bounds: "check_bounds 0 (get d ''minimum'') (get d ''maximum'') (get d ''default'') = []"
    and writ: "check_writable 0 (get d ''writable'') (get d ''area'') (get d ''write_effect'') = []"
    using ok by (auto simp: entry_ok_def in_areas_PStr)
  have item: "py_getitem r f = Inr (get d f)" if "f \<in> set REQUIRED_FIELDS" for f
    using req that py_getitem_get unfolding r by (auto simp: list_all_iff)
  have items: "py_getitem r ''key'' = Inr (PStr k)" "py_getitem r ''area'' = Inr (PStr a)"
    "py_getitem r ''address'' = Inr (get d ''address'')" "py_getitem r ''minimum'' = Inr (get d ''minimum'')"
    "py_getitem r ''maximum'' = Inr (get d ''maximum'')" "py_getitem r ''default'' = Inr (get d ''default'')"
    "py_getitem r ''writable'' = Inr (get d ''writable'')"
    using item k a by (simp_all add: REQUIRED_FIELDS_def)
  obtain n where n: "py_int (get d ''address'') = Inr n" "0 \<le> n" "n \<le> 65535"
    using addr by (cases "get d ''address''") (auto simp: in_range_def)
  have eff: "py_get r ''write_effect'' PNone = Inr (get d ''write_effect'')"
    unfolding r by (rule py_get_get)
  have fields: "key df = k" "area df = a" "address df = n" "minimum df = get d ''minimum''"
    "maximum df = get d ''maximum''" "default_value df = get d ''default''"
    "writable df = truthy (get d ''writable'')" "truthy (get d ''write_effect'') \<Longrightarrow> write_effect df \<noteq> None"
    using d by (auto simp: from_dict_def items n eff bindE_eq_Inr split: if_splits)
  show "key df = entry_key r" by (simp add: fields entry_key_def r k)
  show "(area df, address df) = entry_location r" by (simp add: fields entry_location_def r a n)
  have "is_number (get d ''minimum'') \<and> is_number (get d ''maximum'') \<and> is_number (get d ''default'') \<and>
      number (get d ''minimum'') \<le> number (get d ''default'') \<and> number (get d ''default'') \<le> number (get d ''maximum'')"
    using bounds by (auto simp: check_bounds_def split: if_splits)
  moreover have "a \<in> set WRITABLE_AREAS \<and> truthy (get d ''write_effect'')" if "truthy (get d ''writable'')"
    using writ that by (auto simp: check_writable_def a in_areas_PStr split: pyval.splits bool.splits)
  ultimately show "sound_definition df"
    using k a n fields by (auto simp: sound_definition_def)
qed

end
