(* ===== verification/Validate_Claims.thy ===== *)
theory Validate_Claims
  imports Validate_Props Protocol_Drift Json
begin

text \<open>
  What the validator promises about the maps and processes built from an accepted manifest, what
  it does not, and how it matches reserved host names.
\<close>

section \<open>Accepted manifests\<close>

lemma validate_map_Nil:
  assumes "validate_map doc = Inr []"
  obtains d registers device process where "doc = PDict d" "get d ''registers'' = PList registers"
    "get_or_empty d ''device'' = PDict device" "get_or_empty d ''process'' = PDict process"
    "validate_process process = Inr []" "validate_registers 0 registers ([], []) = Inr []"
    "validate_device device = []"
proof -
  obtain d where doc: "doc = PDict d" using assms by (cases doc) (simp_all add: validate_map_def)
  show thesis
    using assms that [OF doc]
    by (auto simp: validate_map_def doc bindE_eq_Inr split: pyval.splits if_splits elim!: as_dict.elims)
qed

definition entry_field :: "pyval \<Rightarrow> string \<Rightarrow> pyval" where
  "entry_field r f = (case r of PDict d \<Rightarrow> get d f | _ \<Rightarrow> PNone)"

text \<open>An entry whose free texts are values \<open>str\<close> is modelled on: the validator asks nothing of them.\<close>

definition textual_entry :: "pyval \<Rightarrow> bool" where
  "textual_entry r \<longleftrightarrow> list_all (\<lambda>f. isOK (py_str (entry_field r f)))
     [''data_type'', ''unit'', ''description'', ''write_effect'']"

text \<open>What the validator leaves to the constructor: that the reference converts to an integer, and that
  the scale, a positive number, is no integer too large for a float.\<close>

definition convertible_entry :: "pyval \<Rightarrow> bool" where
  "convertible_entry r \<longleftrightarrow>
     isOK (py_int (entry_field r ''reference'')) \<and> isOK (py_float (entry_field r ''scale''))"

lemma from_dict_converts:
  assumes ok: "entry_ok r" and texts: "textual_entry r"
  shows "isOK (from_dict r) \<longleftrightarrow> convertible_entry r"
proof -
  obtain d k a where r: "r = PDict d" and req: "list_all (\<lambda>f. map_of d f \<noteq> None) REQUIRED_FIELDS"
    and k: "get d ''key'' = PStr k" and a: "get d ''area'' = PStr a" and addr: "is_int (get d ''address'')"
    using ok by (auto simp: entry_ok_def in_areas_PStr)
  have item: "py_getitem r f = Inr (get d f)" if "f \<in> set REQUIRED_FIELDS" for f
    using req that py_getitem_get unfolding r by (auto simp: list_all_iff)
  have n: "isOK (py_int (get d ''address''))" using addr by (cases "get d ''address''") auto
  have eff: "py_get r ''write_effect'' PNone = Inr (get d ''write_effect'')" unfolding r by (rule py_get_get)
  have eff': "py_getitem r ''write_effect'' = Inr (get d ''write_effect'')" if "truthy (get d ''write_effect'')"
    using that unfolding r by (auto simp: get_def split: option.splits)
  have field: "entry_field r f = get d f" for f by (simp add: entry_field_def r)
  show ?thesis
    using texts n
    by (auto simp: from_dict_def item REQUIRED_FIELDS_def k a eff eff' textual_entry_def convertible_entry_def field)
qed

text \<open>C20: For a manifest the validator accepts, with free texts the model can print, the constructor
  builds a map exactly when every entry's reference converts to an integer and every scale to a
  float, which the validator does not ask; and every map that is built has one definition per
  entry, and all are sound: supported areas, PDU addresses, defaults inside their bounds, and
  writable registers only in writable areas and with a described effect.\<close>

theorem validated_manifest_constructs:
  assumes ok: "validate_map doc = Inr []"
    and items: "bindE (py_getitem doc ''registers'') py_iter = Inr items"
    and texts: "list_all textual_entry items"
  shows "((\<exists>m. RegisterMap_init doc = Inr m) \<longleftrightarrow> list_all convertible_entry items) \<and>
    (\<forall>m. RegisterMap_init doc = Inr m \<longrightarrow>
       length (definitions m) = length items \<and> list_all sound_definition (definitions m))"
proof -
  obtain d registers where doc: "doc = PDict d" and regs: "get d ''registers'' = PList registers"
    and valid: "validate_registers 0 registers ([], []) = Inr []"
    using validate_map_Nil [OF ok] by metis
  have "items = registers"
    using items regs by (auto simp: doc get_def split: option.splits)
  then have entries: "list_all entry_ok items" "distinct (map entry_key items)" "distinct (map entry_location items)"
    using validate_registers_Nil [OF valid] by simp_all
  have made: "\<exists>m. RegisterMap_init doc = Inr m \<and> definitions m = defs \<and> length defs = length items \<and>
      list_all sound_definition defs" if defs: "mapE from_dict items = Inr defs" for defs
  proof -
    have read: "list_all2 (\<lambda>r df. from_dict r = Inr df) items defs" using defs by (simp add: mapE_eq_Inr)
    have each: "key (defs ! i) = entry_key (items ! i)" "(area (defs ! i), address (defs ! i)) = entry_location (items ! i)"
      "sound_definition (defs ! i)" if "i < length items" for i
      using from_dict_entry [of "items ! i" "defs ! i"] entries(1) read that
      by (auto simp: list_all2_conv_all_nth list_all_length)
    have len: "length items = length defs" using read by (rule list_all2_lengthD)
    have "map key defs = map entry_key items" "map (\<lambda>d. (area d, address d)) defs = map entry_location items"
      using each len by (auto intro: nth_equalityI)
    with entries have dist: "distinct (map key defs)" "distinct (map (\<lambda>d. (area d, address d)) defs)" by simp_all
    have "list_all sound_definition defs" using each(3) len by (simp add: list_all_length)
    moreover have "dict_of (map (\<lambda>item. (key item, item)) defs) = map (\<lambda>item. (key item, item)) defs"
      "dict_of (map (\<lambda>item. ((area item, address item), item)) defs) = map (\<lambda>item. ((area item, address item), item)) defs"
      using dist by (simp_all add: dict_of_fresh comp_def)
    ultimately show ?thesis by (simp add: RegisterMap_init_def items defs Let_def len)
  qed
  have "isOK (mapE from_dict items) \<longleftrightarrow> list_all convertible_entry items"
    using from_dict_converts entries(1) texts by (auto simp: isOK_mapE list_all_iff)
  moreover have "mapE from_dict items = Inr (definitions m)" if "RegisterMap_init doc = Inr m" for m
    using that items by (auto elim!: RegisterMap_init_cases)
  ultimately show ?thesis using made unfolding isOK_iff by (metis Inr_inject)
qed

section \<open>Process constants\<close>

lemma validate_constant_Nil:
  assumes "validate_constant process (k, lo, hi) = Inr []"
  shows "\<not> is_bool (get process k)" "is_number (get process k)" "in_range lo hi (get process k)"
  using assms by (auto simp: validate_constant_def Let_def bindE_eq_Inr split: if_splits)

lemma validated_constant:
  assumes "validate_process process = Inr []" "(k, lo, hi) \<in> set PROCESS_BOUNDS"
  shows "\<not> is_bool (get process k) \<and> is_number (get process k) \<and> in_range lo hi (get process k)"
proof -
  obtain ess where ess: "mapE (validate_constant process) PROCESS_BOUNDS = Inr ess" "concat ess = []"
    using assms(1) by (auto simp: validate_process_def bindE_eq_Inr)
  then have "validate_constant process (k, lo, hi) = Inr []"
    using assms(2) unfolding mapE_eq_Inr list_all2_conv_all_nth by (metis concat_eq_Nil_conv in_set_conv_nth)
  then show ?thesis using validate_constant_Nil by blast
qed

lemma py_getitem_validated:
  "is_number (get d k) \<Longrightarrow> py_getitem (PDict d) k = Inr (get d k)"
  by (auto simp: get_def split: option.splits)

text \<open>Rounding to a double stays inside bounds that are doubles.\<close>

lemma finite_float_range:
  assumes "in_range lo hi v" "is_number v" "\<not> is_bool v" "is_f64 lo" "is_f64 hi" "finite_float v = Inr x"
  shows "lo \<le> x \<and> x \<le> hi"
proof (cases v)
  case (PInt i)
  then have "x = fl (of_int i)" "lo \<le> of_int i" "of_int i \<le> hi"
    using assms by (auto simp: finite_float_def float_of_int_def bindE_eq_Inr in_range_def split: if_splits)
  then show ?thesis using f64.rnd_ge f64.rnd_le assms by blast
next
  case (PFloat y)
  with assms show ?thesis by (cases y) (auto simp: finite_float_def in_range_def)
qed (use assms in simp_all)

lemma py_int_range:
  assumes "in_range (of_int lo) (of_int hi) v" "is_number v" "0 \<le> lo" "py_int v = Inr n"
  shows "lo \<le> n \<and> n \<le> hi"
proof (cases v)
  case (PFloat y)
  then obtain r where y: "y = Fin r" "of_int lo \<le> r" "r \<le> of_int hi"
    using assms by (cases y) (auto simp: in_range_def)
  then have "n = \<lfloor>r\<rfloor>" using assms PFloat by (auto simp: py_trunc_def)
  then show ?thesis using y by (simp add: le_floor_iff floor_le_iff)
qed (use assms in \<open>auto simp: in_range_def split: if_splits\<close>)

lemma reset_constants:
  assumes "reset s = Inr s'"
  shows "capacity_liters s' = capacity_liters s" "max_pump_flow_lps s' = max_pump_flow_lps s"
    "nominal_inlet_flow_lps s' = nominal_inlet_flow_lps s" "auto_hysteresis_raw s' = auto_hysteresis_raw s"
    "actuator_delay_seconds s' = actuator_delay_seconds s"
  using assms unfolding reset_def Let_def bindE_eq_Inr by auto

lemma is_f64_bounds: "is_f64 five_hundredths" "is_f64 one_hundredth" "is_f64 60" "is_f64 100" "is_f64 10000"
  "is_f64 1000000" "is_f64 0"
proof -
  have five: "five_hundredths = of_int 3602879701896397 * 2 powi (- 56)"
    by (simp add: five_hundredths_def power_int_def power_one_over)
  have one: "one_hundredth = of_int 5764607523034235 * 2 powi (- 59)"
    by (simp add: one_hundredth_def power_int_def power_one_over)
  show "is_f64 five_hundredths"
    unfolding is_f64_def by (intro exI conjI, rule five) simp_all
  show "is_f64 one_hundredth"
    unfolding is_f64_def by (intro exI conjI, rule one) simp_all
  show "is_f64 60" "is_f64 100" "is_f64 10000" "is_f64 1000000" "is_f64 0"
    using is_f64_of_int [of 60] is_f64_of_int [of 100] is_f64_of_int [of 10000] is_f64_of_int [of 1000000]
      is_f64_of_int [of 0] by simp_all
qed

text \<open>The process built from an accepted manifest has its physical constants inside the declared
  bounds: in particular a positive capacity, a positive delay and a positive hysteresis, so no
  division by zero and no negative flow can come from the document.\<close>

theorem validated_process_in_bounds:
  assumes ok: "validate_map doc = Inr []" and m: "RegisterMap_init doc = Inr m"
    and p: "WetWellProcess_init m = Inr p"
  shows "100 \<le> capacity_liters p \<and> capacity_liters p \<le> 1000000 \<and>
    one_hundredth \<le> max_pump_flow_lps p \<and> max_pump_flow_lps p \<le> 10000 \<and>
    0 \<le> nominal_inlet_flow_lps p \<and> nominal_inlet_flow_lps p \<le> 10000 \<and>
    1 \<le> auto_hysteresis_raw p \<and> auto_hysteresis_raw p \<le> 5000 \<and>
    five_hundredths \<le> actuator_delay_seconds p \<and> actuator_delay_seconds p \<le> 60"
proof -
  obtain d process where doc: "doc = PDict d" and process: "get_or_empty d ''process'' = PDict process"
    and valid: "validate_process process = Inr []"
    using validate_map_Nil [OF ok] by metis
  have "document m = doc" using m by (rule RegisterMap_init_cases) auto
  moreover obtain v where "py_getitem (document m) ''process'' = Inr v"
    using p by (auto simp: WetWellProcess_init_def bindE_eq_Inr)
  ultimately have item: "py_getitem (document m) ''process'' = Inr (PDict process)"
    using process by (auto simp: doc get_or_empty_def split: option.splits)
  have bound: "\<not> is_bool (get process k)" "is_number (get process k)" "in_range lo hi (get process k)"
    "py_getitem (PDict process) k = Inr (get process k)" if "(k, lo, hi) \<in> set PROCESS_BOUNDS" for k lo hi
    using validated_constant [OF valid that] py_getitem_validated by auto
  obtain cap mx nom hyst delay where
    parts: "finite_float (get process ''capacity_liters'') = Inr cap"
      "finite_float (get process ''max_pump_flow_lps'') = Inr mx"
      "finite_float (get process ''nominal_inlet_flow_lps'') = Inr nom"
      "py_int (get process ''auto_hysteresis_raw'') = Inr hyst"
      "finite_float (get process ''actuator_delay_seconds'') = Inr delay"
    and reset: "reset (blank_process m cap mx nom hyst delay) = Inr p"
    using p bound(4) by (auto simp: WetWellProcess_init_def item bindE_eq_Inr PROCESS_BOUNDS_def)
  have fl: "lo \<le> x \<and> x \<le> hi"
    if "(k, lo, hi) \<in> set PROCESS_BOUNDS" "is_f64 lo" "is_f64 hi" "finite_float (get process k) = Inr x" for k lo hi x
    by (rule finite_float_range [OF _ _ _ that(2-4)]) (use bound [OF that(1)] in simp_all)
  have "1 \<le> hyst \<and> hyst \<le> 5000"
    by (rule py_int_range [OF _ _ _ parts(4)])
      (use bound [of "''auto_hysteresis_raw''" 1 5000] in \<open>simp_all add: PROCESS_BOUNDS_def\<close>)
  moreover have "100 \<le> cap \<and> cap \<le> 1000000" "one_hundredth \<le> mx \<and> mx \<le> 10000" "0 \<le> nom \<and> nom \<le> 10000"
    "five_hundredths \<le> delay \<and> delay \<le> 60"
    by (rule fl [OF _ _ _ parts(1)] fl [OF _ _ _ parts(2)] fl [OF _ _ _ parts(3)] fl [OF _ _ _ parts(5)];
        simp add: PROCESS_BOUNDS_def is_f64_bounds)+
  ultimately show ?thesis using reset_constants [OF reset] by (simp add: blank_process_def)
qed

section \<open>The shipped manifest, and one that drifted\<close>

lemma same_key_PStr [simp]: "same_key (PStr a) (PStr b) \<longleftrightarrow> a = b"
  by (simp add: same_key_def)

text \<open>An entry as the manifest writes it, with a writability the validator accepts.\<close>

definition accepted_extra :: "string \<Rightarrow> (string \<times> pyval) list \<Rightarrow> bool" where
  "accepted_extra a extra \<longleftrightarrow>
     extra = read_only \<or>
     a \<in> set WRITABLE_AREAS \<and> (\<exists>c e. extra = writing (c # e) \<or> (\<exists>v. extra = (''enum'', v) # writing (c # e)))"

lemma accepted_extra_simps:
  "accepted_extra a read_only"
  "a \<in> set WRITABLE_AREAS \<Longrightarrow> accepted_extra a (writing (c # e))"
  "a \<in> set WRITABLE_AREAS \<Longrightarrow> accepted_extra a ((''enum'', v) # writing (c # e))"
  by (auto simp: accepted_extra_def)

lemma validate_point:
  assumes extra: "accepted_extra a extra" and k: "k \<noteq> []" "k \<notin> set keys" and a: "a \<in> set ALLOWED_AREAS"
    and n: "0 \<le> n" "n \<le> 65535" "\<not> list_ex (\<lambda>(a', n'). same_key (PStr a) a' \<and> n = n') locs"
    and b: "mn \<le> df" "df \<le> mx" and sc: "sc = centi \<or> sc = PInt 1"
  shows "validate_register i (point k a n r dt sc u mn mx df extra ds) (keys, locs) =
    Inr ([], (keys @ [k], locs @ [(PStr a, n)]))"
proof -
  have sc': "is_number sc \<and> \<not> number sc \<le> Fin 0" using sc by (auto simp: centi_def centi_f64_def)
  have fields: "[f \<leftarrow> REQUIRED_FIELDS. map_of ([(''key'', PStr k), (''area'', PStr a), (''address'', PInt n),
      (''reference'', PInt r), (''data_type'', PStr dt), (''scale'', sc), (''unit'', PStr u),
      (''minimum'', PInt mn), (''maximum'', PInt mx), (''default'', PInt df)] @
     extra @ [(''description'', PStr ds)]) f = None] = []"
    using extra by (auto simp: accepted_extra_def REQUIRED_FIELDS_def read_only_def writing_def)
  show ?thesis
    using extra a n b k sc' fields
    by (auto simp: validate_register_def point_def Let_def get_def accepted_extra_def read_only_def writing_def
        check_key_def check_address_def in_range_def check_def in_areas_PStr check_bounds_def
        check_writable_def check_scale_def)
qed

definition drifted_registers :: "pyval list" where
  "drifted_registers = default_registers[6 := point ''high_alarm_limit'' ''holding_register'' 44 40045 ''uint16''
     centi ''%'' 6000 9500 8200 (writing ''Moves the high alarm'') ''Level at which the high alarm asserts'']"

definition document_with :: "pyval list \<Rightarrow> pyval" where
  "document_with registers =
     (case default_document of PDict d \<Rightarrow> PDict (AList.update ''registers'' (PList registers) d) | v \<Rightarrow> v)"

lemmas point_accepted = validate_point accepted_extra_simps ALLOWED_AREAS_def WRITABLE_AREAS_def

lemma default_registers_valid: "validate_registers 0 default_registers ([], []) = Inr []"
  unfolding default_registers_def by (simp add: point_accepted)

lemma drifted_registers_valid: "validate_registers 0 drifted_registers ([], []) = Inr []"
  unfolding drifted_registers_def default_registers_def by (simp add: point_accepted)

lemma default_process_valid:
  "validate_process [
      (''name'', PStr ''Community demonstration sump rig''), (''tick_seconds'', PFloat (Fin 1)),
      (''deterministic_seed'', PInt 1701), (''capacity_liters'', PFloat (Fin 6500)),
      (''max_pump_flow_lps'', PFloat (Fin (27 / 2))),
      (''nominal_inlet_flow_lps'', PFloat (Fin (8106479329266893 / 1125899906842624))),
      (''auto_hysteresis_raw'', PInt 400), (''actuator_delay_seconds'', PFloat (Fin (3 / 2)))] = Inr []"
  by (simp add: validate_process_def PROCESS_BOUNDS_def validate_constant_def get_def isfinite_def in_range_def
      check_def five_hundredths_def one_hundredth_def float_of_int_small strip_def rstrip_def py_space_def)

lemma default_device_valid:
  "validate_device [
      (''unit_id'', PInt 7), (''vendor_name'', PStr ''Northwind Instruments''), (''product_code'', PStr ''SCL-210''),
      (''product_name'', PStr ''SCL-210 Wet Sump Manager''), (''model_name'', PStr ''SCL-210-LS''),
      (''revision'', PStr ''1.3.0''), (''vendor_url'', PStr []),
      (''user_application_name'', PStr ''Sump Supervision''), (''synthetic_identity'', PBool True)] = []"
  by (simp add: validate_device_def REQUIRED_DEVICE_STRINGS_def OPTIONAL_DEVICE_STRINGS_def get_def in_range_def
      check_def strip_def rstrip_def py_space_def)

lemma document_with_valid:
  assumes "registers \<noteq> []" "validate_registers 0 registers ([], []) = Inr []"
  shows "validate_map (document_with registers) = Inr []"
  using assms default_process_valid default_device_valid
  by (simp add: validate_map_def document_with_def default_document_def get_def get_or_empty_def
      nonempty_list_def check_def)

lemma document_with_default: "document_with default_registers = default_document"
  by (simp add: document_with_def default_document_def)

lemma drifted_parsed: "mapE from_dict drifted_registers = Inr (map drift_definition default_definitions)"
  unfolding drifted_registers_def default_registers_def default_definitions_def
  by (simp add: from_dict_read_only from_dict_writing drift_definition_def) (simp add: defn_def)

lemma default_document_valid: "validate_map default_document = Inr []"
proof -
  have "default_registers \<noteq> []" by (simp add: default_registers_def)
  from document_with_valid [OF this default_registers_valid] show ?thesis by (simp only: document_with_default)
qed

text \<open>The manifest shipped with the repository passes the validator.\<close>

theorem shipped_manifest_validates: "validator_main (Inr default_document) = Inr 0"
  using default_document_valid by (simp add: validator_main_def) (simp add: default_document_def)

lemma default_entries: "list_all textual_entry default_registers" "list_all convertible_entry default_registers"
  unfolding default_registers_def
  by (simp_all add: textual_entry_def convertible_entry_def entry_field_def point_def get_def read_only_def
      writing_def centi_def float_of_int_small)

theorem validated_manifest_constructs_witness:
  "\<exists>m. RegisterMap_init default_document = Inr m \<and> length (definitions m) = length default_registers \<and>
     list_all sound_definition (definitions m)"
  using validated_manifest_constructs [OF default_document_valid _ default_entries(1)] default_entries(2)
  by (auto simp: default_document_def)

text \<open>The constructor is stricter than the validator: a manifest with \<open>null\<close> as a reference is accepted,
  and building the map from it raises \<open>TypeError\<close>.\<close>

definition null_reference :: pyval where
  "null_reference = PDict [(''key'', PStr ''tank_level_pv''), (''area'', PStr ''input_register''),
     (''address'', PInt 32), (''reference'', PNone), (''data_type'', PStr ''uint16''), (''scale'', PInt 1),
     (''unit'', PStr ''%''), (''minimum'', PInt 0), (''maximum'', PInt 10000), (''default'', PInt 4700),
     (''writable'', PBool False), (''description'', PStr ''Sump chamber level, measured'')]"

theorem validator_accepts_null_reference:
  "validator_main (Inr (document_with [null_reference])) = Inr 0 \<and>
   RegisterMap_init (document_with [null_reference]) = Inl TypeError"
proof -
  have "validate_registers 0 [null_reference] ([], []) = Inr []"
    by (simp add: null_reference_def validate_register_def REQUIRED_FIELDS_def get_def check_key_def
        check_address_def in_range_def check_def in_areas_PStr check_bounds_def check_writable_def check_scale_def
        ALLOWED_AREAS_def Let_def)
  with document_with_valid have valid: "validate_map (document_with [null_reference]) = Inr []" by blast
  then have "validator_main (Inr (document_with [null_reference])) = Inr 0"
    by (simp add: validator_main_def) (simp add: document_with_def default_document_def)
  moreover have "RegisterMap_init (document_with [null_reference]) = Inl TypeError"
    by (simp add: RegisterMap_init_def document_with_def default_document_def null_reference_def from_dict_def)
  ultimately show ?thesis by blast
qed

theorem validated_process_in_bounds_witness:
  "100 \<le> capacity_liters default_process \<and> capacity_liters default_process \<le> 1000000 \<and>
   1 \<le> auto_hysteresis_raw default_process \<and> auto_hysteresis_raw default_process \<le> 5000"
  using validated_process_in_bounds [OF default_document_valid default_map_init default_process_init] by simp

text \<open>C39: The validator does not know which keys the process model can write: it accepts, and the
  constructor builds, a manifest that differs from the shipped one only in making the high alarm
  limit writable, a key \<open>write_raw\<close> has no handler for.\<close>

theorem validator_accepts_unhandled_key:
  "validator_main (Inr (document_with drifted_registers)) = Inr 0 \<and>
   (\<exists>m. RegisterMap_init (document_with drifted_registers) = Inr m \<and> definitions m = definitions drifted_map) \<and>
   (\<exists>d \<in> set (definitions drifted_map). writable d \<and> key d \<notin> set handled_keys)"
proof -
  have "drifted_registers \<noteq> []" by (simp add: drifted_registers_def default_registers_def)
  from document_with_valid [OF this drifted_registers_valid]
  have valid: "validate_map (document_with drifted_registers) = Inr []" .
  have items: "bindE (py_getitem (document_with drifted_registers) ''registers'') py_iter = Inr drifted_registers"
    by (simp add: document_with_def default_document_def)
  have keys: "distinct (map key (map drift_definition default_definitions))"
    "distinct (map (\<lambda>d. (area d, address d)) (map drift_definition default_definitions))"
    using default_keys_distinct default_locations_distinct by (simp_all add: comp_def)
  have "\<exists>m. RegisterMap_init (document_with drifted_registers) = Inr m \<and> definitions m = definitions drifted_map"
    using keys by (simp add: RegisterMap_init_def items drifted_parsed Let_def drifted_map_def dict_of_fresh comp_def)
  moreover obtain d where d: "d \<in> set default_definitions" "key d = ''high_alarm_limit''"
    by (rule that [of "default_definitions ! 6"]) (simp_all add: default_definitions_def)
  then have "drift_definition d \<in> set (definitions drifted_map)" "writable (drift_definition d)"
    "key (drift_definition d) \<notin> set handled_keys"
    by (simp_all add: drifted_map_def handled_keys_def) (simp add: drift_definition_def)
  then have "\<exists>d \<in> set (definitions drifted_map). writable d \<and> key d \<notin> set handled_keys" by blast
  moreover have "validator_main (Inr (document_with drifted_registers)) = Inr 0"
    using valid by (simp add: validator_main_def) (simp add: document_with_def default_document_def)
  ultimately show ?thesis by blast
qed

section \<open>Reserved host names\<close>

lemma casefold_append: "casefold (s @ t) = casefold s @ casefold t"
  by (simp add: casefold_def)

lemma casefold_dot: "casefold ''.'' = ''.''"
  by (simp add: casefold_def)

lemma join_step: "ss \<noteq> [] \<Longrightarrow> join sep (s # ss) = s @ sep @ join sep ss"
  by (cases ss) simp_all

definition plain_label :: "string \<Rightarrow> bool" where
  "plain_label l \<longleftrightarrow> l \<noteq> [] \<and> casefold l = l \<and>
     CHR ''.'' \<notin> set l \<and> CHR ''/'' \<notin> set l \<and> CHR ''@'' \<notin> set l \<and> CHR '':'' \<notin> set l"

lemma join_labels:
  assumes "labels \<noteq> []" "list_all plain_label labels"
  shows "casefold (join ''.'' labels) = join ''.'' labels \<and> split_on CHR ''.'' (join ''.'' labels) = labels \<and>
    join ''.'' labels \<noteq> [] \<and> last (join ''.'' labels) \<noteq> CHR ''.'' \<and>
    set (join ''.'' labels) \<inter> {CHR ''/'', CHR ''@'', CHR '':''} = {}"
  using assms
proof (induction labels)
  case Nil
  then show ?case by simp
next
  case (Cons l ls)
  have l: "casefold l = l" "l \<noteq> []" "CHR ''.'' \<notin> set l" "set l \<inter> {CHR ''/'', CHR ''@'', CHR '':''} = {}"
    using Cons.prems by (auto simp: plain_label_def)
  have nd: "last l \<noteq> CHR ''.''" using l(2,3) last_in_set by metis
  show ?case
  proof (cases "ls = []")
    case True
    then show ?thesis using l nd by (auto simp: split_on_word)
  next
    case False
    with Cons have IH: "casefold (join ''.'' ls) = join ''.'' ls" "split_on CHR ''.'' (join ''.'' ls) = ls"
      "join ''.'' ls \<noteq> []" "last (join ''.'' ls) \<noteq> CHR ''.''"
      "set (join ''.'' ls) \<inter> {CHR ''/'', CHR ''@'', CHR '':''} = {}" by simp_all
    show ?thesis
      unfolding join_step [OF False]
      using IH l casefold_append [of l] casefold_append [of "''.''" "join ''.'' ls"] casefold_dot split_on_sep [OF l(3)]
      by auto
  qed
qed

text \<open>A host is refused by its trailing labels, never by a substring: for a web address over plain
  labels, exactly the names under \<open>.invalid\<close>, \<open>.example\<close>, \<open>.test\<close>, \<open>.localhost\<close> and
  \<open>example.com/net/org\<close> count as reserved, whatever the path.\<close>

theorem reserved_names_by_label:
  assumes "labels \<noteq> []" "list_all plain_label labels" "scheme \<in> {''http'', ''https''}"
    and "path = [] \<or> hd path = CHR ''/''"
  shows "uses_reserved_name (scheme @ ''://'' @ join ''.'' labels @ path) \<longleftrightarrow>
    last labels \<in> set RESERVED_TLDS \<or>
    2 \<le> length labels \<and> labels ! (length labels - 2) = ''example'' \<and> last labels \<in> {''com'', ''net'', ''org''}"
proof -
  let ?host = "join ''.'' labels"
  note h = join_labels [OF assms(1,2)]
  have "split_last ''://'' (scheme @ ''://'' @ ?host @ path) = ?host @ path"
    using assms(3) by (auto simp: split_last_def)
  moreover have "before_char CHR ''/'' (?host @ path) = ?host"
    using h assms(4) before_char_stop [of "CHR ''/''" ?host "tl path"] before_char_free [of "CHR ''/''" ?host]
    by (cases path) auto
  moreover have "after_last CHR ''@'' ?host = ?host" "before_char CHR '':'' ?host = ?host"
    using h by (auto intro: after_last_free before_char_free)
  ultimately have host: "url_host (scheme @ ''://'' @ ?host @ path) = ?host" by (simp only: url_host_def Let_def)
  have "host_labels ?host = [l \<leftarrow> labels. l \<noteq> []]"
    using h rstrip_char_free [of ?host] by (simp add: host_labels_def)
  also have "\<dots> = labels"
    using assms(2) by (auto simp: list_all_iff plain_label_def intro: filter_True)
  finally show ?thesis using assms(1) unfolding uses_reserved_name_def host by (simp add: Let_def)
qed

theorem reserved_names_by_label_witness:
  "\<not> uses_reserved_name (''https'' @ ''://'' @ join ''.'' [''acme'', ''testlab'', ''com''] @ ''/test'') \<and>
   uses_reserved_name (''http'' @ ''://'' @ join ''.'' [''plc'', ''example'', ''org''] @ [])"
  using reserved_names_by_label [of "[''acme'', ''testlab'', ''com'']" "''https''" "''/test''"]
    reserved_names_by_label [of "[''plc'', ''example'', ''org'']" "''http''" "[]"]
  by (simp add: plain_label_def casefold_def RESERVED_TLDS_def)

end
