(* ===== verification/Stix_Bundle.thy ===== *)
theory Stix_Bundle
  imports Forward_Events
begin

text \<open>
  \<open>tools/build_stix_bundle.py\<close>: collecting the sources of a log and the bundle built from them.
  Standard library conversions are an environment: \<open>ip_address\<close> with what the code asks of an
  address, \<open>utc_millis\<close> (parsing an ISO time and writing it in UTC with milliseconds: \<open>None\<close> for
  the \<open>ValueError\<close> of \<open>fromisoformat\<close>, which the code catches, and an exception for the
  \<open>OverflowError\<close> of \<open>astimezone\<close>, which it does not) and \<open>uuid5\<close> over the STIX namespace.  Writing the file is I/O and left out.
\<close>

section \<open>Bounds\<close>

definition MAX_SOURCES :: nat where "MAX_SOURCES = 10000"
definition MAX_EVENTS :: nat where "MAX_EVENTS = 5000000"

record address_info =
  compressed :: string
  is_global :: bool

record packaging =
  ip_address :: "string \<Rightarrow> address_info option"
  utc_millis :: "string \<Rightarrow> string option result"
  uuid5 :: "string \<Rightarrow> string"

section \<open>Sources\<close>

text \<open>The packager has its own copy of the forwarder's parser.\<close>

definition packager_event :: "nat \<Rightarrow> string \<Rightarrow> event option result" where
  "packager_event depth line = parse_event depth line"

definition stix_time :: "'e packaging_scheme \<Rightarrow> pyval \<Rightarrow> string option result" where
  "stix_time env v =
     (if \<not> truthy v then Inr None else bindE (py_str v) (utc_millis env))"

text \<open>The set of codes keeps the member that was added first, so a code that came as \<open>true\<close> prints
  as such; the set is the list of values with their texts.\<close>

record Source =
  src_value :: string
  src_first :: "string option"
  src_last :: "string option"
  src_count :: nat
  function_codes :: "(int \<times> string) list"
  wrote :: bool

definition Source_init :: "string \<Rightarrow> Source" where
  "Source_init v = \<lparr>src_value = v, src_first = None, src_last = None, src_count = 0, function_codes = [],
     wrote = False\<rparr>"

definition event_get :: "event \<Rightarrow> string \<Rightarrow> pyval" where
  "event_get event k = (case map_of event k of Some v \<Rightarrow> v | None \<Rightarrow> PNone)"

definition earliest :: "string option \<Rightarrow> string \<Rightarrow> string" where
  "earliest old t = (case old of None \<Rightarrow> t | Some o' \<Rightarrow> min o' t)"

definition latest :: "string option \<Rightarrow> string \<Rightarrow> string" where
  "latest old t = (case old of None \<Rightarrow> t | Some o' \<Rightarrow> max o' t)"

definition note_code :: "pyval \<Rightarrow> (int \<times> string) list \<Rightarrow> (int \<times> string) list" where
  "note_code v codes =
     (if is_int v then
        (let n = projr (py_int v) in
         if n \<in> fst ` set codes then codes else codes @ [(n, projr (py_str v))])
      else codes)"

text \<open>A moment is an empty text only when the conversion returns one; it is then as good as none.\<close>

definition observe :: "'e packaging_scheme \<Rightarrow> event \<Rightarrow> Source \<Rightarrow> Source result" where
  "observe env event s =
     bindE (stix_time env (event_get event ''observed_at'')) (\<lambda>moment.
     let s1 = s\<lparr>src_count := src_count s + 1\<rparr>;
         s2 = (case moment of
                 None \<Rightarrow> s1
               | Some t \<Rightarrow> if t = [] then s1
                           else s1\<lparr>src_first := Some (earliest (src_first s1) t),
                                   src_last := Some (latest (src_last s1) t)\<rparr>);
         s3 = s2\<lparr>function_codes := note_code (event_get event ''function_code'') (function_codes s2)\<rparr>
     in Inr (if event_get event ''operation'' = PStr ''write'' then s3\<lparr>wrote := True\<rparr> else s3))"

definition source_key :: "'e packaging_scheme \<Rightarrow> bool \<Rightarrow> event \<Rightarrow> string option" where
  "source_key env include_non_global event =
     (case event_get event ''source_ip'' of
        PStr v \<Rightarrow>
          (case ip_address env v of
             None \<Rightarrow> None
           | Some a \<Rightarrow> if \<not> include_non_global \<and> \<not> is_global a then None else Some (compressed a))
      | _ \<Rightarrow> None)"

type_synonym sources = "(string \<times> Source) list"

definition add_event :: "'e packaging_scheme \<Rightarrow> bool \<Rightarrow> event \<Rightarrow> sources \<Rightarrow> sources result" where
  "add_event env include_non_global event srcs =
     (case source_key env include_non_global event of
        None \<Rightarrow> Inr srcs
      | Some k \<Rightarrow>
          (case map_of srcs k of
             Some s \<Rightarrow> bindE (observe env event s) (\<lambda>s'. Inr (AList.update k s' srcs))
           | None \<Rightarrow>
               if MAX_SOURCES \<le> length srcs then Inl (RuntimeError ''source count exceeded the packaging bound'')
               else bindE (observe env event (Source_init k)) (\<lambda>s'. Inr (srcs @ [(k, s')]))))"

fun collect_from ::
  "'e packaging_scheme \<Rightarrow> nat \<Rightarrow> bool \<Rightarrow> string list \<Rightarrow> nat \<Rightarrow> sources \<Rightarrow> sources result" where
  "collect_from env depth include_non_global [] seen_events srcs = Inr srcs"
| "collect_from env depth include_non_global (raw # rest) seen_events srcs =
     (if MAX_LINE_BYTES < length raw then collect_from env depth include_non_global rest seen_events srcs
      else
        bindE (packager_event depth raw) (\<lambda>e.
        case e of
          None \<Rightarrow> collect_from env depth include_non_global rest seen_events srcs
        | Some event \<Rightarrow>
            if MAX_EVENTS < seen_events + 1
            then Inl (RuntimeError ''event stream exceeded the packaging bound'')
            else bindE (add_event env include_non_global event srcs) (\<lambda>srcs'.
                 collect_from env depth include_non_global rest (seen_events + 1) srcs')))"

definition collect :: "'e packaging_scheme \<Rightarrow> nat \<Rightarrow> bool \<Rightarrow> string list \<Rightarrow> sources result" where
  "collect env depth include_non_global lines = collect_from env depth include_non_global lines 0 []"

section \<open>The bundle\<close>

definition sco_id :: "'e packaging_scheme \<Rightarrow> string \<Rightarrow> pyval \<Rightarrow> string" where
  "sco_id env kind contributing = kind @ ''--'' @ uuid5 env (projr (json_dumps contributing))"

definition sdo_id :: "'e packaging_scheme \<Rightarrow> string \<Rightarrow> string \<Rightarrow> string" where
  "sdo_id env kind seed = kind @ ''--'' @ uuid5 env (kind @ '':'' @ seed)"

definition address_kind :: "string \<Rightarrow> string" where
  "address_kind v = (if CHR '':'' \<in> set v then ''ipv6-addr'' else ''ipv4-addr'')"

definition identity_object :: "'e packaging_scheme \<Rightarrow> string \<Rightarrow> string \<Rightarrow> pyval" where
  "identity_object env sensor now = PDict [
     (''type'', PStr ''identity''), (''spec_version'', PStr ''2.1''),
     (''id'', PStr (sdo_id env ''identity'' sensor)), (''created'', PStr now), (''modified'', PStr now),
     (''name'', PStr sensor), (''identity_class'', PStr ''system''),
     (''description'', PStr ''SimpleICS Pot sensor; observations only, no assessment.'')]"

definition first_seen :: "string \<Rightarrow> Source \<Rightarrow> string" where
  "first_seen now s = (case src_first s of Some t \<Rightarrow> if t = [] then now else t | None \<Rightarrow> now)"

definition last_seen :: "string \<Rightarrow> Source \<Rightarrow> string" where
  "last_seen now s = (case src_last s of Some t \<Rightarrow> if t = [] then first_seen now s else t | None \<Rightarrow> first_seen now s)"

definition code_text :: "Source \<Rightarrow> string" where
  "code_text s =
     (let codes = join '','' (map snd (sort_key fst (function_codes s))) in
      if codes = [] then ''none'' else codes)"

definition observable_id :: "'e packaging_scheme \<Rightarrow> string \<Rightarrow> string" where
  "observable_id env v = sco_id env (address_kind v) (PDict [(''value'', PStr v)])"

definition source_objects :: "'e packaging_scheme \<Rightarrow> string \<Rightarrow> string \<Rightarrow> string \<times> Source \<Rightarrow> pyval list" where
  "source_objects env sensor now entry =
     (let (v, s) = entry; kind = address_kind v; first = first_seen now s; last = last_seen now s;
          identity_id = sdo_id env ''identity'' sensor in
      [PDict [(''type'', PStr kind), (''spec_version'', PStr ''2.1''),
         (''id'', PStr (observable_id env v)), (''value'', PStr v)],
       PDict [(''type'', PStr ''observed-data''), (''spec_version'', PStr ''2.1''),
         (''id'', PStr (sdo_id env ''observed-data'' (v @ ''|'' @ first @ ''|'' @ last))),
         (''created_by_ref'', PStr identity_id), (''created'', PStr now), (''modified'', PStr now),
         (''first_observed'', PStr first), (''last_observed'', PStr last),
         (''number_observed'', PInt (int (min (src_count s) 999999999))),
         (''object_refs'', PList [PStr (observable_id env v)])],
       PDict [(''type'', PStr ''indicator''), (''spec_version'', PStr ''2.1''),
         (''id'', PStr (sdo_id env ''indicator'' (v @ ''|'' @ first))),
         (''created_by_ref'', PStr identity_id), (''created'', PStr now), (''modified'', PStr now),
         (''name'', PStr (''Modbus source '' @ v)),
         (''description'', PStr (''Observed '' @ show_int (int (src_count s)) @ '' Modbus transactions; '' @
            ''function codes seen: '' @ code_text s @ ''.'')),
         (''indicator_types'', PList [PStr ''anomalous-activity'']),
         (''pattern'', PStr (''['' @ kind @ '':value = '' @ [CHR 0x27] @ v @ [CHR 0x27] @ '']'')),
         (''pattern_type'', PStr ''stix''), (''valid_from'', PStr first),
         (''labels'', PList (PStr ''modbus-interaction'' # (if wrote s then [PStr ''attempted-write''] else [])))]])"

definition bundle_objects :: "'e packaging_scheme \<Rightarrow> sources \<Rightarrow> string \<Rightarrow> string \<Rightarrow> pyval list" where
  "bundle_objects env srcs sensor now =
     identity_object env sensor now # concat (map (source_objects env sensor now) (sort_key fst srcs))"

definition build_bundle :: "'e packaging_scheme \<Rightarrow> sources \<Rightarrow> string \<Rightarrow> string \<Rightarrow> pyval" where
  "build_bundle env srcs sensor now = PDict [
     (''type'', PStr ''bundle''), (''id'', PStr (sdo_id env ''bundle'' (sensor @ ''|'' @ now))),
     (''objects'', PList (bundle_objects env srcs sensor now))]"

end
