(* ===== verification/Stix_Props.thy ===== *)
theory Stix_Props
  imports Stix_Bundle
begin

text \<open>
  The packager against its specification: a source is the summary of the events that carry its
  address, whatever their order, and the table of sources is that summary for every address.
\<close>

section \<open>The events of a log\<close>

definition line_event :: "nat \<Rightarrow> string \<Rightarrow> event option" where
  "line_event depth raw =
     (if MAX_LINE_BYTES < length raw then None
      else (case packager_event depth raw of Inr (Some e) \<Rightarrow> Some e | _ \<Rightarrow> None))"

definition events_in :: "nat \<Rightarrow> string list \<Rightarrow> event list" where
  "events_in depth lines = List.map_filter (line_event depth) lines"

fun add_events :: "'e packaging_scheme \<Rightarrow> bool \<Rightarrow> event list \<Rightarrow> sources \<Rightarrow> sources result" where
  "add_events env inc [] srcs = Inr srcs"
| "add_events env inc (e # es) srcs = bindE (add_event env inc e srcs) (add_events env inc es)"

lemma collect_from_events:
  "collect_from env depth inc lines n srcs = Inr srcs' \<Longrightarrow> add_events env inc (events_in depth lines) srcs = Inr srcs'"
proof (induction lines arbitrary: n srcs)
  case Nil
  then show ?case by (simp add: events_in_def map_filter_simps)
next
  case (Cons raw lines)
  have skip: "line_event depth raw = None \<Longrightarrow> events_in depth (raw # lines) = events_in depth lines"
    and keep: "line_event depth raw = Some e \<Longrightarrow> events_in depth (raw # lines) = e # events_in depth lines" for e
    by (simp_all add: events_in_def map_filter_simps)
  show ?case
  proof (cases "MAX_LINE_BYTES < length raw")
    case True
    with Cons skip show ?thesis by (simp add: line_event_def)
  next
    case False
    with Cons.prems obtain x where x: "packager_event depth raw = Inr x" by (auto simp: bindE_eq_Inr)
    show ?thesis
    proof (cases x)
      case None
      with Cons False x skip show ?thesis by (simp add: line_event_def)
    next
      case (Some e)
      with False x have "line_event depth raw = Some e" by (simp add: line_event_def)
      moreover obtain srcs1 where "add_event env inc e srcs = Inr srcs1"
        "collect_from env depth inc lines (n + 1) srcs1 = Inr srcs'"
        using Cons.prems False x Some by (auto simp: bindE_eq_Inr split: if_splits)
      ultimately show ?thesis using Cons.IH keep by simp
    qed
  qed
qed

section \<open>One source\<close>

definition moments :: "'e packaging_scheme \<Rightarrow> event list \<Rightarrow> string set" where
  "moments env es = {t. t \<noteq> [] \<and> (\<exists>e\<in>set es. stix_time env (event_get e ''observed_at'') = Inr (Some t))}"

definition codes_of :: "event list \<Rightarrow> int set" where
  "codes_of es = {n. \<exists>e\<in>set es. is_int (event_get e ''function_code'') \<and> py_int (event_get e ''function_code'') = Inr n}"

definition summarises :: "'e packaging_scheme \<Rightarrow> string \<Rightarrow> event list \<Rightarrow> Source \<Rightarrow> bool" where
  "summarises env k es s \<longleftrightarrow>
     src_value s = k \<and> src_count s = length es \<and>
     wrote s = (\<exists>e\<in>set es. event_get e ''operation'' = PStr ''write'') \<and>
     src_first s = (if moments env es = {} then None else Some (Min (moments env es))) \<and>
     src_last s = (if moments env es = {} then None else Some (Max (moments env es))) \<and>
     distinct (map fst (function_codes s)) \<and> fst ` set (function_codes s) = codes_of es"

lemma moments_snoc:
  "moments env (es @ [e]) =
     (case stix_time env (event_get e ''observed_at'') of
        Inr (Some t) \<Rightarrow> if t = [] then moments env es else insert t (moments env es)
      | _ \<Rightarrow> moments env es)"
  by (auto simp: moments_def split: sum.split option.split)

lemma finite_moments: "finite (moments env es)"
proof (induction es rule: rev_induct)
  case Nil
  then show ?case by (simp add: moments_def)
next
  case (snoc e es)
  then show ?case by (simp add: moments_snoc split: sum.split option.split)
qed

lemma codes_of_snoc:
  "codes_of (es @ [e]) =
     (if is_int (event_get e ''function_code'') then insert (projr (py_int (event_get e ''function_code''))) (codes_of es)
      else codes_of es)"
proof -
  have "py_int v = Inr (projr (py_int v))" if "is_int v" for v using that by (cases v) auto
  then show ?thesis by (auto simp: codes_of_def)
qed

lemma earliest_Min:
  "finite M \<Longrightarrow> earliest (if M = {} then None else Some (Min M)) t = Min (insert t M)"
  by (simp add: earliest_def min.commute)

lemma latest_Max:
  "finite M \<Longrightarrow> latest (if M = {} then None else Some (Max M)) t = Max (insert t M)"
  by (simp add: latest_def max.commute)

lemma note_code_codes:
  "fst ` set (note_code v codes) = (if is_int v then insert (projr (py_int v)) (fst ` set codes) else fst ` set codes)"
  "distinct (map fst codes) \<Longrightarrow> distinct (map fst (note_code v codes))"
  by (auto simp: note_code_def Let_def)

lemma summarises_init: "summarises env k [] (Source_init k)"
  by (simp add: summarises_def Source_init_def moments_def codes_of_def)

lemma observe_summarises:
  assumes "summarises env k es s" "observe env e s = Inr s'"
  shows "summarises env k (es @ [e]) s'"
proof -
  obtain moment where m: "stix_time env (event_get e ''observed_at'') = Inr moment"
    using assms(2) by (auto simp: observe_def bindE_eq_Inr)
  have fields: "src_value s' = src_value s" "src_count s' = src_count s + 1"
    "wrote s' = (event_get e ''operation'' = PStr ''write'' \<or> wrote s)"
    "function_codes s' = note_code (event_get e ''function_code'') (function_codes s)"
    "src_first s' = (case moment of None \<Rightarrow> src_first s | Some t \<Rightarrow> if t = [] then src_first s else Some (earliest (src_first s) t))"
    "src_last s' = (case moment of None \<Rightarrow> src_last s | Some t \<Rightarrow> if t = [] then src_last s else Some (latest (src_last s) t))"
    using assms(2) by (auto simp: observe_def m Let_def split: option.splits if_splits)
  show ?thesis
    using assms(1) finite_moments [of env es]
    unfolding summarises_def fields moments_snoc codes_of_snoc m
    by (auto simp: note_code_codes earliest_Min latest_Max split: option.split)
qed

section \<open>The table\<close>

definition of_source :: "'e packaging_scheme \<Rightarrow> bool \<Rightarrow> string \<Rightarrow> event list \<Rightarrow> event list" where
  "of_source env inc k es = [e \<leftarrow> es. source_key env inc e = Some k]"

definition row_ok :: "'e packaging_scheme \<Rightarrow> string \<Rightarrow> event list \<Rightarrow> Source option \<Rightarrow> bool" where
  "row_ok env k es row = (case row of None \<Rightarrow> es = [] | Some s \<Rightarrow> es \<noteq> [] \<and> summarises env k es s)"

lemma row_ok_simps [simp]:
  "row_ok env k es None \<longleftrightarrow> es = []" "row_ok env k es (Some s) \<longleftrightarrow> es \<noteq> [] \<and> summarises env k es s"
  by (simp_all add: row_ok_def)

definition table_ok :: "'e packaging_scheme \<Rightarrow> bool \<Rightarrow> event list \<Rightarrow> sources \<Rightarrow> bool" where
  "table_ok env inc es srcs \<longleftrightarrow> distinct (map fst srcs) \<and>
     (\<forall>k. row_ok env k (of_source env inc k es) (map_of srcs k))"

lemma of_source_snoc:
  "of_source env inc k (es @ [e]) = of_source env inc k es @ (if source_key env inc e = Some k then [e] else [])"
  by (simp add: of_source_def)

lemma table_okD: "table_ok env inc es srcs \<Longrightarrow> row_ok env k (of_source env inc k es) (map_of srcs k)"
  by (simp add: table_ok_def)

lemma add_event_ok:
  assumes ok: "table_ok env inc es srcs" and add: "add_event env inc e srcs = Inr srcs'"
  shows "table_ok env inc (es @ [e]) srcs'"
proof (cases "source_key env inc e")
  case None
  with ok add show ?thesis by (simp add: table_ok_def add_event_def of_source_snoc)
next
  case (Some k)
  have others: "row_ok env k' (of_source env inc k' (es @ [e])) (map_of srcs k')" if "k' \<noteq> k" for k'
    using table_okD [OF ok, of k'] that Some by (simp add: of_source_snoc)
  have here: "of_source env inc k (es @ [e]) = of_source env inc k es @ [e]" using Some by (simp add: of_source_snoc)
  show ?thesis
  proof (cases "map_of srcs k")
    case None
    obtain s' where s': "observe env e (Source_init k) = Inr s'" and srcs': "srcs' = srcs @ [(k, s')]"
      using add Some None by (auto simp: add_event_def bindE_eq_Inr split: if_splits)
    have "of_source env inc k es = []" using table_okD [OF ok, of k] None by simp
    then have "row_ok env k (of_source env inc k (es @ [e])) (Some s')"
      using observe_summarises [OF summarises_init s'] here by simp
    moreover have "map_of srcs' k' = (if k' = k then Some s' else map_of srcs k')" for k'
      using None by (simp add: srcs' map_add_def split: option.split)
    moreover have "distinct (map fst srcs')"
      using ok None by (auto simp: srcs' table_ok_def map_of_eq_None_iff)
    ultimately show ?thesis using others by (simp add: table_ok_def)
  next
    case old: (Some s)
    obtain s' where s': "observe env e s = Inr s'" and srcs': "srcs' = AList.update k s' srcs"
      using add Some old by (auto simp: add_event_def bindE_eq_Inr)
    have "summarises env k (of_source env inc k es) s" using table_okD [OF ok, of k] old by simp
    from observe_summarises [OF this s']
    have "row_ok env k (of_source env inc k (es @ [e])) (Some s')" by (simp add: here)
    moreover have "map_of srcs' k' = (if k' = k then Some s' else map_of srcs k')" for k'
      by (simp add: srcs' update_conv)
    moreover have "distinct (map fst srcs')" using ok by (simp add: srcs' table_ok_def distinct_update)
    ultimately show ?thesis using others by (simp add: table_ok_def)
  qed
qed

lemma add_events_ok:
  "table_ok env inc es srcs \<Longrightarrow> add_events env inc es' srcs = Inr srcs' \<Longrightarrow> table_ok env inc (es @ es') srcs'"
proof (induction es' arbitrary: es srcs)
  case Nil
  then show ?case by simp
next
  case (Cons e es')
  obtain srcs1 where "add_event env inc e srcs = Inr srcs1" "add_events env inc es' srcs1 = Inr srcs'"
    using Cons.prems(2) by (auto simp: bindE_eq_Inr)
  with Cons.IH [OF add_event_ok [OF Cons.prems(1)]] show ?case by simp
qed

lemma collect_ok:
  assumes "collect env depth inc lines = Inr srcs"
  shows "table_ok env inc (events_in depth lines) srcs"
proof -
  have "table_ok env inc [] []" by (simp add: table_ok_def of_source_def)
  from add_events_ok [OF this collect_from_events] assms show ?thesis by (simp add: collect_def)
qed

end
