(* ===== verification/Stix_Write.thy ===== *)
theory Stix_Write
  imports Stix_Bundle Json_Decode
begin

text \<open>
  \<open>write_bundle\<close> and \<open>main\<close> of \<open>tools/build_stix_bundle.py\<close>.  The file system is a map from paths to
  texts; writing a file passes through every prefix of its text, moving one is a single step, and
  the machine may stop, or a collector look, at any of them.
\<close>

section \<open>Indented JSON\<close>

text \<open>\<open>json.dumps(v, indent=2, sort_keys=True)\<close>; \<open>l\<close> is the level of nesting.\<close>

definition fresh_line :: "nat \<Rightarrow> string" where
  "fresh_line l = newline # replicate (2 * l) CHR '' ''"

fun dumps_indent :: "nat \<Rightarrow> pyval \<Rightarrow> string result" where
  "dumps_indent l (PList []) = Inr ''[]''"
| "dumps_indent l (PList (x # xs)) =
     bindE (mapE (dumps_indent (Suc l)) (x # xs)) (\<lambda>ts.
     Inr (''['' @ fresh_line (Suc l) @ join ('','' @ fresh_line (Suc l)) ts @ fresh_line l @ '']''))"
| "dumps_indent l (PDict []) = Inr ''{}''"
| "dumps_indent l (PDict (e # es)) =
     bindE (mapE (\<lambda>(k, v). bindE (dumps_indent (Suc l) v) (\<lambda>t. Inr (k, t))) (e # es)) (\<lambda>kts.
     Inr (''{'' @ fresh_line (Suc l) @
       join ('','' @ fresh_line (Suc l)) (map (\<lambda>(k, t). json_string k @ '': '' @ t) (sort_key fst kts)) @
       fresh_line l @ ''}''))"
| "dumps_indent l v = json_dumps v"

section \<open>Writing the file\<close>

datatype file_step =
    MakeDirs string
  | WriteText string string
  | Replace string string
  | ChangeMode string int

type_synonym files = "string \<rightharpoonup> string"

text \<open>The states a step leaves behind it, and those it passes through.\<close>

fun step_end :: "file_step \<Rightarrow> files \<Rightarrow> files" where
  "step_end (WriteText p t) fs = fs(p \<mapsto> t)"
| "step_end (Replace p q) fs = (fs(q := fs p))(p := None)"
| "step_end _ fs = fs"

inductive passes :: "file_step list \<Rightarrow> files \<Rightarrow> files \<Rightarrow> bool" where
  now: "passes steps fs fs"
| writing: "passes (WriteText p t # steps) fs (fs(p \<mapsto> take n t))"
| later: "passes steps (step_end s fs) fs' \<Longrightarrow> passes (s # steps) fs fs'"

definition stamp :: "string \<Rightarrow> string" where
  "stamp now = [c \<leftarrow> now. c \<notin> set '':-.'']"

text \<open>A directory is the text of a \<open>Path\<close>, so an empty one is a dot.  \<open>with_suffix\<close> takes off the last suffix, here \<open>.json\<close>.\<close>

definition path_in :: "string \<Rightarrow> string \<Rightarrow> string" where
  "path_in dir name = (if dir = ''.'' then name else if last dir = CHR ''/'' then dir @ name else dir @ ''/'' @ name)"

definition bundle_path :: "string \<Rightarrow> string \<Rightarrow> string" where
  "bundle_path dir now = path_in dir (''simpleics-pot-'' @ stamp now @ ''.stix.json'')"

definition partial_path :: "string \<Rightarrow> string \<Rightarrow> string" where
  "partial_path dir now = path_in dir (''simpleics-pot-'' @ stamp now @ ''.stix.partial'')"

definition write_bundle :: "pyval \<Rightarrow> string \<Rightarrow> string \<Rightarrow> (file_step list \<times> string) result" where
  "write_bundle bundle dir now =
     bindE (dumps_indent 0 bundle) (\<lambda>t.
     Inr ([MakeDirs dir, WriteText (partial_path dir now) (t @ [newline]),
           Replace (partial_path dir now) (bundle_path dir now), ChangeMode (bundle_path dir now) 420],
          bundle_path dir now))"

section \<open>The program\<close>

record packager_arguments =
  output_dir :: "string option"
  sensor_name :: string
  include_non_global :: bool

text \<open>The lines come from the input file or standard input; \<open>now\<close> is the current time as text.  The
  result is what the program does to the file system and what it prints.  Opening and decoding the
  input, and \<open>json.dumps\<close> with its default separators for the summary, are as the library has them.\<close>

definition summary_text :: "string \<Rightarrow> nat \<Rightarrow> nat \<Rightarrow> string" where
  "summary_text path sources objects =
     ''{'' @ json_string ''bundle'' @ '': '' @ json_string path @ '', '' @
     json_string ''objects'' @ '': '' @ show_int (int objects) @ '', '' @
     json_string ''sources'' @ '': '' @ show_int (int sources) @ ''}''"

definition packager_main ::
  "'e packaging_scheme \<Rightarrow> nat \<Rightarrow> packager_arguments \<Rightarrow> string \<Rightarrow> string list \<Rightarrow> (file_step list \<times> string) result" where
  "packager_main env depth args now lines =
     bindE (collect env depth (include_non_global args) lines) (\<lambda>srcs.
     let bundle = build_bundle env srcs (sensor_name args) now in
     case output_dir args of
       Some dir \<Rightarrow>
         bindE (write_bundle bundle dir now) (\<lambda>(steps, path).
         Inr (steps, summary_text path (length srcs) (length (bundle_objects env srcs (sensor_name args) now))))
     | None \<Rightarrow> bindE (dumps_indent 0 bundle) (\<lambda>t. Inr ([], t)))"

section \<open>Never half a bundle\<close>

definition finished_name :: "string \<Rightarrow> bool" where
  "finished_name q \<longleftrightarrow> (\<exists>p. q = p @ ''.stix.json'')"

lemma partial_unfinished: "\<not> finished_name (partial_path dir now)"
proof
  assume "finished_name (partial_path dir now)"
  then obtain p where "partial_path dir now = p @ ''.stix.json''" by (auto simp: finished_name_def)
  then have "last (partial_path dir now) = CHR ''n''" by simp
  then show False by (simp add: partial_path_def path_in_def split: if_splits)
qed

lemma bundle_path_finished: "finished_name (bundle_path dir now)"
  unfolding finished_name_def bundle_path_def path_in_def
  by (cases "dir = ''.''"; cases "last dir = CHR ''/''") (auto intro: exI [of _ "_ @ _"])

inductive_cases passes_NilE [elim!]: "passes [] fs fs'"
inductive_cases passes_ConsE: "passes (s # steps) fs fs'"

lemma dumps_indent_total: "float_free v \<Longrightarrow> isOK (dumps_indent l v)"
  by (induction l v rule: dumps_indent.induct) (fastforce simp: isOK_mapE list_all_iff)+

text \<open>Whoever looks while a bundle is written sees the files as they were, or the whole bundle.\<close>

lemma write_bundle_atomic:
  assumes "write_bundle bundle dir now = Inr (steps, path)" "passes steps fs fs'" "finished_name q"
  shows "fs' q = fs q \<or> q = path \<and> (\<exists>t. dumps_indent 0 bundle = Inr t \<and> fs' q = Some (t @ [newline]))"
proof -
  obtain t where t: "dumps_indent 0 bundle = Inr t" "path = bundle_path dir now"
    "steps = [MakeDirs dir, WriteText (partial_path dir now) (t @ [newline]),
       Replace (partial_path dir now) (bundle_path dir now), ChangeMode (bundle_path dir now) 420]"
    using assms(1) by (auto simp: write_bundle_def bindE_eq_Inr)
  have "q \<noteq> partial_path dir now" using assms(3) partial_unfinished by blast
  with assms(2) t(1,2) show ?thesis
    unfolding t(3) by (auto elim!: passes_ConsE split: if_splits)
qed

end
