(* ===== verification/Stix_Claims.thy ===== *)
theory Stix_Claims
  imports Stix_Props Stix_Write Forward_Props "HOL-Library.Multiset"
begin

text \<open>
  What the packager promises: every source summarises exactly its events, nobody outside the
  global address space is published by default, every reference in a bundle resolves, and the
  bundle does not depend on the order of the log.
\<close>

section \<open>Sources\<close>

text \<open>C22: After a collection, an address is in the table exactly when some event carries it, and its
  source counts those events, spans them from the earliest to the latest moment, knows exactly
  their function codes and whether one of them was a write.\<close>

theorem sources_summarise_events:
  assumes "collect env depth inc lines = Inr srcs"
  shows "distinct (map fst srcs) \<and>
    (\<forall>k. let es = of_source env inc k (events_in depth lines) in
       case map_of srcs k of None \<Rightarrow> es = []
       | Some s \<Rightarrow> es \<noteq> [] \<and> src_count s = length es \<and>
           src_first s = (if moments env es = {} then None else Some (Min (moments env es))) \<and>
           src_last s = (if moments env es = {} then None else Some (Max (moments env es))) \<and>
           fst ` set (function_codes s) = codes_of es \<and>
           wrote s = (\<exists>e\<in>set es. event_get e ''operation'' = PStr ''write''))"
proof (intro conjI allI)
  note ok = collect_ok [OF assms]
  show "distinct (map fst srcs)" using ok by (simp add: table_ok_def)
  fix k
  show "let es = of_source env inc k (events_in depth lines) in
       case map_of srcs k of None \<Rightarrow> es = []
       | Some s \<Rightarrow> es \<noteq> [] \<and> src_count s = length es \<and>
           src_first s = (if moments env es = {} then None else Some (Min (moments env es))) \<and>
           src_last s = (if moments env es = {} then None else Some (Max (moments env es))) \<and>
           fst ` set (function_codes s) = codes_of es \<and>
           wrote s = (\<exists>e\<in>set es. event_get e ''operation'' = PStr ''write'')"
    using table_okD [OF ok, of k]
    by (cases "map_of srcs k") (simp_all add: summarises_def Let_def)
qed

definition sample_packaging :: packaging where
  "sample_packaging = \<lparr>ip_address = (\<lambda>s. if s \<in> {''8.8.8.8'', ''1.1.1.1''} then Some \<lparr>compressed = s, is_global = True\<rparr>
     else if s = ''10.0.0.9'' then Some \<lparr>compressed = s, is_global = False\<rparr> else None),
     utc_millis = (\<lambda>s. Inr (Some s)), uuid5 = (\<lambda>s. s)\<rparr>"

text \<open>A log of one event and a banner.\<close>

definition sample_kvs :: event where
  "sample_kvs = [(''event_type'', PStr ''modbus_transaction''), (''operation'', PStr ''write''),
     (''source_ip'', PStr ''8.8.8.8'')]"

definition sample_line :: string where
  "sample_line = [] @ ''simpleics_pot.event '' @ projr (json_dumps (PDict sample_kvs)) @ [newline]"

lemma sample_line_event: "packager_event 9 sample_line = Inr (Some sample_kvs)"
proof -
  have "json_dumps (PDict sample_kvs) = Inr (projr (json_dumps (PDict sample_kvs)))"
    by (simp add: sample_kvs_def)
  from parse_event_logged [OF this, of 9 "[]"] show ?thesis
    by (simp add: packager_event_def sample_line_def) (simp add: sample_kvs_def)
qed

lemma sample_line_length: "length sample_line \<le> MAX_LINE_BYTES"
  by (simp add: sample_line_def sample_kvs_def json_string_def json_char_def MAX_LINE_BYTES_def)

lemma banner_no_event: "packager_event depth ''banner'' = Inr None"
  by (simp add: packager_event_def parse_event_def event_line_def strip_def rstrip_def object_at_def
      after_logger_def py_space_def starts_def Let_def)

definition sample_source :: Source where
  "sample_source = (Source_init ''8.8.8.8'')\<lparr>src_count := 1, wrote := True\<rparr>"

lemma sample_add: "add_event sample_packaging False sample_kvs [] = Inr [(''8.8.8.8'', sample_source)]"
  by (simp add: add_event_def source_key_def event_get_def sample_kvs_def sample_packaging_def observe_def
      stix_time_def Let_def note_code_def sample_source_def Source_init_def MAX_SOURCES_def)

lemma sample_collect:
  "collect sample_packaging 9 False [sample_line, ''banner''] = Inr [(''8.8.8.8'', sample_source)]"
  "collect sample_packaging 9 False [''banner'', sample_line] = Inr [(''8.8.8.8'', sample_source)]"
  using sample_line_length
  by (simp_all add: collect_def sample_line_event banner_no_event sample_add MAX_EVENTS_def MAX_LINE_BYTES_def)

lemma sample_events:
  "events_in 9 [sample_line, ''banner''] = [sample_kvs]" "events_in 9 [''banner'', sample_line] = [sample_kvs]"
  using sample_line_length
  by (simp_all add: events_in_def map_filter_simps line_event_def sample_line_event banner_no_event MAX_LINE_BYTES_def)

theorem sources_summarise_events_witness:
  "src_count sample_source = length (of_source sample_packaging False ''8.8.8.8'' [sample_kvs]) \<and>
   wrote sample_source = (\<exists>e\<in>set (of_source sample_packaging False ''8.8.8.8'' [sample_kvs]).
     event_get e ''operation'' = PStr ''write'')"
  using sources_summarise_events [OF sample_collect(1), THEN conjunct2, THEN spec [of _ "''8.8.8.8''"]]
  by (simp add: Let_def sample_events)

text \<open>Without the option for lab exercises, every packaged address is one the address library calls
  global, and some event of the log came from it: no private or reserved address is published.\<close>

theorem only_global_sources:
  assumes "collect env depth False lines = Inr srcs" "k \<in> fst ` set srcs"
  shows "\<exists>e v a. e \<in> set (events_in depth lines) \<and> event_get e ''source_ip'' = PStr v \<and>
    ip_address env v = Some a \<and> is_global a \<and> compressed a = k"
proof -
  have "map_of srcs k \<noteq> None" using assms(2) by (simp add: map_of_eq_None_iff)
  then obtain s where "map_of srcs k = Some s" by auto
  with table_okD [OF collect_ok [OF assms(1)], of k] have "of_source env False k (events_in depth lines) \<noteq> []"
    by simp
  then obtain e where "e \<in> set (events_in depth lines)" "source_key env False e = Some k"
    by (auto simp: of_source_def filter_empty_conv)
  then show ?thesis by (auto simp: source_key_def split: pyval.splits option.splits if_splits)
qed

theorem only_global_sources_witness:
  "\<exists>e v a. e \<in> set [sample_kvs] \<and> event_get e ''source_ip'' = PStr v \<and>
     ip_address sample_packaging v = Some a \<and> is_global a \<and> compressed a = ''8.8.8.8''"
  using only_global_sources [OF sample_collect(1), of "''8.8.8.8''"] by (simp add: sample_events)

section \<open>References\<close>

fun object_id :: "pyval \<Rightarrow> pyval" where
  "object_id (PDict d) = event_get d ''id''"
| "object_id _ = PNone"

text \<open>The identifiers an object refers to.\<close>

fun references :: "pyval \<Rightarrow> pyval list" where
  "references (PDict d) =
     (case map_of d ''created_by_ref'' of None \<Rightarrow> [] | Some r \<Rightarrow> [r]) @
     (case map_of d ''object_refs'' of Some (PList rs) \<Rightarrow> rs | _ \<Rightarrow> [])"
| "references _ = []"

lemma source_objects_refs:
  "length (source_objects env sensor now entry) = 3 \<and>
   (\<forall>obj \<in> set (source_objects env sensor now entry). set (references obj) \<subseteq>
      {PStr (sdo_id env ''identity'' sensor)} \<union> object_id ` set (source_objects env sensor now entry))"
  by (cases entry) (simp add: source_objects_def Let_def event_get_def)

text \<open>A bundle holds the sensor's identity and three objects per source, and every reference in it
  names an object of the same bundle.\<close>

theorem bundle_references_resolve:
  "length (bundle_objects env srcs sensor now) = 1 + 3 * length srcs \<and>
   (\<forall>obj \<in> set (bundle_objects env srcs sensor now).
      set (references obj) \<subseteq> object_id ` set (bundle_objects env srcs sensor now))"
proof -
  let ?objs = "bundle_objects env srcs sensor now"
  have id: "PStr (sdo_id env ''identity'' sensor) \<in> object_id ` set ?objs"
    by (rule image_eqI [of _ _ "identity_object env sensor now"])
      (simp_all add: bundle_objects_def identity_object_def event_get_def)
  have "length (concat (map (source_objects env sensor now) xs)) = 3 * length xs" for xs
    by (induction xs) (simp_all add: source_objects_refs)
  then have "length ?objs = 1 + 3 * length srcs" by (simp add: bundle_objects_def)
  moreover have "set (references obj) \<subseteq> object_id ` set ?objs" if obj: "obj \<in> set ?objs" for obj
  proof (cases "obj = identity_object env sensor now")
    case True
    then show ?thesis by (simp add: identity_object_def)
  next
    case False
    with obj obtain entry where entry: "entry \<in> set srcs" "obj \<in> set (source_objects env sensor now entry)"
      by (auto simp: bundle_objects_def)
    then have "object_id ` set (source_objects env sensor now entry) \<subseteq> object_id ` set ?objs"
      by (intro image_mono) (auto simp: bundle_objects_def)
    with source_objects_refs [of env sensor now entry] entry(2) id show ?thesis by blast
  qed
  ultimately show ?thesis by blast
qed

theorem bundle_references_resolve_witness:
  "let objs = bundle_objects sample_packaging [(''8.8.8.8'', sample_source)] ''pot'' ''2026-01-01T00:00:00.000Z'' in
     length objs = 4 \<and> set (references (objs ! 2)) \<subseteq> object_id ` set objs"
  using bundle_references_resolve [of sample_packaging "[(''8.8.8.8'', sample_source)]" "''pot''"
      "''2026-01-01T00:00:00.000Z''"]
  by (simp only: Let_def) (simp add: numeral_eq_Suc)

section \<open>Order\<close>

text \<open>Two summaries of the same events, in whatever order, make the same objects, unless a function
  code came as a truth value, which prints as it came first.\<close>

definition plain_codes :: "event list \<Rightarrow> bool" where
  "plain_codes es \<longleftrightarrow> list_all (\<lambda>e. \<not> is_bool (event_get e ''function_code'')) es"

definition codes_printed :: "(int \<times> string) list \<Rightarrow> bool" where
  "codes_printed codes \<longleftrightarrow> list_all (\<lambda>(n, t). t = show_int n) codes"

lemma note_code_printed:
  "\<not> is_bool v \<Longrightarrow> codes_printed codes \<Longrightarrow> codes_printed (note_code v codes)"
  by (cases v) (simp_all add: note_code_def codes_printed_def Let_def)

lemma add_event_printed:
  assumes "add_event env inc e srcs = Inr srcs'" "\<not> is_bool (event_get e ''function_code'')"
    and "\<forall>(k, s) \<in> set srcs. codes_printed (function_codes s)"
  shows "\<forall>(k, s) \<in> set srcs'. codes_printed (function_codes s)"
proof -
  have obs: "codes_printed (function_codes s')"
    if "observe env e s = Inr s'" "codes_printed (function_codes s)" for s s'
    using that note_code_printed [OF assms(2)]
    by (auto simp: observe_def bindE_eq_Inr Let_def split: option.splits if_splits)
  have init: "codes_printed (function_codes (Source_init k))" for k
    by (simp add: codes_printed_def Source_init_def)
  show ?thesis
  proof (cases "source_key env inc e")
    case None
    with assms show ?thesis by (simp add: add_event_def)
  next
    case (Some k)
    show ?thesis
    proof (cases "map_of srcs k")
      case None
      then obtain s' where "observe env e (Source_init k) = Inr s'" "srcs' = srcs @ [(k, s')]"
        using assms(1) Some by (auto simp: add_event_def bindE_eq_Inr split: if_splits)
      with obs [OF _ init] assms(3) show ?thesis by auto
    next
      case old: (Some s)
      then obtain s' where s': "observe env e s = Inr s'" "srcs' = AList.update k s' srcs"
        using assms(1) Some by (auto simp: add_event_def bindE_eq_Inr)
      have "codes_printed (function_codes s')" using obs [OF s'(1)] map_of_SomeD [OF old] assms(3) by auto
      with assms(3) set_update [of k s' srcs] show ?thesis unfolding s'(2) by blast
    qed
  qed
qed

lemma add_events_printed:
  "add_events env inc es srcs = Inr srcs' \<Longrightarrow> plain_codes es \<Longrightarrow>
     \<forall>(k, s) \<in> set srcs. codes_printed (function_codes s) \<Longrightarrow>
     \<forall>(k, s) \<in> set srcs'. codes_printed (function_codes s)"
proof (induction es arbitrary: srcs)
  case Nil
  then show ?case by simp
next
  case (Cons e es)
  obtain srcs1 where add: "add_event env inc e srcs = Inr srcs1" and rest: "add_events env inc es srcs1 = Inr srcs'"
    using Cons.prems(1) by (auto simp: bindE_eq_Inr)
  from Cons.prems(2) have plain: "\<not> is_bool (event_get e ''function_code'')" "plain_codes es"
    by (simp_all add: plain_codes_def)
  show ?case by (rule Cons.IH [OF rest plain(2) add_event_printed [OF add plain(1) Cons.prems(3)]])
qed

lemma collect_printed:
  assumes "collect env depth inc lines = Inr srcs" "plain_codes (events_in depth lines)"
  shows "\<forall>(k, s) \<in> set srcs. codes_printed (function_codes s)"
proof -
  from assms(1) have "collect_from env depth inc lines 0 [] = Inr srcs" by (simp add: collect_def)
  from add_events_printed [OF collect_from_events [OF this] assms(2)] show ?thesis by simp
qed

lemma printed_codes_text:
  assumes "codes_printed xs" "codes_printed ys" "distinct (map fst xs)" "distinct (map fst ys)"
    and "fst ` set xs = fst ` set ys"
  shows "sort_key fst xs = sort_key fst ys"
proof -
  have "set zs = (\<lambda>n. (n, show_int n)) ` fst ` set zs" if "codes_printed zs" for zs :: "(int \<times> string) list"
    using that by (force simp: codes_printed_def list_all_iff image_image)
  from this [OF assms(1)] this [OF assms(2)] assms(5) have "set xs = set ys" by simp
  moreover have "distinct xs" "distinct ys" using assms(3,4) by (simp_all add: distinct_map)
  ultimately have "mset xs = mset (sort_key fst ys)" by (simp add: set_eq_iff_mset_eq_distinct)
  moreover have "inj_on fst (set xs)" using assms(3) by (simp add: distinct_map)
  ultimately show ?thesis by (rule sort_key_inj_key_eq) simp
qed

lemma source_objects_cong:
  assumes "summarises env k es s" "summarises env k es' s'" "mset es = mset es'"
    and "codes_printed (function_codes s)" "codes_printed (function_codes s')"
  shows "source_objects env sensor now (k, s) = source_objects env sensor now (k, s')"
proof -
  have es: "set es = set es'" "length es = length es'"
    using assms(3) by (metis set_mset_mset, metis size_mset)
  then have sets: "moments env es = moments env es'" "codes_of es = codes_of es'"
    by (simp_all add: moments_def codes_of_def)
  have "sort_key fst (function_codes s) = sort_key fst (function_codes s')"
    using assms sets by (intro printed_codes_text) (simp_all add: summarises_def)
  then have "code_text s = code_text s'" by (simp add: code_text_def)
  moreover have "src_count s = src_count s'" "src_first s = src_first s'" "src_last s = src_last s'" "wrote s = wrote s'"
    using assms(1,2) es sets by (simp_all add: summarises_def)
  moreover from this have "first_seen now s = first_seen now s'" by (simp add: first_seen_def)
  moreover from calculation have "last_seen now s = last_seen now s'"
    by (simp add: last_seen_def split: option.split)
  ultimately show ?thesis by (simp add: source_objects_def)
qed

lemma sort_key_map_of:
  assumes "distinct (map fst srcs)"
  shows "sort_key fst srcs = map (\<lambda>k. (k, the (map_of srcs k))) (sort (map fst srcs))"
proof (rule sort_key_inj_key_eq)
  have "map (\<lambda>k. (k, the (map_of srcs k))) (map fst srcs) = srcs"
    using assms by (auto intro!: map_idI)
  then show "mset srcs = mset (map (\<lambda>k. (k, the (map_of srcs k))) (sort (map fst srcs)))"
    by (metis mset_map mset_sort)
  show "inj_on fst (set srcs)" using assms by (simp add: distinct_map)
  show "sorted (map fst (map (\<lambda>k. (k, the (map_of srcs k))) (sort (map fst srcs))))" by (simp add: comp_def)
qed

text \<open>C10: Packaging does not depend on the order of the log: two logs that can both be collected and
  hold the same events, each as often, give the same bundle, as long as no event gives its
  function code as a truth value (\<open>true\<close> and 1 are one member of the set of codes, printed the
  way it came first).\<close>

theorem bundle_independent_of_order:
  assumes c: "collect env depth inc lines = Inr srcs" and c': "collect env depth inc lines' = Inr srcs'"
    and same: "mset (events_in depth lines) = mset (events_in depth lines')"
    and plain: "plain_codes (events_in depth lines)"
  shows "build_bundle env srcs sensor now = build_bundle env srcs' sensor now"
proof -
  let ?es = "\<lambda>k. of_source env inc k (events_in depth lines)"
  let ?es' = "\<lambda>k. of_source env inc k (events_in depth lines')"
  note ok = collect_ok [OF c] and ok' = collect_ok [OF c']
  have each: "mset (?es k) = mset (?es' k)" for k using same by (simp add: of_source_def mset_filter)
  have "set (events_in depth lines) = set (events_in depth lines')" using same by (metis set_mset_mset)
  then have plain': "plain_codes (events_in depth lines')" using plain by (simp add: plain_codes_def list_all_iff)
  have dist: "distinct (map fst srcs)" "distinct (map fst srcs')" using ok ok' by (simp_all add: table_ok_def)
  have rows: "(map_of srcs k = None) = (map_of srcs' k = None)" for k
    using table_okD [OF ok, of k] table_okD [OF ok', of k] each [of k]
    by (cases "map_of srcs k"; cases "map_of srcs' k") auto
  then have keys: "set (map fst srcs) = set (map fst srcs')" by (simp add: map_of_eq_None_iff) blast
  then have sorted: "sort (map fst srcs) = sort (map fst srcs')"
  proof -
    have "mset (map fst srcs) = mset (map fst srcs')"
      using set_eq_iff_mset_eq_distinct [OF dist] keys by blast
    then show ?thesis by (intro properties_for_sort) simp_all
  qed
  have objs: "source_objects env sensor now (k, the (map_of srcs k)) = source_objects env sensor now (k, the (map_of srcs' k))"
    if "k \<in> set (map fst srcs)" for k
  proof -
    have "map_of srcs k \<noteq> None" using that by (simp add: map_of_eq_None_iff)
    then obtain s s' where s: "map_of srcs k = Some s" "map_of srcs' k = Some s'" using rows [of k] by auto
    have "codes_printed (function_codes s)" "codes_printed (function_codes s')"
      using collect_printed [OF c plain] collect_printed [OF c' plain'] map_of_SomeD [OF s(1)] map_of_SomeD [OF s(2)]
      by auto
    then show ?thesis
      using table_okD [OF ok, of k] table_okD [OF ok', of k] s
      by (simp only: option.sel) (intro source_objects_cong [OF _ _ each [of k]], simp_all)
  qed
  have "concat (map (source_objects env sensor now) (sort_key fst srcs)) =
      concat (map (source_objects env sensor now) (sort_key fst srcs'))"
    unfolding sort_key_map_of [OF dist(1)] sort_key_map_of [OF dist(2)] sorted [symmetric] map_map
    by (rule arg_cong [where f = concat]) (use objs in simp)
  then show ?thesis by (simp add: build_bundle_def bundle_objects_def)
qed

text \<open>Three events of two sources, logged in two orders.\<close>

definition order_event :: "int \<Rightarrow> string \<Rightarrow> string \<Rightarrow> string \<Rightarrow> event" where
  "order_event code moment operation ip = [(''event_type'', PStr ''modbus_transaction''),
     (''function_code'', PInt code), (''observed_at'', PStr moment), (''operation'', PStr operation),
     (''source_ip'', PStr ip)]"

definition order_line :: "event \<Rightarrow> string" where
  "order_line kvs = [] @ ''simpleics_pot.event '' @ projr (json_dumps (PDict kvs)) @ [newline]"

lemma order_line_event:
  assumes "int_sized code"
  shows "packager_event 9 (order_line (order_event code moment operation ip)) = Inr (Some (order_event code moment operation ip))"
proof -
  let ?kvs = "order_event code moment operation ip"
  have "json_dumps (PDict ?kvs) = Inr (projr (json_dumps (PDict ?kvs)))" by (simp add: order_event_def)
  from parse_event_logged [OF this, of 9 "[]"] assms show ?thesis
    by (simp add: packager_event_def order_line_def) (simp add: order_event_def)
qed

abbreviation event_a :: event where "event_a \<equiv> order_event 3 ''2026-01-03'' ''read'' ''8.8.8.8''"
abbreviation event_b :: event where "event_b \<equiv> order_event 6 ''2026-01-02'' ''write'' ''1.1.1.1''"
abbreviation event_c :: event where "event_c \<equiv> order_event 16 ''2026-01-01'' ''write'' ''8.8.8.8''"

lemma order_lines:
  "packager_event 9 (order_line event_a) = Inr (Some event_a)"
  "packager_event 9 (order_line event_b) = Inr (Some event_b)"
  "packager_event 9 (order_line event_c) = Inr (Some event_c)"
  by (simp_all add: order_line_event int_sized_small)

lemma order_digits: "show_int 3 = ''3''" "show_int 6 = ''6''" "show_int 16 = ''16''"
  by code_simp+

lemma order_lengths:
  "length (order_line event_a) \<le> MAX_LINE_BYTES" "length (order_line event_b) \<le> MAX_LINE_BYTES"
  "length (order_line event_c) \<le> MAX_LINE_BYTES"
  by (simp_all add: order_line_def order_event_def json_string_def json_char_def order_digits MAX_LINE_BYTES_def)

definition source_both :: "(int \<times> string) list \<Rightarrow> Source" where
  "source_both codes = \<lparr>src_value = ''8.8.8.8'', src_first = Some ''2026-01-01'', src_last = Some ''2026-01-03'',
     src_count = 2, function_codes = codes, wrote = True\<rparr>"

definition source_a :: Source where
  "source_a = \<lparr>src_value = ''8.8.8.8'', src_first = Some ''2026-01-03'', src_last = Some ''2026-01-03'',
     src_count = 1, function_codes = [(3, ''3'')], wrote = False\<rparr>"

definition source_c :: Source where
  "source_c = \<lparr>src_value = ''8.8.8.8'', src_first = Some ''2026-01-01'', src_last = Some ''2026-01-01'',
     src_count = 1, function_codes = [(16, ''16'')], wrote = True\<rparr>"

definition source_one :: Source where
  "source_one = \<lparr>src_value = ''1.1.1.1'', src_first = Some ''2026-01-02'', src_last = Some ''2026-01-02'',
     src_count = 1, function_codes = [(6, ''6'')], wrote = True\<rparr>"

lemmas source_defs = source_a_def source_c_def source_one_def source_both_def

lemma order_adds:
  "add_event sample_packaging False event_a [] = Inr [(''8.8.8.8'', source_a)]"
  "add_event sample_packaging False event_b [(''8.8.8.8'', source_a)] = Inr [(''8.8.8.8'', source_a), (''1.1.1.1'', source_one)]"
  "add_event sample_packaging False event_c [(''8.8.8.8'', source_a), (''1.1.1.1'', source_one)] =
     Inr [(''8.8.8.8'', source_both [(3, ''3''), (16, ''16'')]), (''1.1.1.1'', source_one)]"
  "add_event sample_packaging False event_b [] = Inr [(''1.1.1.1'', source_one)]"
  "add_event sample_packaging False event_c [(''1.1.1.1'', source_one)] = Inr [(''1.1.1.1'', source_one), (''8.8.8.8'', source_c)]"
  "add_event sample_packaging False event_a [(''1.1.1.1'', source_one), (''8.8.8.8'', source_c)] =
     Inr [(''1.1.1.1'', source_one), (''8.8.8.8'', source_both [(16, ''16''), (3, ''3'')])]"
  by (simp_all add: add_event_def source_key_def event_get_def order_event_def sample_packaging_def observe_def
      stix_time_def Let_def note_code_def source_defs Source_init_def MAX_SOURCES_def earliest_def latest_def
      order_digits min_def max_def less_eq_char_def)

lemma order_collect:
  "collect sample_packaging 9 False (map order_line [event_a, event_b, event_c]) =
     Inr [(''8.8.8.8'', source_both [(3, ''3''), (16, ''16'')]), (''1.1.1.1'', source_one)]"
  "collect sample_packaging 9 False (map order_line [event_b, event_c, event_a]) =
     Inr [(''1.1.1.1'', source_one), (''8.8.8.8'', source_both [(16, ''16''), (3, ''3'')])]"
  using order_lengths
  by (simp_all add: collect_def order_lines order_adds MAX_EVENTS_def)

lemma order_events:
  "events_in 9 (map order_line [event_a, event_b, event_c]) = [event_a, event_b, event_c]"
  "events_in 9 (map order_line [event_b, event_c, event_a]) = [event_b, event_c, event_a]"
  using order_lengths by (simp_all add: events_in_def map_filter_simps line_event_def order_lines)

theorem bundle_independent_of_order_witness:
  "\<exists>srcs srcs'. collect sample_packaging 9 False (map order_line [event_a, event_b, event_c]) = Inr srcs \<and>
     collect sample_packaging 9 False (map order_line [event_b, event_c, event_a]) = Inr srcs' \<and> srcs \<noteq> srcs' \<and>
     build_bundle sample_packaging srcs ''pot'' ''2026'' = build_bundle sample_packaging srcs' ''pot'' ''2026''"
proof (intro exI conjI)
  show "build_bundle sample_packaging [(''8.8.8.8'', source_both [(3, ''3''), (16, ''16'')]), (''1.1.1.1'', source_one)] ''pot'' ''2026'' =
      build_bundle sample_packaging [(''1.1.1.1'', source_one), (''8.8.8.8'', source_both [(16, ''16''), (3, ''3'')])] ''pot'' ''2026''"
  proof (rule bundle_independent_of_order [OF order_collect])
    show "mset (events_in 9 (map order_line [event_a, event_b, event_c])) =
        mset (events_in 9 (map order_line [event_b, event_c, event_a]))"
      unfolding order_events by simp
    show "plain_codes (events_in 9 (map order_line [event_a, event_b, event_c]))"
      unfolding order_events by (simp add: plain_codes_def order_event_def event_get_def)
  qed
qed (simp_all only: order_collect, simp)

text \<open>A time of an event that has no counterpart in UTC stops the packager: \<open>astimezone\<close> raises
  \<open>OverflowError\<close> outside the \<open>try\<close>.\<close>

theorem unconvertible_time_stops_packager:
  assumes "length raw \<le> MAX_LINE_BYTES" "packager_event depth raw = Inr (Some e)"
    and "source_key env inc e = Some k" "event_get e ''observed_at'' = PStr t" "t \<noteq> []"
    and "utc_millis env t = Inl OverflowError"
  shows "collect env depth inc (raw # rest) = Inl OverflowError"
  using assms
  by (simp add: collect_def MAX_EVENTS_def add_event_def observe_def stix_time_def MAX_SOURCES_def)

section \<open>The file\<close>

lemma build_bundle_float_free: "float_free (build_bundle env srcs sensor now)"
  by (auto simp: build_bundle_def bundle_objects_def identity_object_def source_objects_def Let_def list_all_iff)

text \<open>C33: When the log can be collected, the packager always writes its bundle, and the bundle appears at
  its final path in one step: at whatever moment the machine stops or a collector looks, every
  file with the name of a finished bundle is as it was before or is the whole new bundle, and at
  the end the new bundle is there.\<close>

theorem bundle_written_whole:
  assumes "collect env depth (include_non_global args) lines = Inr srcs" "output_dir args = Some dir"
  shows "\<exists>steps out t. packager_main env depth args now lines = Inr (steps, out) \<and>
    dumps_indent 0 (build_bundle env srcs (sensor_name args) now) = Inr t \<and>
    (\<forall>fs. fold step_end steps fs (bundle_path dir now) = Some (t @ [newline]) \<and>
      (\<forall>fs' q. passes steps fs fs' \<longrightarrow> finished_name q \<longrightarrow>
         fs' q = fs q \<or> q = bundle_path dir now \<and> fs' q = Some (t @ [newline])))"
proof -
  let ?stix = "build_bundle env srcs (sensor_name args) now"
  obtain t where t: "dumps_indent 0 ?stix = Inr t"
    using dumps_indent_total [OF build_bundle_float_free] unfolding isOK_iff by blast
  let ?steps = "[MakeDirs dir, WriteText (partial_path dir now) (t @ [newline]),
    Replace (partial_path dir now) (bundle_path dir now), ChangeMode (bundle_path dir now) 420]"
  have w: "write_bundle ?stix dir now = Inr (?steps, bundle_path dir now)" using t by (simp add: write_bundle_def)
  have e: "fold step_end ?steps fs (bundle_path dir now) = Some (t @ [newline])" for fs
    using partial_unfinished [of dir now] bundle_path_finished [of dir now] by auto
  have "\<exists>out. packager_main env depth args now lines = Inr (?steps, out)"
    using assms w by (simp add: packager_main_def)
  moreover have "fs' q = fs q \<or> q = bundle_path dir now \<and> fs' q = Some (t @ [newline])"
    if "passes ?steps fs fs'" "finished_name q" for fs fs' q
    using write_bundle_atomic [OF w that] t by auto
  ultimately show ?thesis using t e by blast
qed

theorem bundle_written_whole_witness:
  "\<exists>steps out t. packager_main sample_packaging 9 \<lparr>output_dir = Some ''out'', sensor_name = ''pot'', include_non_global = False\<rparr>
      ''2026-01-01T00:00:00.000Z'' [sample_line, ''banner''] = Inr (steps, out) \<and>
    fold step_end steps Map.empty ''out/simpleics-pot-20260101T000000000Z.stix.json'' = Some (t @ [newline])"
proof -
  let ?now = "''2026-01-01T00:00:00.000Z''"
  have "bundle_path ''out'' ?now = ''out/simpleics-pot-20260101T000000000Z.stix.json''"
    by (simp add: bundle_path_def path_in_def stamp_def)
  with bundle_written_whole [where args = "\<lparr>output_dir = Some ''out'', sensor_name = ''pot'', include_non_global = False\<rparr>"
      and now = ?now and dir = "''out''", simplified, OF sample_collect(1)]
  show ?thesis by metis
qed

end
