(* ===== verification/Safety_Check.thy ===== *)
theory Safety_Check
  imports Validate_Map Regex Json "HOL-Library.List_Lexorder" "HOL-Library.Char_ord"
begin

text \<open>
  \<open>tools/repository_safety_check.py\<close>: the scan of the working tree.  The tree is a parameter: the
  entries in the order of their sorted paths, each with what the file system says of it; so are
  the parsed \<open>pyproject.toml\<close>, the lock files and what \<open>ipaddress\<close> says of an address.  The messages
  are a datatype.  Text is what reading a file as UTF-8 gives.
\<close>

section \<open>The tree\<close>

type_synonym path = "string list"

text \<open>A link to a directory is a directory for \<open>is_dir\<close>; any other link is not a regular file.\<close>

datatype node = Directory | DirectoryLink | OtherLink | Special | Regular "string option"

definition is_dir :: "node \<Rightarrow> bool" where
  "is_dir n = (case n of Directory \<Rightarrow> True | DirectoryLink \<Rightarrow> True | _ \<Rightarrow> False)"

datatype safety_error =
    UnsafeEntry path
  | ForbiddenBasename path
  | PackageManager path
  | ForbiddenType path
  | NonText path
  | EmailFound path
  | PrivateKey path
  | PublicAddress path
  | NoPermissions path
  | UnsafeConstruct path string
  | Unpinned path
  | PersistentCredentials path
  | DifferentCommits string
  | NotExactPin string
  | PinDisagrees string string

section \<open>Constants and patterns\<close>

definition IGNORED_PARTS :: "string list" where
  "IGNORED_PARTS = [''.git'', ''.venv'', ''__pycache__'', ''build'', ''dist'']"

definition FORBIDDEN_SUFFIXES :: "string list" where
  "FORBIDDEN_SUFFIXES = [''.age'', ''.key'', ''.p12'', ''.pfx'', ''.pcap'', ''.pcapng'']"

definition FORBIDDEN_BASENAMES :: "string list" where
  "FORBIDDEN_BASENAMES = [''.env'', ''authorized_keys'', ''credentials'', ''id_ed25519'', ''id_rsa'']"

definition FORBIDDEN_PACKAGE_MANAGER_FILES :: "string list" where
  "FORBIDDEN_PACKAGE_MANAGER_FILES =
     [''.npmrc'', ''package.json'', ''package-lock.json'', ''pnpm-lock.yaml'', ''yarn.lock'']"

definition PRIVATE_KEY_MARKERS :: "string list" where
  "PRIVATE_KEY_MARKERS = map (\<lambda>kind. ''-----BEGIN '' @ kind @ '' PRIVATE KEY-----'')
     ['''', ''OPENSSH'', ''RSA'', ''EC'']"

definition FORBIDDEN_WORKFLOW_TEXT :: "string list" where
  "FORBIDDEN_WORKFLOW_TEXT = [''pull_request_target:'', ''workflow_run:'', ''permissions: write-all'',
     ''contents: write'', ''actions: write'', ''packages: write'', ''pull-requests: write'',
     ''id-token: write'', ''runs-on: self-hosted'', ''runs-on: ubuntu-latest'']"

definition digit :: "char \<Rightarrow> bool" where
  "digit c \<longleftrightarrow> (let n = of_char c :: nat in 48 \<le> n \<and> n \<le> 57)"

definition letter :: "char \<Rightarrow> bool" where
  "letter c \<longleftrightarrow> (let n = of_char c :: nat in 65 \<le> n \<and> n \<le> 90 \<or> 97 \<le> n \<and> n \<le> 122)"

definition hex :: "char \<Rightarrow> bool" where
  "hex c \<longleftrightarrow> digit c \<or> (let n = of_char c :: nat in 65 \<le> n \<and> n \<le> 70 \<or> 97 \<le> n \<and> n \<le> 102)"

text \<open>\<open>(?i)\b[A-Z0-9._%+-]+@[A-Z0-9.-]+\.[A-Z]{2,}\b\<close>\<close>

definition EMAIL_PATTERN :: regex where
  "EMAIL_PATTERN = Seq WordEdge
     (Seq (Plus (Cls (\<lambda>c. letter c \<or> digit c \<or> c \<in> set ''._%+-'')))
     (Seq (Chr CHR ''@'')
     (Seq (Plus (Cls (\<lambda>c. letter c \<or> digit c \<or> c \<in> set ''.-'')))
     (Seq (Chr CHR ''.'')
     (Seq (Seq (Cls letter) (Seq (Cls letter) (Star (Cls letter)))) WordEdge)))))"

text \<open>\<open>(?<![0-9.])(?:[0-9]{1,3}\.){3}[0-9]{1,3}(?![0-9.])\<close>\<close>

definition quad_char :: "char \<Rightarrow> bool" where
  "quad_char c \<longleftrightarrow> digit c \<or> c = CHR ''.''"

definition octet :: regex where
  "octet = Seq (Cls digit) (UpTo 2 (Cls digit))"

definition IPV4_PATTERN :: regex where
  "IPV4_PATTERN = Seq (Behind (\<lambda>c. \<not> quad_char c))
     (Seq (Times 3 (Seq octet (Chr CHR ''.''))) (Seq octet (Ahead (\<lambda>c. \<not> quad_char c))))"

text \<open>\<open>(?m)^permissions:\s*$\<close>\<close>

definition PERMISSIONS :: regex where
  "PERMISSIONS = Seq LineStart (Seq (Text ''permissions:'') (Seq (Star Space) LineEnd))"

text \<open>\<open>(?m)^\s*-?\s*uses:\s*([^\s#]+)\<close>\<close>

definition ACTION_USES_PATTERN :: regex where
  "ACTION_USES_PATTERN = Seq LineStart (Seq (Star Space) (Seq (Opt (Chr CHR ''-'')) (Seq (Star Space)
     (Seq (Text ''uses:'') (Seq (Star Space)
     (Grp 1 (Plus (Cls (\<lambda>c. \<not> py_space c \<and> c \<noteq> CHR ''#''))))))))) "

text \<open>\<open>^[^@\s]+@[0-9a-fA-F]{40}$\<close>, \<open>^([^/@\s]+/[^/@\s]+)\<close>\<close>

definition FULL_COMMIT_REF :: regex where
  "FULL_COMMIT_REF = Seq TextStart (Seq (Plus (Cls (\<lambda>c. c \<noteq> CHR ''@'' \<and> \<not> py_space c)))
     (Seq (Chr CHR ''@'') (Seq (Times 40 (Cls hex)) TextEnd)))"

definition slug_char :: "char \<Rightarrow> bool" where
  "slug_char c \<longleftrightarrow> c \<noteq> CHR ''/'' \<and> c \<noteq> CHR ''@'' \<and> \<not> py_space c"

definition ACTION_REPOSITORY :: regex where
  "ACTION_REPOSITORY = Seq TextStart
     (Grp 1 (Seq (Plus (Cls slug_char)) (Seq (Chr CHR ''/'') (Plus (Cls slug_char)))))"

text \<open>\<open>^([A-Za-z0-9_.-]+)==([^\s;]+)$\<close>, \<open>(?m)^([A-Za-z0-9_.-]+)==([^\s\\]+)\<close>\<close>

definition name_char :: "char \<Rightarrow> bool" where
  "name_char c \<longleftrightarrow> letter c \<or> digit c \<or> c \<in> set ''_.-''"

definition EXACT_PIN :: regex where
  "EXACT_PIN = Seq TextStart (Seq (Grp 1 (Plus (Cls name_char))) (Seq (Text ''=='')
     (Seq (Grp 2 (Plus (Cls (\<lambda>c. \<not> py_space c \<and> c \<noteq> CHR '';'')))) TextEnd)))"

definition LOCK_PIN :: regex where
  "LOCK_PIN = Seq LineStart (Seq (Grp 1 (Plus (Cls name_char))) (Seq (Text ''=='')
     (Grp 2 (Plus (Cls (\<lambda>c. \<not> py_space c \<and> c \<noteq> CHR 0x5C))))))"

definition PIN_SOURCES :: "((string \<times> string) \<times> string) list" where
  "PIN_SOURCES = [((''build-system'', ''requires''), ''requirements-build.lock''),
     ((''project'', ''dependencies''), ''requirements.lock'')]"

section \<open>Text\<close>

text \<open>\<open>w in s\<close>; \<open>path.suffix\<close>; \<open>str.splitlines\<close>, where a carriage return and a newline are one end.\<close>

fun contains :: "string \<Rightarrow> string \<Rightarrow> bool" where
  "contains w [] = (w = [])"
| "contains w (c # s) = (starts w (c # s) \<or> contains w s)"

definition suffix_of :: "string \<Rightarrow> string" where
  "suffix_of n =
     (let tail = takeWhile (\<lambda>c. c \<noteq> CHR ''.'') (rev n); k = length n - length tail in
      if 1 < k \<and> tail \<noteq> [] then CHR ''.'' # rev tail else [])"

definition line_end :: "char \<Rightarrow> bool" where
  "line_end c \<longleftrightarrow> (let n = of_char c :: nat in 10 \<le> n \<and> n \<le> 13 \<or> 28 \<le> n \<and> n \<le> 30 \<or> n = 133)"

fun splitlines :: "string \<Rightarrow> string list" where
  "splitlines [] = []"
| "splitlines [c] = (if line_end c then [[]] else [[c]])"
| "splitlines (c # d # s) =
     (if c = CHR 0x0D \<and> d = newline then [] # splitlines s
      else if line_end c then [] # splitlines (d # s)
      else (case splitlines (d # s) of [] \<Rightarrow> [[c]] | w # ws \<Rightarrow> (c # w) # ws))"

text \<open>\<open>re.sub(r"[-_.]+", "-", name).lower()\<close>\<close>

function collapse :: "string \<Rightarrow> string" where
  "collapse [] = []"
| "collapse (c # s) =
     (if c \<in> set ''-_.'' then CHR ''-'' # collapse (dropWhile (\<lambda>x. x \<in> set ''-_.'') s) else c # collapse s)"
  by pat_completeness auto

termination
  by (relation "measure length") (auto simp: le_imp_less_Suc length_dropWhile_le)

definition normalised :: "string \<Rightarrow> string" where
  "normalised name = lower (collapse name)"

section \<open>Pins\<close>

text \<open>\<open>LOCK_PIN.findall\<close> gives the two groups of each match; the last pin of a name counts.\<close>

definition locked_versions :: "string option \<Rightarrow> (string \<times> string) list" where
  "locked_versions lock = (case lock of None \<Rightarrow> []
     | Some text \<Rightarrow> rev (map (\<lambda>(_, g). (normalised (group g 1), group g 2)) (re_finditer LOCK_PIN text)))"

definition check_requirement ::
  "(string \<times> string) list \<Rightarrow> string \<Rightarrow> pyval \<Rightarrow> safety_error list result" where
  "check_requirement locked lock_name requirement =
     (case requirement of
        PStr r \<Rightarrow>
          Inr (case re_fullmatch EXACT_PIN (strip r) of
                 None \<Rightarrow> [NotExactPin r]
               | Some g \<Rightarrow>
                   if map_of locked (normalised (group g 1)) \<noteq> Some (group g 2)
                   then [PinDisagrees r lock_name] else [])
      | _ \<Rightarrow> Inl AttributeError)"

definition check_pin_source ::
  "(string \<Rightarrow> string option) \<Rightarrow> pyval \<Rightarrow> (string \<times> string) \<times> string \<Rightarrow> safety_error list result" where
  "check_pin_source locks doc source =
     (case source of ((table, k), lock_name) \<Rightarrow>
      let locked = locked_versions (locks lock_name) in
      bindE (as_dict doc) (\<lambda>d.
      bindE (as_dict (get_or_empty d table)) (\<lambda>t.
      bindE (py_iter (case map_of t k of Some v \<Rightarrow> v | None \<Rightarrow> PList [])) (\<lambda>requirements.
      bindE (mapE (check_requirement locked lock_name) requirements) (\<lambda>ess. Inr (concat ess))))))"

definition check_pins_agree ::
  "pyval option \<Rightarrow> (string \<Rightarrow> string option) \<Rightarrow> safety_error list result" where
  "check_pins_agree pyproject locks =
     (case pyproject of
        None \<Rightarrow> Inr []
      | Some doc \<Rightarrow> bindE (mapE (check_pin_source locks doc) PIN_SOURCES) (\<lambda>ess. Inr (concat ess)))"

section \<open>Files\<close>

record address_facts =
  addr_loopback :: bool
  addr_unspecified :: bool
  addr_private :: bool

definition is_allowed_address :: "(string \<Rightarrow> address_facts option) \<Rightarrow> string \<Rightarrow> bool" where
  "is_allowed_address ip v =
     (case ip v of None \<Rightarrow> True | Some a \<Rightarrow> addr_loopback a \<or> addr_unspecified a \<or> addr_private a)"

definition check_addresses :: "(string \<Rightarrow> address_facts option) \<Rightarrow> path \<Rightarrow> string \<Rightarrow> safety_error list" where
  "check_addresses ip p text =
     (if list_all (\<lambda>(v, _). is_allowed_address ip v) (re_finditer IPV4_PATTERN text) then [] else [PublicAddress p])"

text \<open>The commits seen for each action repository, in the order they are added.\<close>

type_synonym commits = "(string \<times> string) list"

definition recorded_commit :: "string \<Rightarrow> commits" where
  "recorded_commit ref =
     (case re_match ACTION_REPOSITORY ref of
        None \<Rightarrow> []
      | Some g \<Rightarrow> [(lower (group g 1), lower (after_last CHR ''@'' ref))])"

fun check_uses :: "path \<Rightarrow> string list \<Rightarrow> commits \<Rightarrow> safety_error list \<times> commits" where
  "check_uses p [] acc = ([], acc)"
| "check_uses p (ref # rest) acc =
     (if starts ''./'' ref then check_uses p rest acc
      else if re_fullmatch FULL_COMMIT_REF ref = None then ([Unpinned p], acc)
      else check_uses p rest (acc @ recorded_commit ref))"

fun check_checkouts :: "path \<Rightarrow> string list \<Rightarrow> safety_error list" where
  "check_checkouts p [] = []"
| "check_checkouts p (line # rest) =
     (if contains ''uses: actions/checkout@'' line \<and>
         \<not> contains ''persist-credentials: false'' (join [newline] (take 3 rest))
      then [PersistentCredentials p] else check_checkouts p rest)"

definition check_workflow :: "path \<Rightarrow> string \<Rightarrow> commits \<Rightarrow> safety_error list \<times> commits" where
  "check_workflow p text acc =
     (let (e_uses, acc') = check_uses p (map (\<lambda>(_, g). group g 1) (re_finditer ACTION_USES_PATTERN text)) acc in
      ((if re_search PERMISSIONS text then [] else [NoPermissions p]) @
       map (UnsafeConstruct p) [w \<leftarrow> FORBIDDEN_WORKFLOW_TEXT. contains w text] @
       e_uses @ check_checkouts p (splitlines text), acc'))"

definition check_name :: "path \<Rightarrow> safety_error list" where
  "check_name p =
     (let n = last p in
      (if casefold n \<in> set FORBIDDEN_BASENAMES then [ForbiddenBasename p] else []) @
      (if casefold n \<in> set FORBIDDEN_PACKAGE_MANAGER_FILES then [PackageManager p] else []) @
      (if casefold (suffix_of n) \<in> set FORBIDDEN_SUFFIXES then [ForbiddenType p] else []))"

definition check_text ::
  "(string \<Rightarrow> address_facts option) \<Rightarrow> path \<Rightarrow> string \<Rightarrow> commits \<Rightarrow> safety_error list \<times> commits" where
  "check_text ip p text acc =
     (let (e_workflow, acc') =
        (if take 2 p = [''.github'', ''workflows''] then check_workflow p text acc else ([], acc)) in
      ((if re_search EMAIL_PATTERN text then [EmailFound p] else []) @
       (if \<exists>m \<in> set PRIVATE_KEY_MARKERS. contains m text then [PrivateKey p] else []) @
       check_addresses ip p text @ e_workflow, acc'))"

definition check_entry ::
  "(string \<Rightarrow> address_facts option) \<Rightarrow> path \<times> node \<Rightarrow> commits \<Rightarrow> safety_error list \<times> commits" where
  "check_entry ip entry acc =
     (case entry of (p, n) \<Rightarrow>
      if \<exists>part \<in> set p. part \<in> set IGNORED_PARTS then ([], acc)
      else if is_dir n then ([], acc)
      else (case n of
          Regular (Some text) \<Rightarrow>
            (let (es, acc') = check_text ip p text acc in (check_name p @ es, acc'))
        | Regular None \<Rightarrow> (check_name p @ [NonText p], acc)
        | _ \<Rightarrow> ([UnsafeEntry p], acc)))"

fun check_entries ::
  "(string \<Rightarrow> address_facts option) \<Rightarrow> (path \<times> node) list \<Rightarrow> commits \<Rightarrow> safety_error list \<times> commits" where
  "check_entries ip [] acc = ([], acc)"
| "check_entries ip (entry # rest) acc =
     (let (es, acc1) = check_entry ip entry acc; (es', acc2) = check_entries ip rest acc1 in (es @ es', acc2))"

text \<open>The repositories with more than one commit, sorted.\<close>

definition split_repositories :: "commits \<Rightarrow> string list" where
  "split_repositories acc =
     [r \<leftarrow> sort (remdups (map fst acc)). 1 < length (remdups (map snd [e \<leftarrow> acc. fst e = r]))]"

definition check_repository ::
  "(string \<Rightarrow> address_facts option) \<Rightarrow> (path \<times> node) list \<Rightarrow> pyval option \<Rightarrow> (string \<Rightarrow> string option) \<Rightarrow>
     safety_error list result" where
  "check_repository ip tree pyproject locks =
     (let (es, acc) = check_entries ip tree [] in
      bindE (check_pins_agree pyproject locks) (\<lambda>e_pins.
      Inr (es @ map DifferentCommits (split_repositories acc) @ e_pins)))"

definition safety_main :: "safety_error list result \<Rightarrow> int result" where
  "safety_main checked = bindE checked (\<lambda>errors. Inr (if errors = [] then 0 else 1))"

end
