(* ===== verification/Safety_Props.thy ===== *)
theory Safety_Props
  imports Safety_Check Regex_Props
begin

text \<open>
  What the patterns of the scan match, and how a clean result of the whole scan reads for a single
  file: the passes over entries, references and lines are searches for a first failure.
\<close>

section \<open>Patterns\<close>

lemma contains_iff: "contains w s \<longleftrightarrow> (\<exists>u v. s = u @ w @ v)"
proof (induction s)
  case (Cons c s)
  have "starts w (c # s) \<longleftrightarrow> (\<exists>v. c # s = w @ v)"
    by (auto simp: starts_def) (metis append_take_drop_id)
  moreover have "(\<exists>u v. c # s = u @ w @ v) \<longleftrightarrow> (\<exists>v. c # s = w @ v) \<or> (\<exists>u v. s = u @ w @ v)"
    by (auto simp: Cons_eq_append_conv)
  ultimately show ?case using Cons by simp
qed auto

lemma contains_chars: "contains w s \<Longrightarrow> set w \<subseteq> set s"
  by (auto simp: contains_iff)

lemma spans_UpTo_Cls: "spans (UpTo k (Cls p)) l w s g \<longleftrightarrow> length w \<le> k \<and> list_all p w \<and> g = []"
proof (induction k arbitrary: l w g)
  case (Suc k)
  have "spans (Seq (Cls p) (UpTo k (Cls p))) l w s g \<longleftrightarrow> w \<noteq> [] \<and> length w \<le> Suc k \<and> list_all p w \<and> g = []"
  proof
    assume "w \<noteq> [] \<and> length w \<le> Suc k \<and> list_all p w \<and> g = []"
    then obtain a v where "w = [a] @ v" "p a" "length v \<le> k" "list_all p v" "g = []" by (cases w) auto
    then show "spans (Seq (Cls p) (UpTo k (Cls p))) l w s g"
      unfolding spans_Seq spans_Cls Suc by blast
  qed (auto simp: spans_Seq Suc)
  then show ?case by (auto simp: Opt_def)
qed auto

definition octet_text :: "string \<Rightarrow> bool" where
  "octet_text a \<longleftrightarrow> a \<noteq> [] \<and> length a \<le> 3 \<and> list_all digit a"

lemma spans_octet: "spans octet l w s g \<longleftrightarrow> octet_text w \<and> g = []"
proof
  assume "octet_text w \<and> g = []"
  then obtain a v where "w = [a] @ v" "digit a" "length v \<le> 2" "list_all digit v" "g = []"
    by (cases w) (auto simp: octet_text_def)
  then show "spans octet l w s g"
    unfolding octet_def spans_Seq spans_Cls spans_UpTo_Cls by blast
qed (auto simp: octet_def spans_Seq spans_UpTo_Cls octet_text_def)

text \<open>Four octets with dots between them.\<close>

definition dotted_quad :: "string \<Rightarrow> bool" where
  "dotted_quad w \<longleftrightarrow> (\<exists>a b c d. w = a @ ''.'' @ b @ ''.'' @ c @ ''.'' @ d \<and>
     octet_text a \<and> octet_text b \<and> octet_text c \<and> octet_text d)"

definition edge :: "(char \<Rightarrow> bool) \<Rightarrow> string \<Rightarrow> bool" where
  "edge p s \<longleftrightarrow> s = [] \<or> \<not> p (hd s)"

lemma spans_part: "spans (Seq octet (Chr CHR ''.'')) l w s g \<longleftrightarrow> (\<exists>a. w = a @ ''.'' \<and> octet_text a \<and> g = [])"
  by (auto simp: spans_Seq spans_octet Chr_def)

lemma spans_IPV4:
  "spans IPV4_PATTERN l w s g \<longleftrightarrow> dotted_quad w \<and> g = [] \<and> edge quad_char l \<and> edge quad_char s"
proof
  assume "spans IPV4_PATTERN l w s g"
  then obtain a b c d where "w = a @ ''.'' @ b @ ''.'' @ c @ ''.'' @ d"
    "octet_text a" "octet_text b" "octet_text c" "octet_text d" "g = []" "edge quad_char l" "edge quad_char s"
    by (auto simp: IPV4_PATTERN_def numeral_3_eq_3 spans_Seq spans_octet Chr_def edge_def)
  then show "dotted_quad w \<and> g = [] \<and> edge quad_char l \<and> edge quad_char s"
    unfolding dotted_quad_def by blast
next
  assume r: "dotted_quad w \<and> g = [] \<and> edge quad_char l \<and> edge quad_char s"
  then obtain a b c d where w: "w = [] @ ((a @ ''.'') @ (b @ ''.'') @ (c @ ''.'') @ []) @ d @ []"
    and oct: "octet_text a" "octet_text b" "octet_text c" "octet_text d"
    by (auto simp: dotted_quad_def)
  have part: "octet_text x \<Longrightarrow> spans (Seq octet (Chr CHR ''.'')) l (x @ ''.'') t []" for x l t
    by (simp add: spans_part)
  have "spans IPV4_PATTERN l ([] @ ((a @ ''.'') @ (b @ ''.'') @ (c @ ''.'') @ []) @ d @ []) s []"
    unfolding IPV4_PATTERN_def numeral_3_eq_3 Times.simps
    by (intro spans_plain_SeqI part oct) (use r oct in \<open>auto simp: spans_octet edge_def\<close>)
  with w r show "spans IPV4_PATTERN l w s g" by simp
qed

lemma dotted_quad_run: "dotted_quad w \<Longrightarrow> w \<noteq> [] \<and> list_all quad_char w"
  by (auto simp: dotted_quad_def octet_text_def list_all_iff quad_char_def)

lemma maximal_run:
  assumes "list_all p w" "list_all p w'" "edge p v" "edge p v'" "w @ v = w' @ v'"
  shows "w = w'"
proof -
  have "takeWhile p (w @ v) = w" if "list_all p w" "edge p v" for w v
    using that by (cases v) (auto simp: edge_def list_all_iff takeWhile_append2)
  with assms show ?thesis by metis
qed

text \<open>Every address in the text is looked at, wherever it stands.\<close>

lemma addresses_complete:
  assumes "check_addresses ip p (u @ w @ v) = []" "dotted_quad w" "edge quad_char (rev u)" "edge quad_char v"
  shows "is_allowed_address ip w"
proof -
  have here: "spans IPV4_PATTERN (rev u) w v []" using assms(2-4) by (simp add: spans_IPV4)
  then obtain c g where m: "match_at IPV4_PATTERN (rev u @ [], w @ v) = Some (c, g)"
    using match_at_None [of IPV4_PATTERN "rev u" "w @ v"] by (cases "match_at IPV4_PATTERN (rev u, w @ v)") auto
  obtain w' where w': "w @ v = w' @ snd c" "spans IPV4_PATTERN (rev u) w' (snd c) g"
    "between (rev u, w @ v) c = w'"
    using match_at_spans [of IPV4_PATTERN "rev u" "w @ v" c g] m by auto
  have "w' = w"
    by (rule maximal_run [of quad_char w' w "snd c" v])
      (use w' assms(2,4) dotted_quad_run in \<open>auto simp: spans_IPV4\<close>)
  moreover have "(between (rev u @ [], w @ v) c, g) \<in> set (scan IPV4_PATTERN ([], u @ w @ v))"
    by (rule scan_complete [where P = quad_char, OF _ m])
      (use assms(3) dotted_quad_run in \<open>auto simp: spans_IPV4 edge_def hd_rev\<close>)
  ultimately have "(w, g) \<in> set (re_finditer IPV4_PATTERN (u @ w @ v))"
    using w'(3) by (simp add: re_finditer_def)
  with assms(1) show ?thesis by (auto simp: check_addresses_def list_all_iff split: if_splits)
qed

definition email_char :: "char \<Rightarrow> bool" where
  "email_char c \<longleftrightarrow> letter c \<or> digit c \<or> c \<in> set ''._%+-''"

definition host_char :: "char \<Rightarrow> bool" where
  "host_char c \<longleftrightarrow> letter c \<or> digit c \<or> c \<in> set ''.-''"

text \<open>A mail address as the scan understands it, between the reversed text \<open>l\<close> and the text \<open>s\<close>.\<close>

definition mail_address :: "string \<Rightarrow> string \<Rightarrow> string \<Rightarrow> bool" where
  "mail_address l w s \<longleftrightarrow> (\<exists>a b c. w = a @ ''@'' @ b @ ''.'' @ c \<and>
     a \<noteq> [] \<and> list_all email_char a \<and> b \<noteq> [] \<and> list_all host_char b \<and> 2 \<le> length c \<and> list_all letter c \<and>
     at_word l \<noteq> at_word w \<and> at_word (rev w) \<noteq> at_word s)"

lemma at_word_append: "w \<noteq> [] \<Longrightarrow> at_word (w @ s) = at_word w"
  by (cases w) (simp_all add: at_word_def)

lemma spans_EMAIL: "spans EMAIL_PATTERN l w s g \<longleftrightarrow> mail_address l w s \<and> g = []"
proof
  assume "spans EMAIL_PATTERN l w s g"
  then have "\<exists>a b x y z. w = a @ ''@'' @ b @ ''.'' @ x # y # z \<and> a \<noteq> [] \<and> list_all email_char a \<and>
      b \<noteq> [] \<and> list_all host_char b \<and> letter x \<and> letter y \<and> list_all letter z \<and> g = [] \<and>
      at_word l \<noteq> at_word (w @ s) \<and> at_word (rev w @ l) \<noteq> at_word s"
    unfolding EMAIL_PATTERN_def email_char_def [symmetric] host_char_def [symmetric]
    by (clarsimp simp: spans_Seq Chr_def) (intro exI conjI, rule refl, assumption+)
  then obtain a b x y z where w: "w = a @ ''@'' @ b @ ''.'' @ x # y # z" "a \<noteq> []" "list_all email_char a"
    "b \<noteq> []" "list_all host_char b" "letter x" "letter y" "list_all letter z" "g = []"
    and e: "at_word l \<noteq> at_word (w @ s)" "at_word (rev w @ l) \<noteq> at_word s"
    by blast
  have "w \<noteq> []" "rev w \<noteq> []" using w(2) by (simp_all add: w(1))
  then have "at_word l \<noteq> at_word w" "at_word (rev w) \<noteq> at_word s" using e by (simp_all add: at_word_append)
  moreover have "2 \<le> length (x # y # z)" "list_all letter (x # y # z)" using w by simp_all
  ultimately show "mail_address l w s \<and> g = []" using w unfolding mail_address_def by blast
next
  assume r: "mail_address l w s \<and> g = []"
  then obtain a b c where w: "w = a @ ''@'' @ b @ ''.'' @ c" "a \<noteq> []" "list_all email_char a" "b \<noteq> []"
    "list_all host_char b" "2 \<le> length c" "list_all letter c"
    and e: "at_word l \<noteq> at_word w" "at_word (rev w) \<noteq> at_word s"
    unfolding mail_address_def by blast
  obtain x y z where c: "c = [x] @ [y] @ z" "letter x" "letter y" "list_all letter z"
    using w(6,7) by (cases c; cases "tl c") auto
  have ne: "w \<noteq> []" "rev w \<noteq> []" using w(2) by (simp_all add: w(1))
  have eq: "w = [] @ a @ ''@'' @ b @ ''.'' @ ([x] @ [y] @ z) @ []" by (simp add: w(1) c(1))
  have "spans EMAIL_PATTERN l ([] @ a @ ''@'' @ b @ ''.'' @ ([x] @ [y] @ z) @ []) s []"
    unfolding EMAIL_PATTERN_def email_char_def [symmetric] host_char_def [symmetric]
    by (intro spans_plain_SeqI)
      (use w c e at_word_append [OF ne(1), of s] at_word_append [OF ne(2), of l]
        in \<open>auto simp: Chr_def eq [symmetric]\<close>)
  with eq r show "spans EMAIL_PATTERN l w s g" by simp
qed

lemma email_search: "re_search EMAIL_PATTERN text \<longleftrightarrow> (\<exists>u w v. text = u @ w @ v \<and> mail_address (rev u) w v)"
  by (simp add: re_search_iff spans_EMAIL)

section \<open>A clean scan\<close>

definition uses_refs :: "string \<Rightarrow> string list" where
  "uses_refs text = map (\<lambda>(_, g). group g 1) (re_finditer ACTION_USES_PATTERN text)"

lemma check_uses_clean:
  "check_uses p refs acc = ([], acc') \<Longrightarrow>
     acc' = acc @ concat (map recorded_commit [r \<leftarrow> refs. \<not> starts ''./'' r]) \<and>
     (\<forall>r \<in> set refs. starts ''./'' r \<or> re_fullmatch FULL_COMMIT_REF r \<noteq> None)"
  by (induction p refs acc rule: check_uses.induct) (auto split: if_splits)

lemma check_workflow_clean:
  assumes "check_workflow p text acc = ([], acc')"
  shows "re_search PERMISSIONS text" "\<And>w. w \<in> set FORBIDDEN_WORKFLOW_TEXT \<Longrightarrow> \<not> contains w text"
    "acc' = acc @ concat (map recorded_commit [r \<leftarrow> uses_refs text. \<not> starts ''./'' r])"
    "\<And>r. r \<in> set (uses_refs text) \<Longrightarrow> starts ''./'' r \<or> re_fullmatch FULL_COMMIT_REF r \<noteq> None"
    "check_checkouts p (splitlines text) = []"
  using assms check_uses_clean [of p "uses_refs text" acc acc']
  by (auto simp: check_workflow_def uses_refs_def Let_def filter_empty_conv split: prod.splits if_splits)

definition scanned :: "path \<Rightarrow> node \<Rightarrow> bool" where
  "scanned p n \<longleftrightarrow> \<not> (\<exists>part \<in> set p. part \<in> set IGNORED_PARTS) \<and> \<not> is_dir n"

definition workflow :: "path \<Rightarrow> bool" where
  "workflow p \<longleftrightarrow> take 2 p = [''.github'', ''workflows'']"

lemma check_workflow_grows: "check_workflow p text acc = (es, acc') \<Longrightarrow> set acc \<subseteq> set acc'"
proof -
  have "check_uses p refs acc = (es, acc') \<Longrightarrow> set acc \<subseteq> set acc'" for refs es acc'
    by (induction p refs acc arbitrary: es acc' rule: check_uses.induct) (auto split: if_splits)
  then show "check_workflow p text acc = (es, acc') \<Longrightarrow> ?thesis"
    by (auto simp: check_workflow_def Let_def split: prod.splits)
qed

lemma check_entry_grows: "check_entry ip e acc = (es, acc') \<Longrightarrow> set acc \<subseteq> set acc'"
  using check_workflow_grows
  by (auto simp: check_entry_def check_text_def Let_def split: prod.splits if_splits node.splits option.splits)

lemma check_entries_clean:
  assumes "check_entries ip tree acc = ([], acc')" "e \<in> set tree"
  shows "\<exists>a a'. check_entry ip e a = ([], a') \<and> set a' \<subseteq> set acc'"
  using assms
proof (induction tree arbitrary: acc)
  case (Cons x tree)
  obtain es a where x: "check_entry ip x acc = (es, a)" by (metis surj_pair)
  obtain es' a' where rest: "check_entries ip tree a = (es', a')" by (metis surj_pair)
  have clean: "es = []" "es' = []" "a' = acc'" using Cons.prems(1) x rest by (auto simp: Let_def)
  have "set a \<subseteq> set acc'" if "check_entries ip tree a = (es', acc')" for a es' acc'
    using that check_entry_grows
    by (induction tree arbitrary: a es' acc') (auto simp: Let_def split: prod.splits, blast)
  with Cons x rest clean show ?case by auto blast
qed simp

lemma one_commit:
  assumes "split_repositories acc = []" "(r, c) \<in> set acc" "(r, d) \<in> set acc"
  shows "c = d"
proof (rule ccontr)
  assume "c \<noteq> d"
  let ?cs = "remdups (map snd [e \<leftarrow> acc. fst e = r])"
  have "{c, d} \<subseteq> set ?cs" using assms(2,3) by force
  then have "card {c, d} \<le> card (set ?cs)" by (intro card_mono) simp_all
  with \<open>c \<noteq> d\<close> have "1 < card (set ?cs)" by simp
  then have "1 < length ?cs" by (simp add: length_remdups_card_conv)
  moreover have "r \<in> set (sort (remdups (map fst acc)))" using assms(2) by force
  ultimately have "r \<in> set (split_repositories acc)" by (simp add: split_repositories_def)
  with assms(1) show False by simp
qed

lemma check_repository_clean:
  assumes "check_repository ip tree pyproject locks = Inr []"
  obtains acc where "check_entries ip tree [] = ([], acc)" "split_repositories acc = []"
    "check_pins_agree pyproject locks = Inr []"
  using assms by (auto simp: check_repository_def Let_def bindE_eq_Inr split: prod.splits)

section \<open>Pinned actions\<close>

text \<open>A reference ends in a full commit; it begins with the owner and the name of a repository.\<close>

definition commit_ref :: "string \<Rightarrow> string \<Rightarrow> bool" where
  "commit_ref r c \<longleftrightarrow> (\<exists>a. r = a @ ''@'' @ c \<and> a \<noteq> [] \<and> list_all (\<lambda>x. x \<noteq> CHR ''@'' \<and> \<not> py_space x) a \<and>
     length c = 40 \<and> list_all hex c)"

definition of_repository :: "string \<Rightarrow> string \<Rightarrow> bool" where
  "of_repository r repo \<longleftrightarrow> (\<exists>owner name t. repo = owner @ ''/'' @ name \<and> r = repo @ t \<and>
     owner \<noteq> [] \<and> list_all slug_char owner \<and> name \<noteq> [] \<and> list_all slug_char name \<and> (t = [] \<or> \<not> slug_char (hd t)))"

lemma full_commit_iff: "re_fullmatch FULL_COMMIT_REF r \<noteq> None \<longleftrightarrow> (\<exists>c. commit_ref r c)"
proof -
  have "(\<exists>g. spans FULL_COMMIT_REF [] r [] g) \<longleftrightarrow> (\<exists>c. commit_ref r c)"
    unfolding FULL_COMMIT_REF_def TextStart_def Chr_def spans_Seq commit_ref_def
    by (simp add: spans_Times_Cls) blast
  then show ?thesis by (simp only: fullmatch_iff)
qed

lemma after_last_run: "c \<notin> set w \<Longrightarrow> after_last c (u @ c # w) = w"
  unfolding after_last_def by (simp add: takeWhile_stop)

lemma commit_of_ref: "commit_ref r c \<Longrightarrow> after_last CHR ''@'' r = c"
proof -
  assume "commit_ref r c"
  then obtain a where r: "r = a @ CHR ''@'' # c" "list_all hex c" by (auto simp: commit_ref_def)
  have "CHR ''@'' \<notin> set c"
  proof
    assume "CHR ''@'' \<in> set c"
    with r(2) have "hex CHR ''@''" by (simp add: list_all_iff)
    then show False by (simp add: hex_def digit_def)
  qed
  with r show ?thesis by (simp add: after_last_run)
qed

lemma repository_match:
  assumes "of_repository r repo"
  shows "\<exists>g. re_match ACTION_REPOSITORY r = Some g \<and> group g 1 = repo"
proof -
  obtain owner name t where repo: "repo = owner @ ''/'' @ name" and r: "r = repo @ t"
    and o: "owner \<noteq> []" "list_all slug_char owner" and n: "name \<noteq> []" "list_all slug_char name"
    and t: "t = [] \<or> \<not> slug_char (hd t)"
    using assms unfolding of_repository_def by blast
  have 1: "match_at (Plus (Cls slug_char)) ([], r) = Some ((rev owner, ''/'' @ name @ t), [])"
    using match_at_Plus_Cls [OF o, of "''/'' @ name @ t" "[]"] by (simp add: repo r slug_char_def)
  have 2: "match_at (Chr CHR ''/'') (rev owner, ''/'' @ name @ t) = Some ((CHR ''/'' # rev owner, name @ t), [])"
    by (simp add: match_at_def Chr_def)
  have 3: "match_at (Plus (Cls slug_char)) (CHR ''/'' # rev owner, name @ t) = Some ((rev repo, t), [])"
    using match_at_Plus_Cls [OF n t] by (simp add: repo)
  have "match_at TextStart ([], r) = Some (([], r), [])" by (simp add: match_at_def TextStart_def test_def)
  from match_at_Seq [OF this match_at_Grp [OF match_at_Seq [OF 1 match_at_Seq [OF 2 3]], of 1]]
  have "match_at ACTION_REPOSITORY ([], r) = Some ((rev repo, t), [(1, between ([], r) (rev repo, t))])"
    by (simp add: ACTION_REPOSITORY_def)
  moreover have "between ([], r) (rev repo, t) = repo" by (simp add: between_def)
  ultimately show ?thesis by (simp add: re_match_def group_def)
qed

lemma recorded_commit_of:
  "commit_ref r c \<Longrightarrow> of_repository r repo \<Longrightarrow> recorded_commit r = [(lower repo, lower c)]"
  using repository_match [of r repo] by (auto simp: recorded_commit_def commit_of_ref)

lemma workflow_entry:
  assumes "check_entry ip (p, Regular (Some text)) a = ([], a')" "scanned p (Regular (Some text))" "workflow p"
  shows "check_workflow p text a = ([], a')"
  using assms
  by (auto simp: check_entry_def check_text_def scanned_def workflow_def is_dir_def Let_def split: prod.splits)

end
