(* ===== verification/Safety_Uses.thy ===== *)
theory Safety_Uses
  imports Safety_Props "HOL-Library.Sublist"
begin

text \<open>
  Which uses of actions the scan of a workflow sees: an entry as a reader of block style YAML
  understands it is found by the regular expression, however the matches before it fall.
\<close>

section \<open>The first match\<close>

text \<open>The first way to match a sequence ends in the first way to match its second part.\<close>

lemma match_at_SeqD:
  assumes "match_at (Seq r1 r2) c = Some (c2, g)"
  obtains c1 g1 g2 where "(c1, g1) \<in> set (matches r1 c)" "match_at r2 c1 = Some (c2, g2)" "g = g2 @ g1"
proof -
  let ?f = "\<lambda>(c1, g1). map (\<lambda>(c2, g2). (c2, g2 @ g1)) (matches r2 c1)"
  have "\<exists>c1 g1 g2. (c1, g1) \<in> set xs \<and> match_at r2 c1 = Some (c2, g2) \<and> g = g2 @ g1"
    if "concat (map ?f xs) = (c2, g) # ys" for xs ys
    using that
  proof (induction xs)
    case (Cons x xs)
    obtain c1 g1 where x: "x = (c1, g1)" by (cases x)
    show ?case
    proof (cases "matches r2 c1")
      case Nil
      with Cons x show ?thesis by auto
    next
      case (Cons m ms)
      then have "m = (c2, snd m) \<and> g = snd m @ g1"
        using \<open>concat (map ?f (x # xs)) = (c2, g) # ys\<close> by (cases m) (simp add: x)
      with Cons have "match_at r2 c1 = Some (c2, snd m)" "g = snd m @ g1" by (simp_all add: match_at_def)
      then show ?thesis unfolding x by (metis list.set_intros(1))
    qed
  qed simp
  moreover obtain ys where "concat (map ?f (matches r1 c)) = (c2, g) # ys"
    using assms by (auto simp: match_at_def split: list.splits)
  ultimately show thesis using that by blast
qed

section \<open>Entries\<close>

definition ref_char :: "char \<Rightarrow> bool" where
  "ref_char c \<longleftrightarrow> \<not> py_space c \<and> c \<noteq> CHR ''#''"

abbreviation blanks :: "string \<Rightarrow> bool" where "blanks \<equiv> list_all py_space"

text \<open>
  The head of an entry that uses an action, up to its value: blanks, an optional dash, blanks,
  the key and blanks.  \<open>uses_at l s r v\<close>: such an entry begins the text \<open>s\<close>, with \<open>l\<close> before it,
  reversed, and its value is the longest run \<open>r\<close>, with \<open>v\<close> behind it.
\<close>

definition uses_head :: "string \<Rightarrow> bool" where
  "uses_head h \<longleftrightarrow> (\<exists>a d b e. h = a @ d @ b @ ''uses:'' @ e \<and> blanks a \<and> d \<in> {[], ''-''} \<and> blanks b \<and> blanks e)"

definition uses_at :: "string \<Rightarrow> string \<Rightarrow> string \<Rightarrow> string \<Rightarrow> bool" where
  "uses_at l s r v \<longleftrightarrow> (l = [] \<or> hd l = newline) \<and>
     (\<exists>h. s = h @ r @ v \<and> uses_head h \<and> r \<noteq> [] \<and> list_all ref_char r \<and> edge ref_char v)"

lemma matches_reads:
  assumes "(c1, g1) \<in> set (matches r (l, s))"
  obtains w t where "s = w @ t" "c1 = (rev w @ l, t)" "spans r l w t g1"
  using assms unfolding matches_parses parses_spans by blast

text \<open>What the first match of the pattern at a place is.\<close>

lemma uses_match:
  assumes "match_at ACTION_USES_PATTERN (l, s) = Some (c, g)"
  obtains h where "s = h @ group g 1 @ snd c" "c = (rev (h @ group g 1) @ l, snd c)" "uses_at l s (group g 1) (snd c)"
    "uses_head h"
proof -
  obtain c1 g1 h1 where 1: "(c1, g1) \<in> set (matches LineStart (l, s))" and m1: "g = h1 @ g1"
    and r1: "match_at (Seq (Star Space) (Seq (Opt (Chr CHR ''-'')) (Seq (Star Space)
     (Seq (Text ''uses:'') (Seq (Star Space) (Grp 1 (Plus (Cls ref_char)))))))) c1 = Some (c, h1)"
    using assms unfolding ACTION_USES_PATTERN_def ref_char_def [symmetric] by (rule match_at_SeqD)
  have c1: "c1 = (l, s)" "g1 = []" "l = [] \<or> hd l = newline" using 1 by (auto simp: set_test)
  obtain c2 g2 h2 where 2: "(c2, g2) \<in> set (matches (Star Space) (l, s))" and m2: "h1 = h2 @ g2"
    and r2: "match_at (Seq (Opt (Chr CHR ''-'')) (Seq (Star Space)
     (Seq (Text ''uses:'') (Seq (Star Space) (Grp 1 (Plus (Cls ref_char))))))) c2 = Some (c, h2)"
    using r1 unfolding c1 by (rule match_at_SeqD)
  obtain a s2 where a: "s = a @ s2" "c2 = (rev a @ l, s2)" "spans (Star Space) l a s2 g2"
    using 2 by (rule matches_reads)
  obtain c3 g3 h3 where 3: "(c3, g3) \<in> set (matches (Opt (Chr CHR ''-'')) (rev a @ l, s2))" and m3: "h2 = h3 @ g3"
    and r3: "match_at (Seq (Star Space) (Seq (Text ''uses:'') (Seq (Star Space) (Grp 1 (Plus (Cls ref_char)))))) c3 =
      Some (c, h3)"
    using r2 unfolding a(2) by (rule match_at_SeqD)
  obtain d s3 where d: "s2 = d @ s3" "c3 = (rev d @ rev a @ l, s3)" "spans (Opt (Chr CHR ''-'')) (rev a @ l) d s3 g3"
    using 3 by (rule matches_reads)
  obtain c4 g4 h4 where 4: "(c4, g4) \<in> set (matches (Star Space) (rev d @ rev a @ l, s3))" and m4: "h3 = h4 @ g4"
    and r4: "match_at (Seq (Text ''uses:'') (Seq (Star Space) (Grp 1 (Plus (Cls ref_char))))) c4 = Some (c, h4)"
    using r3 unfolding d(2) by (rule match_at_SeqD)
  obtain b s4 where b: "s3 = b @ s4" "c4 = (rev b @ rev d @ rev a @ l, s4)" "spans (Star Space) (rev d @ rev a @ l) b s4 g4"
    using 4 by (rule matches_reads)
  obtain c5 g5 h5 where 5: "(c5, g5) \<in> set (matches (Text ''uses:'') (rev b @ rev d @ rev a @ l, s4))"
    and m5: "h4 = h5 @ g5"
    and r5: "match_at (Seq (Star Space) (Grp 1 (Plus (Cls ref_char)))) c5 = Some (c, h5)"
    using r4 unfolding b(2) by (rule match_at_SeqD)
  obtain u s5 where u: "s4 = u @ s5" "c5 = (rev u @ rev b @ rev d @ rev a @ l, s5)"
    "spans (Text ''uses:'') (rev b @ rev d @ rev a @ l) u s5 g5"
    using 5 by (rule matches_reads)
  obtain c6 g6 h6 where 6: "(c6, g6) \<in> set (matches (Star Space) (rev u @ rev b @ rev d @ rev a @ l, s5))"
    and m6: "h5 = h6 @ g6" and r6: "match_at (Grp 1 (Plus (Cls ref_char))) c6 = Some (c, h6)"
    using r5 unfolding u(2) by (rule match_at_SeqD)
  obtain e s6 where e: "s5 = e @ s6" "c6 = (rev e @ rev u @ rev b @ rev d @ rev a @ l, s6)"
    "spans (Star Space) (rev u @ rev b @ rev d @ rev a @ l) e s6 g6"
    using 6 by (rule matches_reads)
  have parts: "blanks a" "blanks b" "blanks e" "d \<in> {[], ''-''}" "u = ''uses:''"
    and none: "g2 = []" "g3 = []" "g4 = []" "g5 = []" "g6 = []"
    using a(3) b(3) e(3) d(3) u(3) by (auto simp: Space_def Opt_def Chr_def spans_Text simp del: Text.simps)
  let ?l6 = "rev e @ rev u @ rev b @ rev d @ rev a @ l"
  define r where "r = takeWhile ref_char (s6)"
  define v where "v = dropWhile ref_char (s6)"
  have rv: "s6 = r @ v" "list_all ref_char r" "edge ref_char v"
    unfolding r_def v_def edge_def using hd_dropWhile [of ref_char s6] by (auto simp: list_all_iff dest: set_takeWhileD)
  have "r \<noteq> []"
  proof
    assume "r = []"
    then have "match_at (Grp 1 (Plus (Cls ref_char))) (?l6, s6) = None"
      using rv by (cases v) (auto simp: match_at_None edge_def Cons_eq_append_conv)
    with r6 e(2) show False by simp
  qed
  then have run: "match_at (Plus (Cls ref_char)) (?l6, r @ v) = Some ((rev r @ ?l6, v), [])"
    using rv by (intro match_at_Plus_Cls) (auto simp: edge_def)
  have last: "match_at (Grp 1 (Plus (Cls ref_char))) c6 = Some ((rev r @ ?l6, v), [(1, r)])"
    using match_at_Grp [OF run, of 1] e(2) rv(1) between_read [of ?l6 r v] by simp
  then have c: "c = (rev r @ ?l6, v)" and h6: "h6 = [(1, r)]" using r6 by simp_all
  have g: "group g 1 = r" by (simp add: m1 m2 m3 m4 m5 m6 h6 c1 none group_def)
  let ?h = "a @ d @ b @ u @ e"
  have h: "uses_head ?h" unfolding uses_head_def using parts by blast
  have s: "s = ?h @ r @ v" using a(1) d(1) b(1) u(1) e(1) rv(1) by simp
  show thesis
  proof (rule that)
    show "s = ?h @ group g 1 @ snd c" using s by (simp only: c g snd_conv)
    show "c = (rev (?h @ group g 1) @ l, snd c)" unfolding g by (simp add: c)
    show "uses_head ?h" by (rule h)
    show "uses_at l s (group g 1) (snd c)"
      unfolding uses_at_def using h s c1(3) rv(2,3) \<open>r \<noteq> []\<close> unfolding g c snd_conv by blast
  qed
qed

lemma uses_spans:
  assumes "uses_at l s r v"
  shows "match_at ACTION_USES_PATTERN (l, s) \<noteq> None"
proof -
  obtain h where h: "s = h @ r @ v" "uses_head h" and l: "l = [] \<or> hd l = newline"
    and run: "r \<noteq> []" "list_all ref_char r"
    using assms unfolding uses_at_def by blast
  obtain a d b e where "h = a @ d @ b @ ''uses:'' @ e" and parts: "blanks a" "d \<in> {[], ''-''}" "blanks b" "blanks e"
    using h(2) unfolding uses_head_def by blast
  with h(1) have s: "s = ([] @ a @ d @ b @ ''uses:'' @ e @ r) @ v" by simp
  have "spans (Opt (Chr CHR ''-'')) l' d s' []" for l' s' using parts(2) by (auto simp: Opt_def Chr_def)
  moreover have "spans (Grp 1 (Plus (Cls ref_char))) l' r s' [(1, r)]" for l' s' using run by simp
  ultimately have "spans ACTION_USES_PATTERN l ([] @ a @ d @ b @ ''uses:'' @ e @ r) v ((((((([(1, r)] @ []) @ []) @ []) @ []) @ []) @ []))"
    unfolding ACTION_USES_PATTERN_def ref_char_def [symmetric] Space_def
    by (intro spans_SeqI) (use l parts in \<open>auto simp: spans_Text simp del: Text.simps\<close>)
  then show ?thesis unfolding match_at_None s by blast
qed

text \<open>The value of an entry is determined by the text.\<close>

definition behind_dash :: "string \<Rightarrow> string" where
  "behind_dash s = (let t = dropWhile py_space s in if starts ''-'' t then dropWhile py_space (tl t) else t)"

lemma not_blank: "\<not> py_space CHR ''-''" "\<not> py_space CHR ''u''" "py_space newline" "\<not> ref_char newline"
  by (simp_all add: py_space_def ref_char_def)

lemma drop_blanks: "blanks a \<Longrightarrow> dropWhile py_space (a @ t) = dropWhile py_space t"
  by (auto simp: list_all_iff dropWhile_append2)

lemma uses_value:
  assumes "uses_head h" "r \<noteq> []" "list_all ref_char r" "edge ref_char v"
  shows "takeWhile ref_char (dropWhile py_space (drop 5 (behind_dash (h @ r @ v)))) = r"
proof -
  obtain a d b e where h: "h = a @ d @ b @ ''uses:'' @ e" and parts: "blanks a" "d \<in> {[], ''-''}" "blanks b" "blanks e"
    using assms(1) unfolding uses_head_def by blast
  have "behind_dash (h @ r @ v) = ''uses:'' @ e @ r @ v"
    using parts by (auto simp: h behind_dash_def drop_blanks not_blank)
  moreover have "dropWhile py_space (e @ r @ v) = r @ v"
    using parts(4) assms(2,3) by (cases r) (auto simp: drop_blanks ref_char_def)
  moreover have "takeWhile ref_char (r @ v) = r"
    using assms(3,4) by (cases v) (auto simp: edge_def list_all_iff takeWhile_append2)
  ultimately show ?thesis by simp
qed

lemma head_cut:
  assumes "uses_head (u @ h)" "u \<noteq> []" "last u = newline"
  shows "uses_head h \<or> (\<exists>x ws. u = x @ ''uses:'' @ ws \<and> blanks ws)"
proof -
  obtain a d b e where eq: "u @ h = a @ d @ b @ ''uses:'' @ e"
    and parts: "blanks a" "d \<in> {[], ''-''}" "blanks b" "blanks e"
    using assms(1) unfolding uses_head_def by blast
  have tail: "uses_head h' \<or> (\<exists>x ws. u = x @ ''uses:'' @ ws \<and> blanks ws)"
    if u': "u = p @ u'" "u' \<noteq> []" "u' @ h' = b @ ''uses:'' @ e" for p u' h'
  proof -
    have last: "last u' = newline" using assms(3) u' by simp
    consider b2 where "b = u' @ b2" "h' = b2 @ ''uses:'' @ e"
      | u2 where "u' = b @ u2" "u2 \<noteq> []" "u2 @ h' = ''uses:'' @ e"
      using u'(3) by (auto simp: append_eq_append_conv2) (metis append_Nil append_Nil2)+
    then show ?thesis
    proof cases
      case 1
      with parts have "uses_head h'"
        unfolding uses_head_def by (intro exI [of _ b2] exI [of _ "[]"] exI [of _ e]) simp
      then show ?thesis ..
    next
      case 2
      then consider t where "''uses:'' = u2 @ t" | t where "u2 = ''uses:'' @ t" "e = t @ h'"
        unfolding append_eq_append_conv2 by metis
      then show ?thesis
      proof cases
        case 1
        then have "newline \<in> set ''uses:''"
          using 2 last by (metis Un_iff last_appendR last_in_set set_append)
        then show ?thesis by simp
      next
        case cut: 2
        then have "u = (p @ b) @ ''uses:'' @ t \<and> blanks t" using parts(4) u'(1) 2(1) by simp
        then show ?thesis by blast
      qed
    qed
  qed
  consider a2 where "a = u @ a2" "h = a2 @ d @ b @ ''uses:'' @ e"
    | u1 where "u = a @ u1" "u1 \<noteq> []" "u1 @ h = d @ b @ ''uses:'' @ e"
    using eq by (auto simp: append_eq_append_conv2) (metis append_Nil append_Nil2)+
  then show ?thesis
  proof cases
    case 1
    with parts show ?thesis unfolding uses_head_def by (metis list_all_append)
  next
    case 2
    show ?thesis
    proof (cases "d = []")
      case True
      with 2 show ?thesis by (intro tail) auto
    next
      case False
      then have d: "d = ''-''" using parts(2) by simp
      then obtain u' where u': "u1 = CHR ''-'' # u'" "u' @ h = b @ ''uses:'' @ e"
        using 2(2,3) by (cases u1) auto
      have "u' \<noteq> []" using assms(3) 2(1) u'(1) by auto
      then show ?thesis using u' 2(1) by (intro tail [of "a @ ''-''" u']) auto
    qed
  qed
qed

section \<open>Every entry is found\<close>

text \<open>
  The scan finds every such entry, whatever stands before it, unless the entry itself is the value
  of a \<open>uses:\<close> before it that has none on its own line.
\<close>

lemma scan_uses:
  assumes "uses_at (rev u @ l) s r v"
    and "\<And>x ws. rev l @ u = x @ ''uses:'' @ ws \<Longrightarrow> \<not> blanks ws"
  shows "\<exists>w g. (w, g) \<in> set (scan ACTION_USES_PATTERN (l, u @ s)) \<and> group g 1 = r"
  using assms
proof (induction "length u" arbitrary: l u rule: less_induct)
  case less
  obtain h' where s: "s = h' @ r @ v" "uses_head h'" "r \<noteq> []" "list_all ref_char r" "edge ref_char v"
    and start: "rev u @ l = [] \<or> hd (rev u @ l) = newline"
    using less.prems(1) unfolding uses_at_def by blast
  show ?case
  proof (cases "match_at ACTION_USES_PATTERN (l, u @ s)")
    case None
    then obtain x u' where u: "u = x # u'" using uses_spans [of l s r v] less.prems(1) by (cases u) auto
    have "\<exists>w g. (w, g) \<in> set (scan ACTION_USES_PATTERN (x # l, u' @ s)) \<and> group g 1 = r"
      by (rule less.hyps) (use less.prems in \<open>auto simp: u\<close>)
    with None show ?thesis by (subst scan.simps) (simp add: u)
  next
    case (Some m)
    obtain c g where m: "m = (c, g)" by (cases m)
    define q where "q = group g 1"
    obtain h where h: "u @ s = h @ q @ snd c" "c = (rev (h @ q) @ l, snd c)" "uses_at l (u @ s) q (snd c)" "uses_head h"
      using Some unfolding m q_def by (rule uses_match)
    have q: "q \<noteq> []" "list_all ref_char q" "edge ref_char (snd c)"
      using h(3) unfolding uses_at_def by auto
    have shorter: "length (snd c) < length (u @ s)" using h(1) q(1) by simp
    have found: "scan ACTION_USES_PATTERN (l, u @ s) = (between (l, u @ s) c, g) # scan ACTION_USES_PATTERN c"
      using Some shorter by (subst scan.simps) (simp add: m)
    have same: "q = r" if "s = h2 @ q @ snd c" "uses_head h2" for h2
      using uses_value [OF that(2) q] uses_value [OF s(2-5)] that(1) s(1) by simp
    show ?thesis
    proof (cases "length (h @ q) \<le> length u")
      case True
      then obtain u2 where u2: "u = (h @ q) @ u2" "snd c = u2 @ s"
        using h(1) by (auto simp: append_eq_append_conv2)
      have "\<exists>w g. (w, g) \<in> set (scan ACTION_USES_PATTERN (rev (h @ q) @ l, u2 @ s)) \<and> group g 1 = r"
        by (rule less.hyps) (use less.prems u2 q(1) in auto)
      then show ?thesis unfolding found using h(2) u2(2) by (metis list.set_intros(2))
    next
      case False
      have "q = r"
      proof (cases "u = []")
        case True
        with h(1,4) show ?thesis by (intro same [of h]) simp_all
      next
        case nonempty: False
        then have last: "last u = newline" using start by (simp add: hd_append hd_rev)
        have "length u \<le> length h"
        proof (rule ccontr)
          assume "\<not> length u \<le> length h"
          then obtain q1 q2 where "u = h @ q1" "q1 \<noteq> []" "q = q1 @ q2"
            using h(1) False by (auto simp: append_eq_append_conv2)
          then have "newline \<in> set q" using last by (metis Un_iff last_appendR last_in_set set_append)
          with q(2) not_blank(4) show False by (auto simp: list_all_iff)
        qed
        then obtain h2 where h2: "h = u @ h2" "s = h2 @ q @ snd c"
          using h(1) by (auto simp: append_eq_append_conv2)
        have "\<not> (\<exists>x ws. u = x @ ''uses:'' @ ws \<and> blanks ws)"
        proof
          assume "\<exists>x ws. u = x @ ''uses:'' @ ws \<and> blanks ws"
          then obtain x ws where "u = x @ ''uses:'' @ ws" "blanks ws" by blast
          then show False using less.prems(2) [of "rev l @ x" ws] by simp
        qed
        with head_cut [of u h2] h(4) h2(1) nonempty last have "uses_head h2" by blast
        with h2(2) show ?thesis by (rule same)
      qed
      then show ?thesis unfolding found by (metis list.set_intros(1) q_def)
    qed
  qed
qed

text \<open>An entry of a text that uses an action: it begins a line, and the text before it does not end in a
  \<open>uses:\<close> that still lacks its value.\<close>

definition uses_entry :: "string \<Rightarrow> string \<Rightarrow> bool" where
  "uses_entry text r \<longleftrightarrow> (\<exists>u h v. text = u @ h @ r @ v \<and> (u = [] \<or> last u = newline) \<and> uses_head h \<and>
     r \<noteq> [] \<and> list_all ref_char r \<and> edge ref_char v \<and> \<not> suffix ''uses:'' (rstrip u))"

lemma uses_entry_found: "uses_entry text r \<Longrightarrow> r \<in> set (uses_refs text)"
proof -
  assume "uses_entry text r"
  then obtain u h v where eq: "text = u @ h @ r @ v" and at: "u = [] \<or> last u = newline" "uses_head h"
      "r \<noteq> []" "list_all ref_char r" "edge ref_char v" "\<not> suffix ''uses:'' (rstrip u)"
    unfolding uses_entry_def by blast
  have "rstrip (x @ ''uses:'' @ ws) = x @ ''uses:''" if "blanks ws" for x ws
    using drop_blanks [of "rev ws"] that by (simp add: rstrip_def py_space_def)
  with at(6) have free: "u = x @ ''uses:'' @ ws \<Longrightarrow> \<not> blanks ws" for x ws by (auto simp: suffix_def)
  have "uses_at (rev u @ []) (h @ r @ v) r v" using at by (auto simp: uses_at_def hd_rev)
  from scan_uses [OF this] free obtain w g where "(w, g) \<in> set (re_finditer ACTION_USES_PATTERN text)" "group g 1 = r"
    by (auto simp: re_finditer_def eq)
  then show ?thesis unfolding uses_refs_def by force
qed

end
