(* ===== verification/Modbus_Demo.thy ===== *)
theory Modbus_Demo
  imports Register_Map PyText
begin

text \<open>
  \<open>examples/modbus_demo.py\<close>: the demonstration client.  The PyModbus client is a parameter, a record
  of the calls the script makes over a state of its own; the manifest is the parsed document, and
  what \<open>print\<close> shows is the returned record.
\<close>

section \<open>The client\<close>

datatype response = ErrorResponse | Registers "int list"

record 's modbus_client =
  client_connect :: "'s \<Rightarrow> 's \<times> bool result"
  read_holding_registers :: "int \<Rightarrow> int \<Rightarrow> int \<Rightarrow> 's \<Rightarrow> 's \<times> response result"
  write_register :: "int \<Rightarrow> int \<Rightarrow> int \<Rightarrow> 's \<Rightarrow> 's \<times> response result"
  client_close :: "'s \<Rightarrow> 's"

text \<open>Code that calls the client: a state beside a result.\<close>

type_synonym ('s, 'a) session = "'s \<Rightarrow> 's \<times> 'a result"

definition pureS :: "'a result \<Rightarrow> ('s, 'a) session" where
  "pureS r s = (s, r)"

definition bindS :: "('s, 'a) session \<Rightarrow> ('a \<Rightarrow> ('s, 'b) session) \<Rightarrow> ('s, 'b) session" where
  "bindS f k s = (case f s of (s', Inl e) \<Rightarrow> (s', Inl e) | (s', Inr x) \<Rightarrow> k x s')"

lemma bindS_simps [simp]:
  "f s = (s', Inl e) \<Longrightarrow> bindS f k s = (s', Inl e)"
  "f s = (s', Inr x) \<Longrightarrow> bindS f k s = k x s'"
  by (simp_all add: bindS_def)

section \<open>Asking the manifest\<close>

definition map_registers :: "pyval \<Rightarrow> pyval list result" where
  "map_registers doc = bindE (py_getitem doc ''registers'') py_iter"

definition UNIT_ID :: "pyval \<Rightarrow> int result" where
  "UNIT_ID doc = bindE (bindE (py_getitem doc ''device'') (\<lambda>d. py_getitem d ''unit_id'')) py_int"

fun find_address :: "string \<Rightarrow> pyval list \<Rightarrow> int result" where
  "find_address k [] = Inl (KeyError k)"
| "find_address k (r # rs) =
     bindE (py_getitem r ''key'') (\<lambda>v.
     if v = PStr k then bindE (py_getitem r ''address'') py_int else find_address k rs)"

definition address_of :: "pyval \<Rightarrow> string \<Rightarrow> int result" where
  "address_of doc k = bindE (map_registers doc) (find_address k)"

fun area_addresses :: "string \<Rightarrow> pyval list \<Rightarrow> int list result" where
  "area_addresses a [] = Inr []"
| "area_addresses a (r # rs) =
     bindE (py_getitem r ''area'') (\<lambda>v.
     if v = PStr a
     then bindE (bindE (py_getitem r ''address'') py_int) (\<lambda>n.
          bindE (area_addresses a rs) (\<lambda>ns. Inr (n # ns)))
     else area_addresses a rs)"

definition block :: "pyval \<Rightarrow> string \<Rightarrow> (int \<times> int) result" where
  "block doc a =
     bindE (map_registers doc) (\<lambda>rs.
     bindE (area_addresses a rs) (\<lambda>addresses.
     if addresses = [] then Inl (ValueError ''min() arg is an empty sequence'')
     else Inr (Min (set addresses), int (length addresses))))"

section \<open>The session\<close>

text \<open>\<open>xs[i]\<close>: a negative index counts from the end.\<close>

definition py_index :: "int list \<Rightarrow> int \<Rightarrow> int result" where
  "py_index xs i =
     (if 0 \<le> i \<and> i < int (length xs) then Inr (xs ! nat i)
      else if - int (length xs) \<le> i \<and> i < 0 then Inr (xs ! nat (i + int (length xs)))
      else Inl IndexError)"

text \<open>\<open>if response.isError(): raise RuntimeError(...)\<close>\<close>

definition expect :: "string \<Rightarrow> response \<Rightarrow> int list result" where
  "expect msg resp = (case resp of ErrorResponse \<Rightarrow> Inl (RuntimeError msg) | Registers rs \<Rightarrow> Inr rs)"

record demo_output =
  initial_level_setpoint :: int
  initial_pump_speed_setpoint :: int
  read_back_pump_speed_setpoint :: int

definition demo_report :: "pyval \<Rightarrow> int \<Rightarrow> int \<Rightarrow> int list \<Rightarrow> int list \<Rightarrow> demo_output result" where
  "demo_report doc base speed initial final =
     bindE (bindE (address_of doc ''level_setpoint'') (\<lambda>level. py_index initial (level - base))) (\<lambda>l.
     bindE (py_index initial (speed - base)) (\<lambda>v.
     bindE (py_index final 0) (\<lambda>w.
     Inr \<lparr>initial_level_setpoint = l, initial_pump_speed_setpoint = v, read_back_pump_speed_setpoint = w\<rparr>)))"

definition demo_session :: "pyval \<Rightarrow> int \<Rightarrow> 's modbus_client \<Rightarrow> ('s, demo_output) session" where
  "demo_session doc unit c =
     bindS (client_connect c) (\<lambda>connected.
     bindS (pureS (if connected then Inr () else Inl (RuntimeError ''could not connect''))) (\<lambda>_.
     bindS (pureS (block doc ''holding_register'')) (\<lambda>(base, count).
     bindS (read_holding_registers c base count unit) (\<lambda>resp.
     bindS (pureS (expect ''initial read failed'' resp)) (\<lambda>initial.
     bindS (pureS (address_of doc ''pump_speed_setpoint'')) (\<lambda>speed.
     bindS (write_register c speed 8000 unit) (\<lambda>resp.
     bindS (pureS (expect ''bounded setpoint write failed'' resp)) (\<lambda>_.
     bindS (read_holding_registers c speed 1 unit) (\<lambda>resp.
     bindS (pureS (expect ''read-back failed'' resp)) (\<lambda>final.
     pureS (demo_report doc base speed initial final)))))))))))"

text \<open>\<open>try: ... finally: client.close()\<close>\<close>

definition closing :: "'s modbus_client \<Rightarrow> ('s, 'a) session \<Rightarrow> ('s, 'a) session" where
  "closing c f s = (case f s of (s', r) \<Rightarrow> (client_close c s', r))"

section \<open>The command line\<close>

record demo_arguments =
  target_host :: string
  target_port :: int
  acknowledge_authorized_target :: bool

definition demo_is_loopback :: "(string \<Rightarrow> bool option) \<Rightarrow> string \<Rightarrow> bool" where
  "demo_is_loopback loopback_address h =
     (if casefold h = ''localhost'' then True
      else case loopback_address h of Some b \<Rightarrow> b | None \<Rightarrow> False)"

text \<open>\<open>parser.error\<close> ends the program with its text, before any client exists.\<close>

definition demo_main ::
  "pyval \<Rightarrow> (string \<Rightarrow> bool option) \<Rightarrow> (string \<Rightarrow> int \<Rightarrow> 's modbus_client) \<Rightarrow> demo_arguments \<Rightarrow>
     ('s, string + demo_output) session" where
  "demo_main doc loopback_address ModbusTcpClient args =
     bindS (pureS (UNIT_ID doc)) (\<lambda>unit.
     if \<not> (1 \<le> target_port args \<and> target_port args \<le> 65535)
     then pureS (Inr (Inl ''--port must be between 1 and 65535''))
     else if \<not> demo_is_loopback loopback_address (target_host args) \<and> \<not> acknowledge_authorized_target args
     then pureS (Inr (Inl ''a non-loopback target requires --acknowledge-authorized-target''))
     else let c = ModbusTcpClient (target_host args) (target_port args) in
       bindS (closing c (demo_session doc unit c)) (\<lambda>r. pureS (Inr (Inr r))))"

end
