(* ===== verification/Demo_Claims.thy ===== *)
theory Demo_Claims
  imports Modbus_Demo Protocol_Claims
begin

text \<open>
  What the manifest functions of the demonstration client find in a document a register map was
  built from: the addresses of its keys, and the block of an area, which covers the area exactly
  when its addresses leave no gap.
\<close>

section \<open>The manifest and the constructed map\<close>

text \<open>Keys and areas are strings in the document, as the validator demands.\<close>

definition named_entries :: "pyval \<Rightarrow> bool" where
  "named_entries doc \<longleftrightarrow>
     (\<exists>rs. map_registers doc = Inr rs \<and>
        (\<forall>r \<in> set rs. \<exists>k a. py_getitem r ''key'' = Inr (PStr k) \<and> py_getitem r ''area'' = Inr (PStr a)))"

lemma from_dict_place:
  assumes "from_dict r = Inr d" "py_getitem r ''key'' = Inr (PStr k)" "py_getitem r ''area'' = Inr (PStr a)"
  shows "key d = k" "area d = a" "bindE (py_getitem r ''address'') py_int = Inr (address d)"
  using assms by (auto simp: from_dict_def bindE_eq_Inr)

lemma find_address_map:
  assumes "mapE from_dict rs = Inr ds" "d \<in> set ds" "key d = k" "distinct (map key ds)"
    "\<forall>r \<in> set rs. \<exists>k a. py_getitem r ''key'' = Inr (PStr k) \<and> py_getitem r ''area'' = Inr (PStr a)"
  shows "find_address k rs = Inr (address d)"
  using assms
proof (induction rs arbitrary: ds)
  case (Cons r rs)
  then obtain e es where ds: "ds = e # es" "from_dict r = Inr e" "mapE from_dict rs = Inr es"
    by (auto simp: bindE_eq_Inr)
  obtain k' a where r: "py_getitem r ''key'' = Inr (PStr k')" "py_getitem r ''area'' = Inr (PStr a)"
    using Cons.prems(5) by auto
  note place = from_dict_place [OF ds(2) r]
  show ?case
  proof (cases "k' = k")
    case True
    then have "d = e" using Cons.prems(2-4) place(1) by (auto simp: ds(1) image_iff)
    with True r place(3) show ?thesis by simp
  next
    case False
    then have "d \<in> set es" using Cons.prems(2,3) place(1) by (auto simp: ds(1))
    with Cons ds r False show ?thesis by simp
  qed
qed simp

lemma area_addresses_map:
  assumes "mapE from_dict rs = Inr ds"
    "\<forall>r \<in> set rs. \<exists>k a. py_getitem r ''key'' = Inr (PStr k) \<and> py_getitem r ''area'' = Inr (PStr a)"
  shows "area_addresses ar rs = Inr (map address [d \<leftarrow> ds. area d = ar])"
  using assms
proof (induction rs arbitrary: ds)
  case (Cons r rs)
  then obtain e es where ds: "ds = e # es" "from_dict r = Inr e" "mapE from_dict rs = Inr es"
    by (auto simp: bindE_eq_Inr)
  obtain k a where r: "py_getitem r ''key'' = Inr (PStr k)" "py_getitem r ''area'' = Inr (PStr a)"
    using Cons.prems(2) by auto
  from from_dict_place [OF ds(2) r] Cons ds r show ?case by simp
qed simp

lemma address_of_map:
  assumes "RegisterMap_init doc = Inr m" "named_entries doc" "require_key m k = Inr d"
  shows "address_of doc k = Inr (address d)"
proof -
  obtain rs where rs: "map_registers doc = Inr rs" "mapE from_dict rs = Inr (definitions m)"
    using assms(1) by (elim RegisterMap_init_cases) (simp add: map_registers_def)
  have "d \<in> set (definitions m)" "key d = k" "distinct (map key (definitions m))"
    using require_key_Inr [OF RegisterMap_init_wf [OF assms(1)], of k d] assms(3)
      RegisterMap_init_wf [OF assms(1)] by (simp_all add: wf_map_def)
  with rs assms(2) show ?thesis
    using find_address_map [OF rs(2)] by (auto simp: address_of_def named_entries_def)
qed

lemma block_map:
  assumes "RegisterMap_init doc = Inr m" "named_entries doc" "for_area m ar \<noteq> []"
  shows "block doc ar = Inr (Min (address ` set (for_area m ar)), int (length (for_area m ar)))"
proof -
  obtain rs where rs: "map_registers doc = Inr rs" "mapE from_dict rs = Inr (definitions m)"
    using assms(1) by (elim RegisterMap_init_cases) (simp add: map_registers_def)
  with assms(2) have "area_addresses ar rs = Inr (map address (for_area m ar))"
    using area_addresses_map [OF rs(2)] by (auto simp: named_entries_def for_area_def)
  with rs(1) assms(3) show ?thesis by (simp add: block_def)
qed

text \<open>An area whose addresses leave no gap.\<close>

definition contiguous :: "RegisterMap \<Rightarrow> string \<Rightarrow> bool" where
  "contiguous m ar \<longleftrightarrow> (\<exists>b. address ` set (for_area m ar) = {b ..< b + int (length (for_area m ar))})"

lemma contiguous_block:
  assumes "RegisterMap_init doc = Inr m" "named_entries doc" "contiguous m ar" "for_area m ar \<noteq> []"
  obtains b where "block doc ar = Inr (b, int (length (for_area m ar)))"
    "address ` set (for_area m ar) = {b ..< b + int (length (for_area m ar))}"
proof -
  obtain b where b: "address ` set (for_area m ar) = {b ..< b + int (length (for_area m ar))}"
    using assms(3) by (auto simp: contiguous_def)
  have "Min {b ..< b + int (length (for_area m ar))} = b"
    using assms(4) by (intro Min_eqI) auto
  with block_map [OF assms(1,2,4)] b show thesis by (intro that) simp_all
qed

text \<open>The block the demonstration reads covers the area exactly when there is no gap.\<close>

lemma block_covers_iff:
  assumes "RegisterMap_init doc = Inr m" "named_entries doc" "for_area m ar \<noteq> []"
  shows "\<exists>b n. block doc ar = Inr (b, n) \<and>
    ((\<forall>d \<in> set (for_area m ar). b \<le> address d \<and> address d < b + n) \<longleftrightarrow> contiguous m ar)"
proof -
  let ?A = "address ` set (for_area m ar)" and ?n = "int (length (for_area m ar))"
  have card: "card ?A = length (for_area m ar)"
    using for_area_addresses [OF RegisterMap_init_wf [OF assms(1)], of ar] by (metis distinct_card length_map set_map)
  have "contiguous m ar" if "\<forall>d \<in> set (for_area m ar). Min ?A \<le> address d \<and> address d < Min ?A + ?n"
  proof -
    have "?A \<subseteq> {Min ?A ..< Min ?A + ?n}" using that by auto
    then have "?A = {Min ?A ..< Min ?A + ?n}" using card by (intro card_subset_eq) simp_all
    then show ?thesis unfolding contiguous_def by blast
  qed
  moreover have "\<forall>d \<in> set (for_area m ar). Min ?A \<le> address d \<and> address d < Min ?A + ?n" if c: "contiguous m ar"
  proof -
    obtain b where b: "block doc ar = Inr (b, ?n)" "?A = {b ..< b + ?n}"
      by (rule contiguous_block [OF assms(1,2) c assms(3)])
    then have "b = Min ?A" using block_map [OF assms] by simp
    with b(2) show ?thesis by (auto dest: imageI [of _ _ address])
  qed
  ultimately show ?thesis using block_map [OF assms] by blast
qed

end
