(* ===== verification/Argparse.thy ===== *)
theory Argparse
  imports Json_Roundtrip Regex
begin

text \<open>
  What the programs use of \<open>argparse\<close> (Python 3.11): parsers of long options, each with one value or
  none, and \<open>-h\<close>.  An action changes the namespace, which is a record of the program; a value that
  does not convert, or is none of the choices, has no namespace.  The parser ends with the exit
  status, 2 for an error and 0 for help, or with the namespace.
\<close>

section \<open>Conversions\<close>

text \<open>Digits, with single underscores between them.\<close>

definition digit_groups :: "string \<Rightarrow> string option" where
  "digit_groups s =
     (let ws = split_on CHR ''_'' s in
      if list_all (\<lambda>w. w \<noteq> [] \<and> list_all is_digit w) ws then Some (concat ws) else None)"

text \<open>\<open>int(s)\<close>; \<open>None\<close> is a \<open>ValueError\<close>.\<close>

definition int_of_text :: "string \<Rightarrow> int option" where
  "int_of_text s =
     (let (neg, u) = sign_part (strip s) in
      case digit_groups u of
        None \<Rightarrow> None
      | Some ds \<Rightarrow>
          if max_str_digits < length ds then None
          else Some (if neg then - int (read_nat ds) else int (read_nat ds)))"

text \<open>\<open>float(s)\<close>: an underscore stands between two digits.\<close>

fun underscores_ok :: "bool \<Rightarrow> string \<Rightarrow> bool" where
  "underscores_ok after_digit [] = True"
| "underscores_ok after_digit (c # s) =
     (if c = CHR ''_'' then after_digit \<and> s \<noteq> [] \<and> is_digit (hd s) \<and> underscores_ok False s
      else underscores_ok (is_digit c) s)"

definition decimal_of_text :: "bool \<Rightarrow> string \<Rightarrow> pyfloat option" where
  "decimal_of_text neg u =
     (let ds = takeWhile is_digit u; r = dropWhile is_digit u;
          (fs, r1) = (case r of [] \<Rightarrow> ([], r)
                      | c # t \<Rightarrow> if c = CHR ''.'' then (takeWhile is_digit t, dropWhile is_digit t) else ([], r));
          (ex, r2) = exponent_part r1;
          m = (of_nat (read_nat (ds @ fs)) :: rat); e = (case ex of None \<Rightarrow> 0 | Some e \<Rightarrow> e) in
      if ds @ fs = [] \<or> r2 \<noteq> [] then None
      else Some (nearest_float (scale10 (if neg then - m else m) (e - int (length fs)))))"

definition float_of_text :: "string \<Rightarrow> pyfloat option" where
  "float_of_text s =
     (let (neg, u) = sign_part (strip s) in
      if lower u = ''inf'' \<or> lower u = ''infinity'' then Some (if neg then NInf else PInf)
      else if lower u = ''nan'' then Some NaN
      else if \<not> underscores_ok False u then None
      else decimal_of_text neg [c \<leftarrow> u. c \<noteq> CHR ''_''])"

section \<open>Parsers\<close>

datatype 'ns arg_action =
    Help
  | Flag "'ns \<Rightarrow> 'ns"
  | Store "string \<Rightarrow> 'ns \<Rightarrow> 'ns option"

type_synonym 'ns parser = "(string \<times> 'ns arg_action) list"

definition ArgumentParser :: "'ns parser \<Rightarrow> 'ns parser" where
  "ArgumentParser arguments = (''-h'', Help) # (''--help'', Help) # arguments"

section \<open>Classifying the arguments\<close>

datatype 'ns arg = is_Value: Value | Unknown | is_Ambiguous: Ambiguous | Optn string "'ns arg_action" "string option"

text \<open>\<open>s.split("=", 1)\<close>\<close>

definition cut_equals :: "string \<Rightarrow> string \<times> string option" where
  "cut_equals s =
     (takeWhile (\<lambda>c. c \<noteq> CHR ''='') s,
      case dropWhile (\<lambda>c. c \<noteq> CHR ''='') s of [] \<Rightarrow> None | _ # v \<Rightarrow> Some v)"

text \<open>The options a text abbreviates, with the value that comes with it.\<close>

definition abbreviated :: "'ns parser \<Rightarrow> string \<Rightarrow> (string \<times> 'ns arg_action \<times> string option) list" where
  "abbreviated p arg =
     (if starts ''--'' arg
      then let (w, v) = cut_equals arg in map (\<lambda>(opt, a). (opt, a, v)) [(opt, a) \<leftarrow> p. starts w opt]
      else map (\<lambda>(opt, a). (opt, a, if opt = take 2 arg then Some (drop 2 arg) else None))
             [(opt, a) \<leftarrow> p. opt = take 2 arg \<or> starts arg opt])"

text \<open>\<open>^-\d+$|^-\d*\.\d+$\<close>\<close>

definition NEGATIVE_NUMBER :: regex where
  "NEGATIVE_NUMBER =
     Alt (Seq TextStart (Seq (Chr CHR ''-'') (Seq (Plus (Cls is_digit)) TextEnd)))
       (Seq TextStart (Seq (Chr CHR ''-'') (Seq (Star (Cls is_digit)) (Seq (Chr CHR ''.'')
         (Seq (Plus (Cls is_digit)) TextEnd)))))"

definition spelled :: "'ns parser \<Rightarrow> string \<Rightarrow> (string \<times> 'ns arg_action \<times> string option) option" where
  "spelled p arg =
     (case map_of p arg of
        Some a \<Rightarrow> Some (arg, a, None)
      | None \<Rightarrow>
          (case cut_equals arg of
             (w, None) \<Rightarrow> None
           | (w, Some v) \<Rightarrow> map_option (\<lambda>a. (w, a, Some v)) (map_of p w)))"

definition classify :: "'ns parser \<Rightarrow> string \<Rightarrow> 'ns arg" where
  "classify p arg =
     (if arg = [] \<or> hd arg \<noteq> CHR ''-'' \<or> arg = ''-'' then Value
      else case spelled p arg of
          Some (opt, a, v) \<Rightarrow> Optn opt a v
        | None \<Rightarrow>
            (case abbreviated p arg of
               [(opt, a, v)] \<Rightarrow> Optn opt a v
             | _ # _ # _ \<Rightarrow> Ambiguous
             | [] \<Rightarrow> if re_match NEGATIVE_NUMBER arg \<noteq> None \<or> CHR '' '' \<in> set arg then Value else Unknown))"

text \<open>Behind \<open>--\<close> everything is a value; the dashes are none, and no program takes values of its own.\<close>

fun classify_all :: "'ns parser \<Rightarrow> string list \<Rightarrow> (string \<times> 'ns arg) list" where
  "classify_all p [] = []"
| "classify_all p (arg # rest) =
     (if arg = ''--'' then (arg, Unknown) # map (\<lambda>s. (s, Value)) rest
      else (arg, classify p arg) # classify_all p rest)"

section \<open>Running the actions\<close>

text \<open>\<open>-hh\<close> is \<open>-h\<close> twice, and \<open>-h\<close> the only short option.\<close>

definition help_status :: "string \<Rightarrow> string option \<Rightarrow> int" where
  "help_status opt v =
     (case v of
        None \<Rightarrow> 0
      | Some e \<Rightarrow> if opt = ''-h'' \<and> e \<noteq> [] \<and> list_all (\<lambda>c. c = CHR ''h'') e then 0 else 2)"

text \<open>Arguments no option takes are reported at the end.\<close>

fun consume :: "(string \<times> 'ns arg) list \<Rightarrow> bool \<Rightarrow> 'ns \<Rightarrow> int + 'ns" where
  "consume [] extras ns = (if extras then Inl 2 else Inr ns)"
| "consume ((s, Optn opt Help v) # rest) extras ns = Inl (help_status opt v)"
| "consume ((s, Optn opt (Flag f) None) # rest) extras ns = consume rest extras (f ns)"
| "consume ((s, Optn opt (Flag f) (Some v)) # rest) extras ns = Inl 2"
| "consume ((s, Optn opt (Store f) (Some v)) # rest) extras ns =
     (case f v ns of None \<Rightarrow> Inl 2 | Some ns' \<Rightarrow> consume rest extras ns')"
| "consume ((s, Optn opt (Store f) None) # (v, Value) # rest) extras ns =
     (case f v ns of None \<Rightarrow> Inl 2 | Some ns' \<Rightarrow> consume rest extras ns')"
| "consume ((s, Optn opt (Store f) None) # rest) extras ns = Inl 2"
| "consume ((s, k) # rest) extras ns = consume rest True ns"

definition parse_args :: "'ns parser \<Rightarrow> 'ns \<Rightarrow> string list \<Rightarrow> int + 'ns" where
  "parse_args p defaults argv =
     (let args = classify_all p argv in
      if list_ex (\<lambda>(_, k). is_Ambiguous k) args then Inl 2 else consume args False defaults)"

section \<open>What an option leaves in the namespace\<close>

lemma classify_option:
  assumes "classify p arg = Optn opt a v"
  shows "(opt, a) \<in> set p" "starts (fst (cut_equals arg)) opt \<or> opt = take 2 arg \<or> starts arg opt"
proof -
  have "(opt, a) \<in> set p \<and> (starts (fst (cut_equals arg)) opt \<or> opt = take 2 arg \<or> starts arg opt)"
  proof (cases "spelled p arg")
    case None
    with assms have "(opt, a, v) \<in> set (abbreviated p arg)"
      by (auto simp: classify_def split: if_splits list.splits)
    then show ?thesis by (auto simp: abbreviated_def case_prod_unfold Let_def split: if_splits)
  next
    case (Some x)
    have self: "starts w w" for w by (simp add: starts_def)
    from Some assms show ?thesis
      by (auto simp: classify_def spelled_def self split: if_splits option.splits prod.splits dest: map_of_SomeD)
  qed
  then show "(opt, a) \<in> set p" "starts (fst (cut_equals arg)) opt \<or> opt = take 2 arg \<or> starts arg opt" by blast+
qed

text \<open>An option without a value of its own is spelled out or abbreviated.\<close>

lemma classify_prefix:
  assumes "classify p arg = Optn opt a None"
  shows "starts arg opt" "starts ''-'' arg" "arg \<noteq> ''-''"
proof -
  have cut: "w = arg" if "cut_equals arg = (w, None)" for w
  proof -
    have "dropWhile (\<lambda>c. c \<noteq> CHR ''='') arg = []" using that by (simp add: cut_equals_def split: list.splits)
    moreover have "takeWhile (\<lambda>c. c \<noteq> CHR ''='') arg = w" using that by (simp add: cut_equals_def)
    ultimately show ?thesis by (metis append_Nil2 takeWhile_dropWhile_id)
  qed
  have self: "starts arg arg" by (simp add: starts_def)
  show "starts arg opt"
  proof (cases "spelled p arg")
    case None
    with assms have "(opt, a, None) \<in> set (abbreviated p arg)"
      by (auto simp: classify_def split: if_splits list.splits)
    then show ?thesis by (auto simp: abbreviated_def split: if_splits prod.splits dest: cut [OF sym])
  next
    case (Some x)
    with assms have "spelled p arg = Some (opt, a, None)"
      by (cases x) (simp add: classify_def split: if_splits)
    then have "opt = arg" by (simp add: spelled_def split: option.splits prod.splits)
    with self show ?thesis by simp
  qed
  have "\<not> (arg = [] \<or> hd arg \<noteq> CHR ''-'' \<or> arg = ''-'')"
    using assms unfolding classify_def by (auto split: if_splits)
  then show "starts ''-'' arg" "arg \<noteq> ''-''" by (cases arg; simp)+
qed

lemma given_option:
  assumes "classify p s = Optn (''--'' @ c # w) a None" "is_Ambiguous (classify p ''--'')"
  shows "starts (''--'' @ [c]) s \<and> starts s (''--'' @ c # w)"
proof -
  note s = classify_prefix [OF assms(1)]
  have "s \<noteq> ''--''" using assms by auto
  with s show ?thesis
    by (cases s; cases "tl s"; cases "tl (tl s)") (auto simp: starts_def)
qed

lemma classify_all_option:
  "(s, Optn opt a v) \<in> set (classify_all p argv) \<Longrightarrow> s \<in> set argv \<and> classify p s = Optn opt a v"
  by (induction p argv rule: classify_all.induct) (auto split: if_splits)

lemma consume_invariant:
  assumes "consume args extras ns = Inr ns'" "I ns" "set args \<subseteq> S"
    "\<And>s opt f v x ns ns'. (s, Optn opt (Store f) v) \<in> S \<Longrightarrow> f x ns = Some ns' \<Longrightarrow> I ns \<Longrightarrow> I ns'"
    "\<And>s opt f ns. (s, Optn opt (Flag f) None) \<in> S \<Longrightarrow> I ns \<Longrightarrow> I (f ns)"
  shows "I ns'"
  using assms(1-3)
proof (induction args extras ns rule: consume.induct)
  case (5 s opt f v rest extras ns)
  then show ?case using assms(4) by (fastforce split: option.splits)
next
  case (6 s opt f v rest extras ns)
  then show ?case using assms(4) by (fastforce split: option.splits)
qed (auto intro: assms(5) split: if_splits)

text \<open>Whatever every stored value keeps, and every flag that was given keeps, holds at the end.\<close>

lemma parse_args_invariant:
  assumes "parse_args p defaults argv = Inr ns" "I defaults"
    "\<And>opt f x ns ns'. (opt, Store f) \<in> set p \<Longrightarrow> f x ns = Some ns' \<Longrightarrow> I ns \<Longrightarrow> I ns'"
    "\<And>opt f ns s. (opt, Flag f) \<in> set p \<Longrightarrow> s \<in> set argv \<Longrightarrow> classify p s = Optn opt (Flag f) None \<Longrightarrow> I ns \<Longrightarrow> I (f ns)"
  shows "I ns"
proof (rule consume_invariant [where S = "set (classify_all p argv)"])
  show "consume (classify_all p argv) False defaults = Inr ns"
    using assms(1) by (auto simp: parse_args_def Let_def split: if_splits)
  show "I defaults" by (rule assms(2))
  show "set (classify_all p argv) \<subseteq> set (classify_all p argv)" by simp
next
  fix s opt f v x ns ns'
  assume "(s, Optn opt (Store f) v) \<in> set (classify_all p argv)" "f x ns = Some ns'" "I ns"
  then show "I ns'" using assms(3) classify_all_option classify_option(1) by metis
next
  fix s opt f ns
  assume "(s, Optn opt (Flag f) None) \<in> set (classify_all p argv)" "I ns"
  then show "I (f ns)" using assms(4) classify_all_option classify_option(1) by metis
qed

section \<open>Options spelled out\<close>

lemma classify_spelled: "map_of p s = Some a \<Longrightarrow> s \<noteq> [] \<Longrightarrow> hd s = CHR ''-'' \<Longrightarrow> s \<noteq> ''-'' \<Longrightarrow> classify p s = Optn s a None"
  by (simp add: classify_def spelled_def)

definition plain :: "string \<Rightarrow> bool" where
  "plain s \<longleftrightarrow> s = [] \<or> hd s \<noteq> CHR ''-''"

lemma classify_plain: "plain s \<Longrightarrow> classify p s = Value"
  by (auto simp: plain_def classify_def)

lemma plain_no_dashes: "plain s \<Longrightarrow> s \<noteq> ''--''"
  by (auto simp: plain_def)

lemma digit_char: "is_digit c \<Longrightarrow> \<not> py_space c \<and> c \<noteq> CHR ''_'' \<and> c \<noteq> CHR ''-'' \<and> c \<noteq> CHR ''+''"
  by (auto simp: is_digit_def py_space_def Let_def)

lemma strip_solid:
  assumes "s \<noteq> []" "\<not> py_space (hd s)" "\<not> py_space (last s)"
  shows "strip s = s"
proof -
  have "dropWhile py_space s = s" using assms by (cases s) auto
  moreover have "dropWhile py_space (rev s) = rev s" using assms by (cases s rule: rev_cases) auto
  ultimately show ?thesis by (simp add: strip_def rstrip_def)
qed

lemma int_of_text_show:
  assumes "0 \<le> i" "length (show_int i) \<le> max_str_digits"
  shows "int_of_text (show_int i) = Some i" "plain (show_int i)"
proof -
  let ?s = "show_nat (nat i)"
  have eq: "show_int i = ?s" using assms(1) by (simp add: show_int_def)
  have dig: "is_digit c \<and> \<not> py_space c \<and> c \<noteq> CHR ''_'' \<and> c \<noteq> CHR ''-'' \<and> c \<noteq> CHR ''+''" if "c \<in> set ?s" for c
    using show_nat_is_digit [OF that] digit_char by blast
  note ne = show_nat_nonempty [of "nat i"]
  have "strip ?s = ?s" using dig ne by (intro strip_solid) simp_all
  moreover have "digit_groups ?s = Some ?s"
  proof -
    have "CHR ''_'' \<notin> set ?s" using dig by blast
    then show ?thesis using dig ne by (simp add: digit_groups_def split_on_word list_all_iff)
  qed
  moreover have "sign_part ?s = (False, ?s)" using dig ne by (cases ?s) (auto simp: sign_part_def)
  ultimately show "int_of_text (show_int i) = Some i" using assms by (simp add: int_of_text_def eq read_show_nat)
  show "plain (show_int i)" using dig ne by (simp add: plain_def eq)
qed

lemma show_int_length: "0 \<le> i \<Longrightarrow> i \<le> 65535 \<Longrightarrow> length (show_int i) \<le> 5"
  using show_nat_length [of "nat i" 5] by (simp add: show_int_def)

end
