(* ===== verification/Runtime_Main.thy ===== *)
theory Runtime_Main
  imports Argparse Runtime
begin

text \<open>
  \<open>runtime.py\<close> from end to end: the command line, and how \<open>run_server\<close> and \<open>main\<close> end.  Serving ends
  by itself, with an exception, or with an interrupt from the keyboard, which reaches \<open>run_server\<close>
  as the cancellation of its task.
\<close>

section \<open>The command line\<close>

definition LOG_LEVELS :: "string list" where
  "LOG_LEVELS = [''DEBUG'', ''INFO'', ''WARNING'']"

definition default_namespace :: Namespace where
  "default_namespace = \<lparr>host = DEFAULT_HOST, port = DEFAULT_PORT, allow_non_loopback = False, log_level = ''INFO''\<rparr>"

definition runtime_parser :: "Namespace parser" where
  "runtime_parser = ArgumentParser
     [(''--host'', Store (\<lambda>s ns. Some (ns\<lparr>host := s\<rparr>))),
      (''--port'', Store (\<lambda>s ns. map_option (\<lambda>i. ns\<lparr>port := i\<rparr>) (int_of_text s))),
      (''--allow-non-loopback'', Flag (\<lambda>ns. ns\<lparr>allow_non_loopback := True\<rparr>)),
      (''--log-level'', Store (\<lambda>s ns. if s \<in> set LOG_LEVELS then Some (ns\<lparr>log_level := s\<rparr>) else None))]"

text \<open>\<open>parser.error\<close> exits with status 2.\<close>

definition runtime_args :: "(string \<Rightarrow> bool option) \<Rightarrow> string list \<Rightarrow> int + Namespace" where
  "runtime_args loopback_address argv =
     (case parse_args runtime_parser default_namespace argv of
        Inl status \<Rightarrow> Inl status
      | Inr ns \<Rightarrow> (case check_args loopback_address ns of Inl _ \<Rightarrow> Inl 2 | Inr ns' \<Rightarrow> Inr ns'))"

section \<open>The end of a run\<close>

datatype ending = Returned | Interrupted | Raised exn

text \<open>\<open>process_task.cancel()\<close> and awaiting it: a sleeping task is cancelled and the cancellation
  suppressed, a failed one raises what it failed with.\<close>

definition stop_process :: "process_task \<Rightarrow> exn option" where
  "stop_process task = (case task of Sleeping _ _ \<Rightarrow> None | Failed e \<Rightarrow> Some e)"

text \<open>The \<open>finally\<close> block; \<open>shutdown\<close> is PyModbus's.\<close>

definition finish_server ::
  "(('p, 'd, 'w ProcessProtocolAdapter \<times> 'm) system \<Rightarrow> ('p, 'd, 'w ProcessProtocolAdapter \<times> 'm) system \<times> exn option) \<Rightarrow>
     ending \<Rightarrow> ('p, 'd, 'w, 'm) runtime \<Rightarrow> ('p, 'd, 'w, 'm) runtime \<times> ending" where
  "finish_server shutdown outcome s =
     (case stop_process (model_task s) of
        Some e \<Rightarrow> (s, Raised e)
      | None \<Rightarrow>
          (case shutdown (event_loop s) of
             (y, None) \<Rightarrow> (s\<lparr>event_loop := y\<rparr>, outcome)
           | (y, Some e) \<Rightarrow> (s\<lparr>event_loop := y\<rparr>, Raised e)))"

text \<open>\<open>main\<close> after \<open>parse_args\<close>: the exit status, or the exception of a traceback.\<close>

definition exit_status :: "ending \<Rightarrow> int result" where
  "exit_status e = (case e of Returned \<Rightarrow> Inr 0 | Interrupted \<Rightarrow> Inr 0 | Raised x \<Rightarrow> Inl x)"

text \<open>\<open>main\<close>: a program whose start fails ends with that exception; otherwise it serves, which takes it
  to some reachable state and an ending, given as a function of the arguments and the first state.\<close>

definition runtime_main ::
  "(string \<Rightarrow> bool option) \<Rightarrow> ('p, 'd, 'w, 'm) runtime result \<Rightarrow>
     (string \<Rightarrow> int \<Rightarrow> ('p, 'd, 'w, 'm) runtime \<Rightarrow> ('p, 'd, 'w, 'm) runtime \<times> ending) \<Rightarrow>
     (('p, 'd, 'w ProcessProtocolAdapter \<times> 'm) system \<Rightarrow> ('p, 'd, 'w ProcessProtocolAdapter \<times> 'm) system \<times> exn option) \<Rightarrow>
     string list \<Rightarrow> int result" where
  "runtime_main loopback_address start serve_forever shutdown argv =
     (case runtime_args loopback_address argv of
        Inl status \<Rightarrow> Inr status
      | Inr ns \<Rightarrow>
          bindE start (\<lambda>s0.
          case serve_forever (host ns) (port ns) s0 of (s, outcome) \<Rightarrow>
          exit_status (snd (finish_server shutdown outcome s))))"

end
