(* ===== verification/Runtime_Logging.thy ===== *)
theory Runtime_Logging
  imports Runtime_Log
begin

text \<open>
  \<open>configure_logging\<close> of \<open>runtime.py\<close> and what it relies on of the standard library: the root logger
  with its handlers, \<open>basicConfig\<close>, and how a record goes through the filters of each handler.
\<close>

section \<open>Handlers\<close>

text \<open>What a handler writes: time, level, logger and message of a record, set out by its format.\<close>

record emission =
  em_asctime :: string
  em_level :: string
  em_name :: string
  em_message :: string

type_synonym record_filter = "LogRecord \<Rightarrow> (LogRecord \<times> bool) result"

record handler_state =
  handler_level :: nat
  filters :: "record_filter list"
  handler_format :: "emission \<Rightarrow> string"
  written :: "emission list"

record root_logger =
  root_level :: nat
  handlers :: "handler_state list"

definition level_number :: "string \<Rightarrow> nat option" where
  "level_number name = map_of [(''DEBUG'', 10), (''INFO'', 20), (''WARNING'', 30), (''ERROR'', 40), (''CRITICAL'', 50)] name"

definition FORMAT :: "emission \<Rightarrow> string" where
  "FORMAT e = log_line (em_asctime e) (em_level e) (em_name e) (em_message e)"

section \<open>Configuration\<close>

text \<open>\<open>basicConfig\<close> does nothing to a root logger that has handlers, not even set its level.\<close>

definition basicConfig :: "nat \<Rightarrow> root_logger \<Rightarrow> root_logger" where
  "basicConfig level rl =
     (if handlers rl = []
      then \<lparr>root_level = level, handlers = [\<lparr>handler_level = 0, filters = [], handler_format = FORMAT, written = []\<rparr>]\<rparr>
      else rl)"

definition addFilter :: "record_filter \<Rightarrow> handler_state \<Rightarrow> handler_state" where
  "addFilter f h = h\<lparr>filters := filters h @ [f]\<rparr>"

text \<open>\<open>getattr(logging, level)\<close> is modelled for the names of levels.\<close>

definition configure_logging ::
  "(string \<Rightarrow> pyval list \<Rightarrow> string result) \<Rightarrow> string \<Rightarrow> root_logger \<Rightarrow> root_logger result" where
  "configure_logging merge level rl =
     (case level_number level of
        None \<Rightarrow> Inl NotModelled
      | Some n \<Rightarrow>
          let rl' = basicConfig n rl in
          Inr (rl'\<lparr>handlers := map (addFilter (log_filter merge)) (handlers rl')\<rparr>))"

section \<open>Records\<close>

text \<open>\<open>Handler.handle\<close>: the filters in turn on the one record, which they may change, until one drops it.\<close>

fun run_filters :: "record_filter list \<Rightarrow> LogRecord \<Rightarrow> (LogRecord \<times> bool) result" where
  "run_filters [] r = Inr (r, True)"
| "run_filters (f # fs) r = bindE (f r) (\<lambda>(r', keep). if keep then run_filters fs r' else Inr (r', False))"

text \<open>A message that cannot be merged is reported by the handler and not written.\<close>

definition emit ::
  "(string \<Rightarrow> pyval list \<Rightarrow> string result) \<Rightarrow> string \<Rightarrow> string \<Rightarrow> LogRecord \<Rightarrow> handler_state \<Rightarrow> handler_state" where
  "emit merge asctime levelname r h =
     (case getMessage merge r of
        Inl _ \<Rightarrow> h
      | Inr m \<Rightarrow>
          h\<lparr>written := written h @
             [\<lparr>em_asctime = asctime, em_level = levelname, em_name = log_name r, em_message = m\<rparr>]\<rparr>)"

fun callHandlers ::
  "(string \<Rightarrow> pyval list \<Rightarrow> string result) \<Rightarrow> string \<Rightarrow> string \<Rightarrow> nat \<Rightarrow> LogRecord \<Rightarrow> handler_state list \<Rightarrow>
     exn option \<times> handler_state list" where
  "callHandlers merge asctime levelname levelno r [] = (None, [])"
| "callHandlers merge asctime levelname levelno r (h # hs) =
     (if levelno < handler_level h
      then (case callHandlers merge asctime levelname levelno r hs of (x, hs') \<Rightarrow> (x, h # hs'))
      else (case run_filters (filters h) r of
          Inl e \<Rightarrow> (Some e, h # hs)
        | Inr (r', keep) \<Rightarrow>
            (case callHandlers merge asctime levelname levelno r' hs of
               (x, hs') \<Rightarrow> (x, (if keep then emit merge asctime levelname r' h else h) # hs'))))"

text \<open>A call on a logger without a level of its own.\<close>

record log_call =
  call_time :: string
  call_level :: string
  call_number :: nat
  call_record :: LogRecord

definition log_record ::
  "(string \<Rightarrow> pyval list \<Rightarrow> string result) \<Rightarrow> log_call \<Rightarrow> root_logger \<Rightarrow> root_logger" where
  "log_record merge c rl =
     (if call_number c < root_level rl then rl
      else rl\<lparr>handlers := snd (callHandlers merge (call_time c) (call_level c) (call_number c) (call_record c) (handlers rl))\<rparr>)"

definition log_records ::
  "(string \<Rightarrow> pyval list \<Rightarrow> string result) \<Rightarrow> log_call list \<Rightarrow> root_logger \<Rightarrow> root_logger" where
  "log_records merge calls rl = fold (log_record merge) calls rl"

section \<open>Every handler bounds what it writes\<close>

definition bounded_emission :: "emission \<Rightarrow> bool" where
  "bounded_emission e \<longleftrightarrow> starts ''pymodbus'' (em_name e) \<longrightarrow> length (em_message e) \<le> 1038"

text \<open>The lines a handler has written are those it started with and bounded ones.\<close>

definition extends :: "handler_state \<Rightarrow> handler_state \<Rightarrow> bool" where
  "extends h h' \<longleftrightarrow> handler_level h' = handler_level h \<and> filters h' = filters h \<and> handler_format h' = handler_format h \<and>
     (\<exists>new. written h' = written h @ new \<and> list_all bounded_emission new)"

lemma extends_refl [simp]: "extends h h"
  by (simp add: extends_def)

lemma extends_trans: "extends h g \<Longrightarrow> extends g k \<Longrightarrow> extends h k"
  by (force simp: extends_def)

lemma filtered_message:
  assumes "run_filters (fs @ [log_filter merge]) r = Inr (r', True)" "getMessage merge r' = Inr m"
  shows "starts ''pymodbus'' (log_name r') \<longrightarrow> length m \<le> 1038"
  using assms
proof (induction fs arbitrary: r)
  case Nil
  then show ?case
    by (auto simp: log_filter_def getMessage_def MAX_PYMODBUS_LOG_CHARS_def bindE_eq_Inr split: if_splits)
next
  case (Cons f fs)
  then show ?case by (auto simp: bindE_eq_Inr split: if_splits)
qed

lemma emit_extends:
  assumes "filters h = fs @ [log_filter merge]" "run_filters (filters h) r = Inr (r', True)"
  shows "extends h (emit merge t l r' h)"
  using filtered_message [of fs merge r r'] assms
  by (auto simp: emit_def extends_def bounded_emission_def split: sum.split)

definition guarded :: "(string \<Rightarrow> pyval list \<Rightarrow> string result) \<Rightarrow> handler_state \<Rightarrow> bool" where
  "guarded merge h \<longleftrightarrow> (\<exists>fs. filters h = fs @ [log_filter merge])"

lemma extends_guarded: "extends h h' \<Longrightarrow> guarded merge h \<Longrightarrow> guarded merge h'"
  by (simp add: extends_def guarded_def)

lemma callHandlers_extends:
  "list_all (guarded merge) hs \<Longrightarrow> list_all2 extends hs (snd (callHandlers merge t l n r hs))"
proof (induction hs arbitrary: r)
  case (Cons h hs)
  then obtain fs where fs: "filters h = fs @ [log_filter merge]" by (auto simp: guarded_def)
  have refl: "list_all2 extends hs hs" by (simp add: list.rel_refl)
  show ?case
    using Cons emit_extends [OF fs] refl by (auto simp: case_prod_unfold split: sum.split)
qed simp

lemma configure_logging_guards:
  "configure_logging merge level rl = Inr rl' \<Longrightarrow> handlers rl' \<noteq> [] \<and> list_all (guarded merge) (handlers rl')"
  by (auto simp: configure_logging_def basicConfig_def Let_def list.pred_map guarded_def addFilter_def list_all_iff
      split: option.splits if_splits)

lemma log_records_extends:
  "list_all (guarded merge) (handlers rl) \<Longrightarrow> list_all2 extends (handlers rl) (handlers (log_records merge calls rl))"
proof (induction calls arbitrary: rl)
  case Nil
  then show ?case by (simp add: log_records_def list.rel_refl)
next
  case (Cons c calls)
  let ?rl = "log_record merge c rl"
  have step: "list_all2 extends (handlers rl) (handlers ?rl)"
    using Cons.prems callHandlers_extends by (auto simp: log_record_def list.rel_refl)
  then have "list_all (guarded merge) (handlers ?rl)"
    using Cons.prems by (metis (no_types, lifting) extends_guarded list_all2_conv_all_nth list_all_length)
  from list_all2_trans [OF extends_trans step Cons.IH [OF this]]
  show ?case by (simp add: log_records_def)
qed

end
