(* ===== verification/Main_Claims.thy ===== *)
theory Main_Claims
  imports Runtime_Main Runtime_Logging Runtime_Claims
begin

text \<open>
  The programs from their command lines: what can be bound or addressed whatever the arguments, what
  the command line can express, and how a run of the sensor ends.
\<close>

section \<open>Binding beyond loopback\<close>

lemma runtime_flag:
  assumes "classify runtime_parser s = Optn opt (Flag f) None" "(opt, Flag f) \<in> set runtime_parser"
  shows "starts ''--a'' s \<and> starts s ''--allow-non-loopback''"
proof -
  have "opt = ''--'' @ CHR ''a'' # ''llow-non-loopback''"
    using assms(2) by (auto simp: runtime_parser_def ArgumentParser_def)
  moreover have "is_Ambiguous (classify runtime_parser ''--'')" by code_simp
  ultimately show ?thesis using given_option [of runtime_parser s] assms(1) by simp
qed

lemma runtime_level:
  assumes "runtime_args loopback_address argv = Inr ns"
  shows "log_level ns \<in> set LOG_LEVELS"
proof -
  have "parse_args runtime_parser default_namespace argv = Inr ns"
    using assms by (auto simp: runtime_args_def check_args_def split: sum.splits if_splits)
  then show ?thesis
    by (rule parse_args_invariant [where I = "\<lambda>ns. log_level ns \<in> set LOG_LEVELS"])
      (auto simp: runtime_parser_def ArgumentParser_def default_namespace_def LOG_LEVELS_def split: if_splits)
qed

text \<open>C16: Whatever the command line, the program only ever binds a TCP port between 1 and 65535, at one of
  the three log levels, and a host beyond loopback only when some argument spells out or
  abbreviates \<open>--allow-non-loopback\<close>.\<close>

theorem bind_needs_acknowledgement:
  assumes "runtime_args loopback_address argv = Inr ns"
  shows "1 \<le> port ns \<and> port ns \<le> 65535 \<and> log_level ns \<in> set LOG_LEVELS \<and>
    (is_loopback loopback_address (host ns) \<or>
     (\<exists>s \<in> set argv. starts ''--a'' s \<and> starts s ''--allow-non-loopback''))"
proof -
  have parsed: "parse_args runtime_parser default_namespace argv = Inr ns"
    and checked: "check_args loopback_address ns = Inr ns"
    using assms by (auto simp: runtime_args_def check_args_def split: sum.splits if_splits)
  have "log_level ns \<in> set LOG_LEVELS" by (rule runtime_level [OF assms])
  moreover have "allow_non_loopback ns \<longrightarrow> (\<exists>s \<in> set argv. starts ''--a'' s \<and> starts s ''--allow-non-loopback'')"
    (is "?I ns")
  proof (rule parse_args_invariant [OF parsed, where I = ?I])
    fix opt f ns s
    assume o: "(opt, Flag f) \<in> set runtime_parser" "s \<in> set argv" "classify runtime_parser s = Optn opt (Flag f) None"
    from runtime_flag [OF o(3,1)] o(2) show "?I (f ns)" by blast
  qed (auto simp: runtime_parser_def ArgumentParser_def default_namespace_def split: if_splits)
  ultimately show ?thesis using checked by (auto simp: check_args_def split: if_splits)
qed

theorem bind_needs_acknowledgement_witness:
  "is_loopback (\<lambda>_. Some False) ''10.0.0.1'' \<or>
     (\<exists>s \<in> set [''--allow'', ''--host=10.0.0.1'']. starts ''--a'' s \<and> starts s ''--allow-non-loopback'')"
proof -
  have "runtime_args (\<lambda>_. Some False) [''--allow'', ''--host=10.0.0.1''] =
      Inr \<lparr>host = ''10.0.0.1'', port = 1502, allow_non_loopback = True, log_level = ''INFO''\<rparr>"
    by code_simp
  from bind_needs_acknowledgement [OF this] show ?thesis by simp
qed

text \<open>C35: Every configuration the checks accept can be written on the command line, and is read back from
  it unchanged, as long as the host does not look like an option.\<close>

theorem command_line_roundtrip:
  assumes "check_args loopback_address ns = Inr ns" "plain (host ns)" "log_level ns \<in> set LOG_LEVELS"
  shows "runtime_args loopback_address
      ([''--host'', host ns, ''--port'', show_int (port ns), ''--log-level'', log_level ns] @
       (if allow_non_loopback ns then [''--allow-non-loopback''] else [])) = Inr ns"
proof -
  have port: "0 \<le> port ns" "port ns \<le> 65535" using assms(1) by (auto simp: check_args_def split: if_splits)
  have level: "plain (log_level ns)" using assms(3) by (auto simp: LOG_LEVELS_def plain_def)
  have printed: "int_of_text (show_int (port ns)) = Some (port ns)" "plain (show_int (port ns))"
    using port show_int_length [of "port ns"] by (auto intro!: int_of_text_show simp: max_str_digits_def)
  have spelled: "classify runtime_parser ''--host'' = Optn ''--host'' (Store (\<lambda>s ns. Some (ns\<lparr>host := s\<rparr>))) None"
    "classify runtime_parser ''--port'' = Optn ''--port'' (Store (\<lambda>s ns. map_option (\<lambda>i. ns\<lparr>port := i\<rparr>) (int_of_text s))) None"
    "classify runtime_parser ''--allow-non-loopback'' = Optn ''--allow-non-loopback'' (Flag (\<lambda>ns. ns\<lparr>allow_non_loopback := True\<rparr>)) None"
    "classify runtime_parser ''--log-level'' =
       Optn ''--log-level'' (Store (\<lambda>s ns. if s \<in> set LOG_LEVELS then Some (ns\<lparr>log_level := s\<rparr>) else None)) None"
    by (simp_all add: classify_def spelled_def runtime_parser_def ArgumentParser_def)
  show ?thesis
    using assms printed level
    by (cases "allow_non_loopback ns"; cases ns)
      (simp_all add: runtime_args_def parse_args_def plain_no_dashes classify_plain spelled default_namespace_def)
qed

theorem command_line_roundtrip_witness:
  "runtime_args (\<lambda>_. None) [''--host'', ''LocalHost'', ''--port'', ''502'', ''--log-level'', ''DEBUG''] =
     Inr \<lparr>host = ''LocalHost'', port = 502, allow_non_loopback = False, log_level = ''DEBUG''\<rparr>"
proof -
  let ?ns = "\<lparr>host = ''LocalHost'', port = 502, allow_non_loopback = False, log_level = ''DEBUG''\<rparr> :: Namespace"
  have "check_args (\<lambda>_. None) ?ns = Inr ?ns" by code_simp
  moreover have "show_int (port ?ns) = ''502''" by code_simp
  ultimately show ?thesis
    using command_line_roundtrip [where ns = ?ns and loopback_address = "\<lambda>_. None"]
    by (simp add: plain_def LOG_LEVELS_def)
qed

section \<open>Bounded log lines\<close>

text \<open>C36: With any accepted command line and whatever handlers the root logger already has, logging is set
  up with at least one handler, and whatever is logged afterwards, with whatever filters the
  handlers had before, no handler ever writes a message of PyModbus of more than 1038 characters.\<close>

theorem log_lines_bounded:
  assumes "runtime_args loopback_address argv = Inr ns"
  shows "\<exists>rl'. configure_logging merge (log_level ns) rl = Inr rl' \<and> handlers rl' \<noteq> [] \<and>
    (\<forall>calls. list_all2 (\<lambda>h h'. \<exists>new. written h' = written h @ new \<and>
        (\<forall>e \<in> set new. starts ''pymodbus'' (em_name e) \<longrightarrow> length (em_message e) \<le> 1038))
      (handlers rl') (handlers (log_records merge calls rl')))"
proof -
  have "level_number (log_level ns) \<noteq> None"
    using runtime_level [OF assms] by (auto simp: LOG_LEVELS_def level_number_def)
  then obtain rl' where c: "configure_logging merge (log_level ns) rl = Inr rl'"
    by (auto simp: configure_logging_def Let_def)
  note g = configure_logging_guards [OF c]
  have bound: "list_all2 (\<lambda>h h'. \<exists>new. written h' = written h @ new \<and>
        (\<forall>e \<in> set new. starts ''pymodbus'' (em_name e) \<longrightarrow> length (em_message e) \<le> 1038))
      (handlers rl') (handlers (log_records merge calls rl'))" for calls
    by (rule list_all2_mono [OF log_records_extends])
      (use g in \<open>auto simp: extends_def bounded_emission_def list_all_iff\<close>)
  from c g bound show ?thesis by blast
qed

definition no_handlers :: root_logger where
  "no_handlers = \<lparr>root_level = 30, handlers = []\<rparr>"

definition noisy_call :: log_call where
  "noisy_call = \<lparr>call_time = ''t'', call_level = ''INFO'', call_number = 20, call_record = long_record\<rparr>"

theorem log_lines_bounded_witness:
  "\<exists>rl' h. configure_logging (\<lambda>_ _. Inl TypeError) ''INFO'' no_handlers = Inr rl' \<and>
     handlers (log_records (\<lambda>_ _. Inl TypeError) [noisy_call] rl') = [h] \<and>
     (\<forall>e \<in> set (written h). starts ''pymodbus'' (em_name e) \<longrightarrow> length (em_message e) \<le> 1038)"
proof -
  have "runtime_args (\<lambda>_. Some True) [] = Inr default_namespace" by code_simp
  from log_lines_bounded [OF this, of "\<lambda>_ _. Inl TypeError" no_handlers]
  obtain rl' where c: "configure_logging (\<lambda>_ _. Inl TypeError) (log_level default_namespace) no_handlers = Inr rl'"
    and ext: "list_all2 (\<lambda>h h'. \<exists>new. written h' = written h @ new \<and>
        (\<forall>e \<in> set new. starts ''pymodbus'' (em_name e) \<longrightarrow> length (em_message e) \<le> 1038))
      (handlers rl') (handlers (log_records (\<lambda>_ _. Inl TypeError) [noisy_call] rl'))"
    by (elim exE conjE allE)
  from c have rl': "configure_logging (\<lambda>_ _. Inl TypeError) ''INFO'' no_handlers = Inr rl'"
    by (simp add: default_namespace_def)
  let ?h = "\<lparr>handler_level = 0, filters = [log_filter (\<lambda>_ _. Inl TypeError)], handler_format = FORMAT, written = []\<rparr>"
  from rl' have "handlers rl' = [?h]"
    by (auto simp: configure_logging_def basicConfig_def no_handlers_def level_number_def addFilter_def Let_def)
  with ext rl' show ?thesis by (auto simp: list_all2_Cons1)
qed

section \<open>The end of a run\<close>

text \<open>C18: In every state the running program can reach, its end is orderly: whatever ends the serving, the
  process task is stopped without an exception and the server is shut down, and unless the
  shutdown itself raises, the way the serving ended is the way the program ends: normally and on
  an interrupt with status 0, on an exception with that exception.\<close>

theorem shutdown_always_runs:
  assumes "start_runtime default_document sink w memory = Inr s0"
    "base_contract env" "drives_device py ds" "(runtime_step env ds)\<^sup>*\<^sup>* s0 s"
  shows "finish_server shutdown outcome s =
    (case shutdown (event_loop s) of (y, raised) \<Rightarrow>
      (s\<lparr>event_loop := y\<rparr>, case raised of None \<Rightarrow> outcome | Some e \<Rightarrow> Raised e))"
proof -
  have "runtime_ok default_map 128 s"
    by (rule runtime_reachable_ok [OF assms(4,2) drives_device_keeps [OF assms(3)] start_runtime_ok [OF assms(1)]])
  then have "stop_process (model_task s) = None" by (auto simp: runtime_ok_def stop_process_def)
  then show ?thesis by (simp add: finish_server_def split: prod.split option.split)
qed

theorem shutdown_always_runs_witness:
  "snd (finish_server (\<lambda>y. (y, None)) Interrupted late) = Interrupted"
  using shutdown_always_runs [OF started_eq(1) sample_contract reading_drives late_reachable,
      of "\<lambda>y. (y, None)" Interrupted] by simp

end
