(* ===== verification/Forward_Main.thy ===== *)
theory Forward_Main
  imports Argparse Forward_Events
begin

text \<open>
  \<open>build_parser\<close> and \<open>main\<close> of \<open>tools/forward_events.py\<close>.  The host name of the machine, the clock, the
  network and what \<open>ipaddress\<close> says of a text are parameters.  Signal handling is left out, and so
  are infinite and undefined rates and intervals, which are \<open>NotModelled\<close>.
\<close>

record forward_namespace =
  fn_host :: "string option"
  fn_port :: int
  fn_protocol :: string
  fn_hostname :: string
  fn_app_name :: string
  fn_facility :: int
  fn_max_events_per_second :: pyfloat
  fn_dry_run :: bool
  fn_summary_seconds :: pyfloat

definition forward_defaults :: "string \<Rightarrow> forward_namespace" where
  "forward_defaults gethostname =
     \<lparr>fn_host = None, fn_port = 514, fn_protocol = ''udp'', fn_hostname = gethostname, fn_app_name = ''simpleics-pot'',
      fn_facility = 16, fn_max_events_per_second = Fin 200, fn_dry_run = False, fn_summary_seconds = Fin 60\<rparr>"

definition forward_parser :: "(string \<Rightarrow> ip_info option) \<Rightarrow> forward_namespace parser" where
  "forward_parser ip_address = ArgumentParser
     [(''--host'', Store (\<lambda>s ns. case destination ip_address s of Inl _ \<Rightarrow> None | Inr h \<Rightarrow> Some (ns\<lparr>fn_host := Some h\<rparr>))),
      (''--port'', Store (\<lambda>s ns. map_option (\<lambda>i. ns\<lparr>fn_port := i\<rparr>) (int_of_text s))),
      (''--protocol'', Store (\<lambda>s ns. if s \<in> {''udp'', ''tcp''} then Some (ns\<lparr>fn_protocol := s\<rparr>) else None)),
      (''--hostname'', Store (\<lambda>s ns. Some (ns\<lparr>fn_hostname := s\<rparr>))),
      (''--app-name'', Store (\<lambda>s ns. Some (ns\<lparr>fn_app_name := s\<rparr>))),
      (''--facility'', Store (\<lambda>s ns. map_option (\<lambda>i. ns\<lparr>fn_facility := i\<rparr>) (int_of_text s))),
      (''--max-events-per-second'',
         Store (\<lambda>s ns. map_option (\<lambda>x. ns\<lparr>fn_max_events_per_second := x\<rparr>) (float_of_text s))),
      (''--dry-run'', Flag (\<lambda>ns. ns\<lparr>fn_dry_run := True\<rparr>)),
      (''--summary-seconds'', Store (\<lambda>s ns. map_option (\<lambda>x. ns\<lparr>fn_summary_seconds := x\<rparr>) (float_of_text s)))]"

text \<open>The arguments \<open>main\<close> goes on with; without a host only a dry run is possible.\<close>

definition forward_args ::
  "(string \<Rightarrow> ip_info option) \<Rightarrow> string \<Rightarrow> string list \<Rightarrow> int + forward_namespace" where
  "forward_args ip_address gethostname argv =
     (case parse_args (forward_parser ip_address) (forward_defaults gethostname) argv of
        Inl status \<Rightarrow> Inl status
      | Inr ns \<Rightarrow>
          if \<not> fn_dry_run ns \<and> (fn_host ns = None \<or> fn_host ns = Some []) then Inl 2 else Inr ns)"

definition run_arguments :: "forward_namespace \<Rightarrow> arguments result" where
  "run_arguments ns =
     (case (fn_max_events_per_second ns, fn_summary_seconds ns) of
        (Fin r, Fin t) \<Rightarrow>
          Inr \<lparr>arg_host = fn_host ns, arg_port = fn_port ns, arg_protocol = fn_protocol ns,
               arg_hostname = fn_hostname ns, arg_app_name = fn_app_name ns, arg_facility = fn_facility ns,
               arg_max_events_per_second = r, arg_dry_run = fn_dry_run ns, arg_summary_seconds = t\<rparr>
      | _ \<Rightarrow> Inl NotModelled)"

text \<open>The exit status or the exception, and the forwarder when one was made.\<close>

definition forward_main ::
  "(string \<Rightarrow> ip_info option) \<Rightarrow> string \<Rightarrow> ('h, 'n) network \<Rightarrow> recursion_limits \<Rightarrow> rat \<times> rat \<times> rat \<Rightarrow> timed_line list \<Rightarrow> 'n \<Rightarrow>
     string list \<Rightarrow> int result \<times> ('h, 'n) Forwarder option" where
  "forward_main ip_address gethostname nw depths readings stdin n argv =
     (case forward_args ip_address gethostname argv of
        Inl status \<Rightarrow> (Inr status, None)
      | Inr ns \<Rightarrow>
          (case run_arguments ns of
             Inl e \<Rightarrow> (Inl e, None)
           | Inr args \<Rightarrow> (case run nw depths args readings stdin n of (r, s) \<Rightarrow> (r, Some s))))"

end
