(* ===== verification/Forward_Main_Claims.thy ===== *)
theory Forward_Main_Claims
  imports Forward_Main Forward_Runs
begin

text \<open>
  Whatever its command line, the forwarder talks only to the one collector it was given.
\<close>

section \<open>One collector\<close>

text \<open>Two networks that behave alike towards one address.\<close>

definition agree_on :: "string \<times> int \<Rightarrow> ('h, 'n) network \<Rightarrow> ('h, 'n) network \<Rightarrow> bool" where
  "agree_on d nw nw' \<longleftrightarrow>
     new_socket nw = new_socket nw' \<and> set_timeout nw = set_timeout nw' \<and> send_all nw = send_all nw' \<and>
     close_socket nw = close_socket nw' \<and> (\<forall>h. connect_socket nw h d = connect_socket nw' h d) \<and>
     (\<forall>h m. send_to nw h m d = send_to nw' h m d)"

lemma connect_agree:
  assumes "agree_on (dest_address s) nw nw'"
  shows "connect nw s = connect nw' s"
proof -
  have "new_socket nw = new_socket nw'" "set_timeout nw = set_timeout nw'"
    "\<And>h. connect_socket nw h (dest_address s) = connect_socket nw' h (dest_address s)"
    using assms by (simp_all add: agree_on_def)
  note same = this
  show ?thesis unfolding connect_def same by (rule refl)
qed

lemma transmit_agree:
  assumes "agree_on (dest_address s) nw nw'"
  shows "transmit nw d s = transmit nw' d s"
proof -
  have same: "connect nw s = connect nw' s" "send_all nw = send_all nw'"
    using assms connect_agree [OF assms] by (simp_all add: agree_on_def)
  obtain r s1 where c: "connect nw' s = (r, s1)" by (cases "connect nw' s")
  with connect_frame [of s nw'] have "dest_address s1 = dest_address s" by (simp add: only_network_def)
  then have to: "send_to nw h m (dest_address s1) = send_to nw' h m (dest_address s1)" for h m
    using assms by (simp add: agree_on_def)
  show ?thesis unfolding transmit_def same c prod.case to by (rule refl)
qed

lemma reset_agree: "agree_on a nw nw' \<Longrightarrow> reset_socket nw s = reset_socket nw' s"
  by (simp add: reset_socket_def agree_on_def split: option.split)

lemma send_agree:
  assumes "agree_on (dest_address s) nw nw'"
  shows "send nw limit now event s = send nw' limit now event s"
proof -
  obtain b s1 where t: "take_token now s = (b, s1)" by (cases "take_token now s")
  with take_token_dest [of now s] have d: "dest_address s1 = dest_address s" by simp
  have tr: "transmit nw m s1 = transmit nw' m s1" for m using transmit_agree [of s1 nw nw'] assms by (simp add: d)
  have rs: "reset_socket nw r = reset_socket nw' r" for r by (rule reset_agree [OF assms])
  show ?thesis unfolding send_def t prod.case tr rs by (rule refl)
qed

lemma run_lines_agree:
  "agree_on (dest_address (snd st)) nw nw' \<Longrightarrow>
     run_lines nw depths secs lines st = run_lines nw' depths secs lines st"
proof (induction lines arbitrary: st)
  case (Cons line lines)
  obtain raw now now' l s where line: "line = (raw, now, now')" "st = (l, s)" by (cases line; cases st) auto
  have go: "run_lines nw depths secs lines t = run_lines nw' depths secs lines t"
    if "dest_address (snd t) = dest_address s" for t
    using Cons that line by simp
  have skip: "dest_address (count u s) = dest_address s" for u by (simp add: count_def)
  show ?case
  proof (cases "\<exists>event. parse_event (fst depths) raw = Inr (Some event)")
    case True
    then obtain event where e: "parse_event (fst depths) raw = Inr (Some event)" ..
    obtain r t where t: "send nw' (snd depths) now event s = (r, t)" by (cases "send nw' (snd depths) now event s")
    with send_dest [of nw' "snd depths" now event s] have "dest_address t = dest_address s" by simp
    then have "run_lines nw depths secs lines (summarise secs now' (l, t)) =
        run_lines nw' depths secs lines (summarise secs now' (l, t))"
      by (simp add: go summarise_dest)
    moreover have "send nw (snd depths) now event s = (r, t)" using send_agree [of s nw nw' "snd depths" now event] Cons.prems t line by simp
    ultimately show ?thesis using e t go [of "(l, count ignored_non_event_update s)"] skip by (simp add: line split: sum.split)
  next
    case False
    then show ?thesis using skip by (auto simp: line go summarise_dest split: sum.split option.split)
  qed
qed (metis run_lines.simps(1) surj_pair)

lemma run_agree:
  assumes "agree_on (case arg_host args of None \<Rightarrow> [] | Some h \<Rightarrow> h, arg_port args) nw nw'"
  shows "run nw depths args readings stdin n = run nw' depths args readings stdin n"
  using run_lines_agree [of _ nw nw'] assms
  by (auto simp: run_def Forwarder_init_def Let_def split: prod.split)

lemma destination_again: "destination ip_address v = Inr h \<Longrightarrow> destination ip_address h = Inr h"
  by (auto simp: destination_def split: option.splits if_splits)

text \<open>C17: Whatever the command line, when the forwarder runs without \<open>--dry-run\<close> it has a destination
  that is no multicast and no unspecified address, and it talks to that destination only: its run
  is the same on every network that behaves alike towards it.\<close>

theorem forwards_to_one_collector:
  assumes "forward_args ip_address gethostname argv = Inr ns" "\<not> fn_dry_run ns"
  shows "\<exists>h. fn_host ns = Some h \<and> h \<noteq> [] \<and> destination ip_address h = Inr h \<and>
    fn_protocol ns \<in> {''udp'', ''tcp''} \<and>
    (\<forall>nw nw'. agree_on (h, fn_port ns) nw nw' \<longrightarrow>
       forward_main ip_address gethostname nw depths readings stdin n argv =
       forward_main ip_address gethostname nw' depths readings stdin n argv)"
proof -
  have parsed: "parse_args (forward_parser ip_address) (forward_defaults gethostname) argv = Inr ns"
    and "fn_host ns \<noteq> None" "fn_host ns \<noteq> Some []"
    using assms by (auto simp: forward_args_def split: sum.splits if_splits)
  then obtain h where h: "fn_host ns = Some h" "h \<noteq> []" by auto
  have "(\<forall>h. fn_host ns = Some h \<longrightarrow> destination ip_address h = Inr h) \<and> fn_protocol ns \<in> {''udp'', ''tcp''}"
    (is "?I ns")
    by (rule parse_args_invariant [OF parsed, where I = ?I])
      ((auto simp: forward_parser_def ArgumentParser_def forward_defaults_def split: if_splits sum.splits)[3],
        (erule destination_again)+)
  moreover have "forward_main ip_address gethostname nw depths readings stdin n argv =
      forward_main ip_address gethostname nw' depths readings stdin n argv"
    if "agree_on (h, fn_port ns) nw nw'" for nw nw'
  proof (cases "run_arguments ns")
    case (Inr args)
    then have "arg_host args = Some h" "arg_port args = fn_port ns"
      using h by (auto simp: run_arguments_def split: pyfloat.splits)
    with that Inr run_agree [of args nw nw'] show ?thesis by (simp add: forward_main_def assms(1))
  qed (simp add: forward_main_def assms(1))
  ultimately show ?thesis using h by blast
qed

theorem forwards_to_one_collector_witness:
  "\<exists>h. Some ''collector'' = Some h \<and> destination (\<lambda>_. None) h = Inr h"
proof -
  let ?ns = "(forward_defaults ''pot'')\<lparr>fn_host := Some ''collector'', fn_port := 5514\<rparr>"
  have "forward_args (\<lambda>_. None) ''pot'' [''--host=collector'', ''--port'', ''5514''] = Inr ?ns" by code_simp
  from forwards_to_one_collector [OF this, where depths = "(0, 0)" and readings = "(0, 0, 0)" and stdin = "[]" and n = "()"] show ?thesis
    by (auto simp: forward_defaults_def)
qed

end
