(* ===== verification/Tool_Main.thy ===== *)
theory Tool_Main
  imports Argparse Stix_Write Modbus_Demo
begin

text \<open>
  The command lines of \<open>tools/build_stix_bundle.py\<close> and \<open>examples/modbus_demo.py\<close>.
\<close>

section \<open>Paths\<close>

text \<open>\<open>str(Path(s))\<close> on a POSIX system: two leading slashes stay two, more become one.\<close>

definition path_root :: "string \<Rightarrow> string" where
  "path_root s =
     (if starts ''//'' s \<and> \<not> starts ''///'' s then ''//'' else if starts ''/'' s then ''/'' else [])"

definition path_text :: "string \<Rightarrow> string" where
  "path_text s =
     (let t = path_root s @ join ''/'' [w \<leftarrow> split_on CHR ''/'' s. w \<noteq> [] \<and> w \<noteq> ''.''] in
      if t = [] then ''.'' else t)"

section \<open>The packager\<close>

record packager_namespace = packager_arguments +
  input_path :: "string option"

definition packager_defaults :: packager_namespace where
  "packager_defaults =
     \<lparr>output_dir = None, sensor_name = ''simpleics-pot'', include_non_global = False, input_path = None\<rparr>"

definition packager_parser :: "packager_namespace parser" where
  "packager_parser = ArgumentParser
     [(''--output-dir'', Store (\<lambda>s ns. Some (ns\<lparr>output_dir := Some (path_text s)\<rparr>))),
      (''--sensor-name'', Store (\<lambda>s ns. Some (ns\<lparr>sensor_name := s\<rparr>))),
      (''--include-non-global'', Flag (\<lambda>ns. ns\<lparr>include_non_global := True\<rparr>)),
      (''--input'', Store (\<lambda>s ns. Some (ns\<lparr>input_path := Some (path_text s)\<rparr>)))]"

text \<open>The lines of the input file or of standard input; the file may not open.\<close>

definition packager_input ::
  "(string \<Rightarrow> string list result) \<Rightarrow> string list \<Rightarrow> packager_namespace \<Rightarrow> string list result" where
  "packager_input open_lines stdin ns =
     (case input_path ns of Some p \<Rightarrow> open_lines p | None \<Rightarrow> Inr stdin)"

definition packager_program ::
  "'e packaging_scheme \<Rightarrow> nat \<Rightarrow> (string \<Rightarrow> string list result) \<Rightarrow> string list \<Rightarrow> string \<Rightarrow> string list \<Rightarrow>
     int + (file_step list \<times> string) result" where
  "packager_program env depth open_lines stdin now argv =
     (case parse_args packager_parser packager_defaults argv of
        Inl status \<Rightarrow> Inl status
      | Inr ns \<Rightarrow>
          Inr (bindE (packager_input open_lines stdin ns) (\<lambda>lines.
               packager_main env depth (packager_arguments.truncate ns) now lines)))"

section \<open>The demonstration\<close>

definition demo_defaults :: demo_arguments where
  "demo_defaults = \<lparr>target_host = ''127.0.0.1'', target_port = 1502, acknowledge_authorized_target = False\<rparr>"

definition demo_parser :: "demo_arguments parser" where
  "demo_parser = ArgumentParser
     [(''--host'', Store (\<lambda>s ns. Some (ns\<lparr>target_host := s\<rparr>))),
      (''--port'', Store (\<lambda>s ns. map_option (\<lambda>i. ns\<lparr>target_port := i\<rparr>) (int_of_text s))),
      (''--acknowledge-authorized-target'', Flag (\<lambda>ns. ns\<lparr>acknowledge_authorized_target := True\<rparr>))]"

definition demo_program ::
  "pyval \<Rightarrow> (string \<Rightarrow> bool option) \<Rightarrow> (string \<Rightarrow> int \<Rightarrow> 's modbus_client) \<Rightarrow> string list \<Rightarrow> ('s, int + demo_output) session" where
  "demo_program doc loopback_address ModbusTcpClient argv =
     bindS (pureS (UNIT_ID doc)) (\<lambda>_.
     case parse_args demo_parser demo_defaults argv of
       Inl status \<Rightarrow> pureS (Inr (Inl status))
     | Inr args \<Rightarrow>
         bindS (demo_main doc loopback_address ModbusTcpClient args) (\<lambda>r.
         pureS (Inr (case r of Inl _ \<Rightarrow> Inl 2 | Inr out \<Rightarrow> Inr out))))"

end
