(* ===== verification/Tool_Claims.thy ===== *)
theory Tool_Claims
  imports Tool_Main
begin

text \<open>
  Whatever the command line of the demonstration, it reaches only a target on this machine or one
  that was acknowledged, and it writes only one register there.
\<close>

section \<open>Authorised targets\<close>

lemma demo_flag:
  assumes "classify demo_parser s = Optn opt (Flag f) None" "(opt, Flag f) \<in> set demo_parser"
  shows "starts ''--a'' s \<and> starts s ''--acknowledge-authorized-target''"
proof -
  have "opt = ''--'' @ CHR ''a'' # ''cknowledge-authorized-target''"
    using assms(2) by (auto simp: demo_parser_def ArgumentParser_def)
  moreover have "is_Ambiguous (classify demo_parser ''--'')" by code_simp
  ultimately show ?thesis using given_option [of demo_parser s] assms(1) by simp
qed

text \<open>Whatever the command line, the demonstration touches its client only for a TCP port, and only
  when the target is on this machine or an argument spells out or abbreviates
  \<open>--acknowledge-authorized-target\<close>.\<close>

theorem demo_needs_authorisation:
  assumes "fst (demo_program doc loopback_address client argv s) \<noteq> s"
  shows "\<exists>args. parse_args demo_parser demo_defaults argv = Inr args \<and>
    1 \<le> target_port args \<and> target_port args \<le> 65535 \<and>
    (demo_is_loopback loopback_address (target_host args) \<or>
     (\<exists>a \<in> set argv. starts ''--a'' a \<and> starts a ''--acknowledge-authorized-target''))"
proof -
  obtain args where parsed: "parse_args demo_parser demo_defaults argv = Inr args"
    using assms by (auto simp: demo_program_def bindS_def pureS_def split: sum.splits)
  have "acknowledge_authorized_target args \<longrightarrow>
      (\<exists>a \<in> set argv. starts ''--a'' a \<and> starts a ''--acknowledge-authorized-target'')" (is "?I args")
  proof (rule parse_args_invariant [OF parsed, where I = ?I])
    fix opt f ns a
    assume o: "(opt, Flag f) \<in> set demo_parser" "a \<in> set argv" "classify demo_parser a = Optn opt (Flag f) None"
    from demo_flag [OF o(3,1)] o(2) show "?I (f ns)" by blast
  qed (auto simp: demo_parser_def ArgumentParser_def demo_defaults_def split: if_splits)
  moreover have "\<not> (1 \<le> target_port args \<and> target_port args \<le> 65535 \<and>
      (demo_is_loopback loopback_address (target_host args) \<or> acknowledge_authorized_target args)) \<Longrightarrow>
      fst (demo_program doc loopback_address client argv s) = s"
    by (auto simp: demo_program_def demo_main_def parsed bindS_def pureS_def split: sum.splits)
  ultimately show ?thesis using assms parsed by blast
qed

theorem demo_needs_authorisation_witness:
  "\<exists>args. parse_args demo_parser demo_defaults [''--host'', ''10.0.0.7'', ''--ack''] = Inr args \<and> target_port args \<le> 65535"
proof -
  let ?client = "\<lambda>_ _. \<lparr>client_connect = \<lambda>n. (Suc n, Inr False), read_holding_registers = \<lambda>_ _ _ n. (n, Inr ErrorResponse),
    write_register = \<lambda>_ _ _ n. (n, Inr ErrorResponse), client_close = \<lambda>n. n\<rparr> :: nat modbus_client"
  let ?doc = "PDict [(''device'', PDict [(''unit_id'', PInt 7)])]"
  have "fst (demo_program ?doc (\<lambda>_. Some False) ?client [''--host'', ''10.0.0.7'', ''--ack''] 0) = 1"
    by code_simp
  then show ?thesis
    using demo_needs_authorisation [of ?doc "\<lambda>_. Some False" ?client "[''--host'', ''10.0.0.7'', ''--ack'']" 0] by auto
qed

section \<open>What the demonstration asks of its client\<close>

text \<open>The calls of a client, and a client that records them.\<close>

datatype client_call = Connect | ReadRegisters int int int | WriteRegister int int int | Close

definition recorded :: "'s modbus_client \<Rightarrow> ('s \<times> client_call list) modbus_client" where
  "recorded c =
     \<lparr>client_connect = (\<lambda>(s, calls). case client_connect c s of (s', r) \<Rightarrow> ((s', calls @ [Connect]), r)),
      read_holding_registers = (\<lambda>a n u (s, calls).
        case read_holding_registers c a n u s of (s', r) \<Rightarrow> ((s', calls @ [ReadRegisters a n u]), r)),
      write_register = (\<lambda>a v u (s, calls).
        case write_register c a v u s of (s', r) \<Rightarrow> ((s', calls @ [WriteRegister a v u]), r)),
      client_close = (\<lambda>(s, calls). (client_close c s, calls @ [Close]))\<rparr>"

text \<open>The calls of a session, complete or cut short by the first failure.\<close>

inductive session_calls :: "pyval \<Rightarrow> int \<Rightarrow> client_call list \<Rightarrow> bool \<Rightarrow> bool" for doc unit where
  connected: "session_calls doc unit [Connect] False"
| read: "block doc ''holding_register'' = Inr (base, n) \<Longrightarrow>
    session_calls doc unit [Connect, ReadRegisters base n unit] False"
| wrote: "block doc ''holding_register'' = Inr (base, n) \<Longrightarrow> address_of doc ''pump_speed_setpoint'' = Inr speed \<Longrightarrow>
    session_calls doc unit [Connect, ReadRegisters base n unit, WriteRegister speed 8000 unit] False"
| complete: "block doc ''holding_register'' = Inr (base, n) \<Longrightarrow> address_of doc ''pump_speed_setpoint'' = Inr speed \<Longrightarrow>
    session_calls doc unit [Connect, ReadRegisters base n unit, WriteRegister speed 8000 unit, ReadRegisters speed 1 unit] ok"

lemma recorded_calls:
  "client_connect c s = (s', r) \<Longrightarrow> client_connect (recorded c) (s, calls) = ((s', calls @ [Connect]), r)"
  "read_holding_registers c a n u s = (s', resp) \<Longrightarrow>
     read_holding_registers (recorded c) a n u (s, calls) = ((s', calls @ [ReadRegisters a n u]), resp)"
  "write_register c a v u s = (s', resp) \<Longrightarrow>
     write_register (recorded c) a v u (s, calls) = ((s', calls @ [WriteRegister a v u]), resp)"
  "client_close (recorded c) (s, calls) = (client_close c s, calls @ [Close])"
  by (simp_all add: recorded_def)

lemma bindS_pureS [simp]:
  "bindS (pureS (Inl e)) k s = (s, Inl e)" "bindS (pureS (Inr x)) k s = k x s"
  by (simp_all add: bindS_def pureS_def)

text \<open>The session and the recorded session, from each call on.\<close>

definition read_back_from :: "pyval \<Rightarrow> int \<Rightarrow> 's modbus_client \<Rightarrow> int \<Rightarrow> int list \<Rightarrow> int \<Rightarrow> ('s, demo_output) session" where
  "read_back_from doc unit c base initial speed =
     bindS (read_holding_registers c speed 1 unit) (\<lambda>resp.
     bindS (pureS (expect ''read-back failed'' resp)) (\<lambda>final.
     pureS (demo_report doc base speed initial final)))"

definition write_from :: "pyval \<Rightarrow> int \<Rightarrow> 's modbus_client \<Rightarrow> int \<Rightarrow> int list \<Rightarrow> ('s, demo_output) session" where
  "write_from doc unit c base initial =
     bindS (pureS (address_of doc ''pump_speed_setpoint'')) (\<lambda>speed.
     bindS (write_register c speed 8000 unit) (\<lambda>resp.
     bindS (pureS (expect ''bounded setpoint write failed'' resp)) (\<lambda>_. read_back_from doc unit c base initial speed)))"

lemma demo_session_steps:
  "demo_session doc unit c =
     bindS (client_connect c) (\<lambda>connected.
     bindS (pureS (if connected then Inr () else Inl (RuntimeError ''could not connect''))) (\<lambda>_.
     bindS (pureS (block doc ''holding_register'')) (\<lambda>(base, count).
     bindS (read_holding_registers c base count unit) (\<lambda>resp.
     bindS (pureS (expect ''initial read failed'' resp)) (\<lambda>initial. write_from doc unit c base initial)))))"
  by (simp add: demo_session_def write_from_def read_back_from_def)

lemma read_back_recorded:
  "\<exists>s' r. read_back_from doc unit (recorded c) base initial speed (s, calls) = ((s', calls @ [ReadRegisters speed 1 unit]), r) \<and>
     read_back_from doc unit c base initial speed s = (s', r)"
proof -
  obtain s1 x where "read_holding_registers c speed 1 unit s = (s1, x)" by fastforce
  note call = this recorded_calls(2) [OF this]
  show ?thesis
  proof (cases x)
    case (Inr resp)
    then show ?thesis
      by (cases "expect ''read-back failed'' resp") (simp_all add: read_back_from_def bindS_def [of "read_holding_registers _ _ _ _"] call pureS_def [of "demo_report _ _ _ _ _"])
  qed (simp add: read_back_from_def bindS_def [of "read_holding_registers _ _ _ _"] call)
qed

lemma write_recorded:
  assumes "block doc ''holding_register'' = Inr (base, n)"
  shows "\<exists>s' r calls. write_from doc unit (recorded c) base initial (s, [Connect, ReadRegisters base n unit]) = ((s', calls), r) \<and>
    write_from doc unit c base initial s = (s', r) \<and> session_calls doc unit calls (isOK r)"
proof (cases "address_of doc ''pump_speed_setpoint''")
  case (Inl e)
  then show ?thesis by (simp add: write_from_def session_calls.read [OF assms])
next
  case (Inr speed)
  obtain s1 x where "write_register c speed 8000 unit s = (s1, x)" by fastforce
  note call = this recorded_calls(3) [OF this]
  have stop: "session_calls doc unit [Connect, ReadRegisters base n unit, WriteRegister speed 8000 unit] False"
    by (rule session_calls.wrote [OF assms Inr])
  show ?thesis
  proof (cases x)
    case (Inl e)
    with Inr stop show ?thesis by (simp add: write_from_def bindS_def [of "write_register _ _ _ _"] call)
  next
    case resp: (Inr resp)
    show ?thesis
    proof (cases "expect ''bounded setpoint write failed'' resp")
      case (Inl e)
      with \<open>address_of doc _ = _\<close> resp stop show ?thesis
        by (simp add: write_from_def bindS_def [of "write_register _ _ _ _"] call)
    next
      case (Inr rs)
      obtain s' r where "read_back_from doc unit (recorded c) base initial speed
          (s1, [Connect, ReadRegisters base n unit] @ [WriteRegister speed 8000 unit]) =
          ((s', ([Connect, ReadRegisters base n unit] @ [WriteRegister speed 8000 unit]) @ [ReadRegisters speed 1 unit]), r)"
        "read_back_from doc unit c base initial speed s1 = (s', r)"
        using read_back_recorded [of doc unit c base initial speed s1
            "[Connect, ReadRegisters base n unit] @ [WriteRegister speed 8000 unit]"] by blast
      with \<open>address_of doc _ = _\<close> resp Inr show ?thesis
        by (simp add: write_from_def bindS_def [of "write_register _ _ _ _"] call session_calls.complete [OF assms])
    qed
  qed
qed

lemma session_recorded:
  "\<exists>s' r calls. demo_session doc unit (recorded c) (s, []) = ((s', calls), r) \<and>
     demo_session doc unit c s = (s', r) \<and> session_calls doc unit calls (isOK r)"
proof -
  obtain s1 x where "client_connect c s = (s1, x)" by fastforce
  note conn = this recorded_calls(1) [OF this]
  show ?thesis
  proof (cases "x = Inr True")
    case False
    then have "(\<exists>e. x = Inl e) \<or> x = Inr False" by (cases x) auto
    with conn show ?thesis
      by (auto simp: demo_session_steps bindS_def [of "client_connect _"] session_calls.connected)
  next
    case True
    show ?thesis
    proof (cases "block doc ''holding_register''")
      case (Inl e)
      with True conn show ?thesis
        by (simp add: demo_session_steps bindS_def [of "client_connect _"] session_calls.connected)
    next
      case (Inr bn)
      then obtain base n where b: "block doc ''holding_register'' = Inr (base, n)" by (cases bn) simp
      obtain s2 y where "read_holding_registers c base n unit s1 = (s2, y)" by fastforce
      note call = this recorded_calls(2) [OF this]
      have stop: "session_calls doc unit [Connect, ReadRegisters base n unit] False"
        by (rule session_calls.read [OF b])
      show ?thesis
      proof (cases "\<exists>resp rs. y = Inr resp \<and> expect ''initial read failed'' resp = Inr rs")
        case read: True
        then obtain resp rs where "y = Inr resp" "expect ''initial read failed'' resp = Inr rs" by blast
        with True conn b call write_recorded [OF b, of unit c rs s2] show ?thesis
          by (simp add: demo_session_steps bindS_def [of "client_connect _"] bindS_def [of "read_holding_registers _ _ _ _"])
      next
        case False
        then have "(\<exists>e. y = Inl e) \<or> (\<exists>resp e. y = Inr resp \<and> expect ''initial read failed'' resp = Inl e)"
          by (metis old.sum.exhaust)
        with True conn b call stop show ?thesis
          by (auto simp: demo_session_steps bindS_def [of "client_connect _"] bindS_def [of "read_holding_registers _ _ _ _"])
      qed
    qed
  qed
qed

lemma closing_recorded:
  "\<exists>s' r calls. closing (recorded c) (demo_session doc unit (recorded c)) (s, []) = ((s', calls @ [Close]), r) \<and>
     closing c (demo_session doc unit c) s = (s', r) \<and> session_calls doc unit calls (isOK r)"
  using session_recorded [of doc unit c s] by (auto simp: closing_def recorded_calls)

lemma main_recorded:
  assumes "UNIT_ID doc = Inr unit"
  shows "\<exists>s' calls r. demo_main doc loopback_address (\<lambda>h p. recorded (client h p)) args (s, []) = ((s', calls), r) \<and>
     demo_main doc loopback_address client args s = (s', r) \<and>
     (calls = [] \<and> \<not> (\<exists>out. r = Inr (Inr out)) \<or>
      (\<exists>session complete. calls = session @ [Close] \<and>
         session_calls doc unit session complete \<and> complete = (\<exists>out. r = Inr (Inr out))))"
proof (cases "1 \<le> target_port args \<and> target_port args \<le> 65535 \<and>
    (demo_is_loopback loopback_address (target_host args) \<or> acknowledge_authorized_target args)")
  case True
  let ?c = "client (target_host args) (target_port args)"
  obtain s' r calls where run: "closing (recorded ?c) (demo_session doc unit (recorded ?c)) (s, []) = ((s', calls @ [Close]), r)"
    "closing ?c (demo_session doc unit ?c) s = (s', r)" "session_calls doc unit calls (isOK r)"
    using closing_recorded [of ?c doc unit s] by blast
  from True have go: "demo_main doc loopback_address cl args =
      bindS (closing (cl (target_host args) (target_port args)) (demo_session doc unit (cl (target_host args) (target_port args))))
        (\<lambda>r. pureS (Inr (Inr r)))" for cl :: "string \<Rightarrow> int \<Rightarrow> 'x modbus_client"
    using assms by (auto simp: demo_main_def Let_def fun_eq_iff)
  from run show ?thesis unfolding go
    by (cases r) (auto simp: bindS_def [of "closing _ _"] pureS_def)
qed (use assms in \<open>auto simp: demo_main_def pureS_def\<close>)

text \<open>C34: Whatever the command line, the manifest and the answers of the client, the demonstration
  makes no call at all, or it connects once, reads the block of holding registers, writes only the
  value 8000 and only to the address of the pump speed set point, reads that one register back,
  all for the unit of the manifest, or it makes the first few of these calls in this order; it
  closes the client once at the end in every case, and it reports values only after all of them.\<close>

theorem demo_writes_one_register:
  "\<exists>s' calls r. demo_program doc loopback_address (\<lambda>h p. recorded (client h p)) argv (s, []) = ((s', calls), r) \<and>
     demo_program doc loopback_address client argv s = (s', r) \<and>
     (calls = [] \<and> \<not> (\<exists>out. r = Inr (Inr out)) \<or>
      (\<exists>unit session complete. UNIT_ID doc = Inr unit \<and> calls = session @ [Close] \<and>
         session_calls doc unit session complete \<and> complete = (\<exists>out. r = Inr (Inr out))))"
proof (cases "UNIT_ID doc")
  case (Inr unit)
  show ?thesis
  proof (cases "parse_args demo_parser demo_defaults argv")
    case (Inl status)
    with Inr show ?thesis by (simp add: demo_program_def pureS_def)
  next
    case parsed: (Inr args)
    obtain s' calls r where run: "demo_main doc loopback_address (\<lambda>h p. recorded (client h p)) args (s, []) = ((s', calls), r)"
      "demo_main doc loopback_address client args s = (s', r)"
      "calls = [] \<and> \<not> (\<exists>out. r = Inr (Inr out)) \<or>
       (\<exists>session complete. calls = session @ [Close] \<and>
         session_calls doc unit session complete \<and> complete = (\<exists>out. r = Inr (Inr out)))"
      using main_recorded [OF Inr, of loopback_address client args s] by (elim exE conjE) (rule that)
    define r' where "r' = bindE r (\<lambda>x. Inr (case x of Inl _ \<Rightarrow> Inl 2 | Inr out \<Rightarrow> Inr out) :: (int + demo_output) result)"
    have "demo_program doc loopback_address (\<lambda>h p. recorded (client h p)) argv (s, []) = ((s', calls), r')"
      "demo_program doc loopback_address client argv s = (s', r')"
      using Inr parsed run(1,2) by (auto simp: demo_program_def bindS_def [of "demo_main _ _ _ _"] r'_def pureS_def split: sum.split)
    moreover have "(\<exists>out. r' = Inr (Inr out)) = (\<exists>out. r = Inr (Inr out))"
      by (cases r) (auto simp: r'_def split: sum.split)
    ultimately show ?thesis using run(3) Inr by auto
  qed
qed (simp add: demo_program_def)

end
