(* ===== verification/Spec2Isabelle.thy ===== *)
theory Spec2Isabelle
  imports Wet_Well_Claims Register_Claims Telemetry_Claims Protocol_Drift Server_Claims
    Runtime_Claims Forward_Claims Forward_Regex Validate_Claims Stix_Claims Safety_Claims Demo_Claims
    Main_Claims Forward_Main_Claims Tool_Claims
begin

text \<open>
  SimpleICS Pot is a Modbus TCP honeypot over a synthetic wet-well process.  PyModbus decodes
  frames and keeps the register memory; the repository adds the process behind the registers, the
  adapter between memory and process, the connection handling, the telemetry, and tools that
  validate the register map and carry the telemetry away.  This development models that code as
  written and proves what it promises.

  \<^bold>\<open>How the parts interact.\<close>  \<open>WetWellProcess\<close> (\<open>model.py\<close>) is the only owner of process state.
  \<open>ProcessProtocolAdapter\<close> (\<open>protocol.py\<close>) copies its snapshot into the memory block of a request,
  checks and applies writes, and hands one event per request to a sink.  \<open>server.py\<close> feeds requests
  to it, one at a time per connection, with the identity of the request in a context variable
  (\<open>transport_context.py\<close>) that \<open>telemetry.py\<close> reads when it makes an event.  \<open>runtime.py\<close> starts
  all of it, ticks the process once a second beside the server, and logs each event as one line.
  \<open>forward_events.py\<close> and \<open>build_stix_bundle.py\<close> read those lines; \<open>validate_register_map.py\<close>
  checks the manifest that \<open>register_map.py\<close> and \<open>model.py\<close> are constructed from.

  \<^bold>\<open>Theories and the code they model.\<close>
  \<^item> \<open>Prelude\<close>, \<open>Float64\<close>, \<open>Float_Ops\<close>, \<open>Float_Error\<close>, \<open>PyValue\<close>, \<open>PyText\<close>: Python's exceptions, floats
    (rounding, and operations that overflow to infinity), values and text functions, as far as the
    sources use them; the interfaces (locales) shared below.
  \<^item> \<open>Json\<close>, \<open>Json_Decode\<close>, \<open>Json_Total\<close>, \<open>Json_Roundtrip\<close>: \<open>json.dumps\<close> and \<open>json.loads\<close>; the decoder
    ends on every text, reads back what the encoder writes, and what it reads nests no deeper than
    its text opens containers.
  \<^item> \<open>Register_Map\<close> (\<open>register_map.py\<close>), \<open>Default_Map\<close> (\<open>config/register_map.v1.json\<close>): definitions,
    constructor, lookups, and the shipped manifest as a value.
  \<^item> \<open>Wet_Well\<close> (\<open>model.py\<close>) with \<open>Wet_Well_Props\<close> (the invariant), \<open>Wet_Well_Writes\<close> (writes),
    \<open>Wet_Well_Dynamics\<close> (actuators, hysteresis, alarms), \<open>Wet_Well_Spec\<close> (the abstract state: the
    snapshot as a map), \<open>Default_Process\<close> (the process of the shipped manifest).
  \<^item> \<open>Transport_Context\<close>, \<open>Telemetry\<close> (\<open>transport_context.py\<close>, \<open>telemetry.py\<close>).
  \<^item> \<open>Protocol\<close> (\<open>protocol.py\<close>) with \<open>Protocol_Props\<close>; \<open>Protocol_Drift\<close> is a manifest on which the atomic
    write fails.
  \<^item> \<open>Server\<close> (\<open>server.py\<close>) with \<open>Server_Props\<close>; \<open>Server_System\<close> is the event loop over all connections
    as a step relation.
  \<^item> \<open>Runtime_Log\<close>, \<open>Runtime\<close> (\<open>runtime.py\<close>) with \<open>Runtime_Props\<close>: start-up, log lines, the process task,
    and the running program, whose steps are those of the event loop and of the task.
  \<^item> \<open>Argparse\<close>: \<open>argparse\<close> for parsers of long options (abbreviations, \<open>--x=v\<close>, \<open>--\<close>, negative
    numbers, \<open>-h\<close>), with \<open>int\<close> and \<open>float\<close> of a text; each program is one record of its arguments and
    one list of options.  \<open>Runtime_Main\<close> (\<open>parse_args\<close>, the end of \<open>run_server\<close>, \<open>main\<close>),
    \<open>Runtime_Logging\<close> (\<open>configure_logging\<close> and the handlers of the root logger), \<open>Forward_Main\<close>
    and \<open>Tool_Main\<close> (the packager and the demonstration) are the programs from their command lines.
  \<^item> \<open>Regex\<close> with \<open>Regex_Props\<close>: Python's \<open>re\<close>, matched by backtracking, and its declarative reading.
  \<^item> \<open>Forward_Events\<close> (\<open>tools/forward_events.py\<close>) with \<open>Forward_Props\<close>, \<open>Forward_Runs\<close>, \<open>Forward_Rate\<close>;
    \<open>Forward_Regex\<close> shows that its line pattern selects the text the model computes directly.
  \<^item> \<open>Validate_Map\<close> (\<open>tools/validate_register_map.py\<close>) with \<open>Validate_Props\<close>.
  \<^item> \<open>Stix_Bundle\<close> (\<open>tools/build_stix_bundle.py\<close>) with \<open>Stix_Props\<close>; \<open>Stix_Write\<close> writes the file.
  \<^item> \<open>Modbus_Demo\<close> (\<open>examples/modbus_demo.py\<close>): the client session; \<open>Demo_Claims\<close> relates the
    functions that ask the manifest to the constructed map, \<open>Tool_Claims\<close> records the calls of a run.
  \<^item> \<open>Safety_Check\<close> (\<open>tools/repository_safety_check.py\<close>) with \<open>Safety_Props\<close>; \<open>Safety_Uses\<close> shows
    which uses of actions the scan of a workflow finds.

  \<^bold>\<open>What is proved.\<close>  The \<open>_Claims\<close> theories (and \<open>Protocol_Drift\<close>) state the properties, each with a
  witness on a concrete input.
  \<^item> The process: every tick and every accepted write keeps the invariant, writes are updates of the
    abstract snapshot, actuators follow their commands after the delay, the pump control is a
    two-threshold switch, alarms say what the level is.
  \<^item> The adapter: a request is served from one snapshot, a multiple write happens completely or not
    at all, every request leaves one event, and no sink can influence an answer.
  \<^item> The server: limits and deadlines hold in every reachable state, pipelined requests are queued
    and answered in order under their own identity, undecodable frames are answered.
  \<^item> The running program: the invariants of all components hold together in every reachable state,
    and the process task never ends and catches up when it is late; every run that ends shuts the
    server down.
  \<^item> The command lines: no arguments make the sensor bind beyond loopback without the acknowledgement,
    or the forwarder talk to anything but its collector, and every accepted configuration can be
    written; whatever logging was set up before, no handler writes an unbounded PyModbus message.
  \<^item> The tools: logged events are recovered unchanged, the forwarder answers on every line, accounts
    for every line, keeps its rate and survives a failing network; an accepted manifest constructs
    exactly when its references and scales convert; the bundle summarises exactly the events of each
    source, in whatever order they arrive, and is never seen half written; a repository the scan
    passes is clean in every file, up to the gaps stated there (addresses with a digit or a dot
    beside them, PKCS 8 markers, actions not on a line of their own, links to directories); the
    demonstration writes one register and always closes its client.

  \<^bold>\<open>Choices.\<close>  Exceptions are values of \<open>exn\<close>; code that may raise returns \<open>exn + 'a\<close>, and code that
  changes state before it raises returns the state as well.  Finite floats are the rationals they
  stand for, with \<open>fl\<close> (binary64, to nearest even) after every operation.  Where a constant of the
  manifest can make an operation of a tick overflow, its result is a \<open>pyfloat\<close> with the infinities
  and \<open>round\<close> raises on them; the invariant of the process bounds its flows by \<open>flow_limit\<close>
  (\<open>2 ^ 1000\<close>; the validator allows 10000), and within that nothing overflows.  Text is made of characters below 256.  The JSON decoder carries
  fuel; \<open>scan_fuel\<close> grows with the text and \<open>Json_Total\<close> shows that it is never used up.  The
  recursion limit of the interpreter is a parameter: \<open>depth\<close> for decoding, and a pair \<open>depths\<close> where
  nested containers are both decoded and encoded again.  Clock readings are inputs; the event loop's
  clock counts from the start of the runtime, so the rounding of a large origin is not covered.

  \<^bold>\<open>Parameters and what is assumed of them.\<close>  \<open>base_contract\<close>: PyModbus's \<open>data_received\<close> appends to the
  buffer, calls \<open>callback_data\<close> once and drops what it consumed.  \<open>packing_ok\<close>: sixteen bits to a
  register, packing undoes unpacking.  \<open>drives_device\<close>: PyModbus changes the adapter only through its
  \<open>action\<close> hook.  \<open>socket_errors\<close>: for an ASCII host and a port from 0 to 65535, socket calls fail only
  with \<open>OSError\<close>.  Address parsing, ISO time conversion (which may raise) and UUIDs are unconstrained
  functions, and so is the client of the demonstration.

  \<^bold>\<open>Not modelled.\<close>  Opening files and sockets, the disposition of signals and the scheduler of asyncio
  are I/O around the modelled code; \<open>__init__.py\<close> only re-exports.  Help and error texts of argparse
  are left out, its exit status is not; it is modelled as of Python 3.11.  Infinite and undefined
  rates on the command line of the forwarder are \<open>NotModelled\<close>, and so are printing a float and
  characters beyond 255 that an escape of a JSON text denotes.  The standard streams never fail.
\<close>

end
